(* ===== verification/GoPrelude.thy ===== *)
theory GoPrelude
  imports Main "HOL-Library.Word" "HOL-Library.AList"
begin

text \<open>
  Shared vocabulary of the BBSim development: the machine integers of the Go sources, the outcome
  of running a piece of Go code (a value, a panic, or a goroutine that blocks), Go channels, Go maps
  as association lists, and loops over slices. Nothing here is specific to BBSim; the component
  theories are proved from the rewrite rules collected in \<open>go_simps\<close>.
\<close>

named_theorems go_simps \<open>rewrite rules for outcomes, channels and loops\<close>
named_theorems go_maps \<open>rewrite rules for Go maps\<close>

section \<open>Machine integers\<close>

type_synonym byte = "8 word"
type_synonym uint8 = "8 word"
type_synonym uint16 = "16 word"
type_synonym uint32 = "32 word"
type_synonym uint64 = "64 word"

text \<open>
  Go's \<open>int32\<close> is kept as the same 32 bits: the sources only compare it for equality and convert it
  to \<open>uint32\<close>, and both are the identity on the bits.
\<close>

type_synonym int32 = "32 word"

section \<open>Outcomes of Go code\<close>

text \<open>
  \<open>Ret\<close> is a normal return, \<open>Panic\<close> a run-time panic or a \<open>log.Fatal\<close> (both end the process) and
  \<open>Blocked\<close> a goroutine that waits for ever on a channel operation.
\<close>

datatype go_panic =
    NilDereference
  | NilMapWrite
  | SendOnClosedChannel
  | CloseOfClosedChannel
  | CloseOfNilChannel
  | IndexOutOfRange
  | FailedTypeAssertion
  | FatalLog

datatype 'a go = Ret 'a | Panic go_panic | Blocked

primrec go_bind :: "'a go \<Rightarrow> ('a \<Rightarrow> 'b go) \<Rightarrow> 'b go" where
  "go_bind (Ret x) f = f x"
| "go_bind (Panic p) f = Panic p"
| "go_bind Blocked f = Blocked"

lemma go_bind_Ret [simp]: "go_bind m Ret = m"
  by (cases m) simp_all

lemma go_bind_assoc [go_simps]: "go_bind (go_bind m f) g = go_bind m (\<lambda>x. go_bind (f x) g)"
  by (cases m) simp_all

lemma go_bind_eq_Ret [go_simps]:
  "go_bind m f = Ret y \<longleftrightarrow> (\<exists>x. m = Ret x \<and> f x = Ret y)"
  by (cases m) simp_all

lemma go_bind_eq_Panic:
  "go_bind m f = Panic p \<longleftrightarrow> m = Panic p \<or> (\<exists>x. m = Ret x \<and> f x = Panic p)"
  by (cases m) simp_all

lemma go_bind_eq_Blocked:
  "go_bind m f = Blocked \<longleftrightarrow> m = Blocked \<or> (\<exists>x. m = Ret x \<and> f x = Blocked)"
  by (cases m) simp_all

lemma Ret_eq_go_bind [go_simps]:
  "Ret y = go_bind m f \<longleftrightarrow> (\<exists>x. m = Ret x \<and> f x = Ret y)"
  by (cases m) auto

lemma go_bind_cong [fundef_cong]:
  "m = m' \<Longrightarrow> (\<And>x. m' = Ret x \<Longrightarrow> f x = f' x) \<Longrightarrow> go_bind m f = go_bind m' f'"
  by (cases m') simp_all

definition returns :: "'a go \<Rightarrow> bool" where
  "returns m \<longleftrightarrow> (case m of Ret _ \<Rightarrow> True | _ \<Rightarrow> False)"

lemma returns_simps [simp]: "returns (Ret x)" "\<not> returns (Panic p)" "\<not> returns Blocked"
  by (simp_all add: returns_def)

lemma returns_iff: "returns m \<longleftrightarrow> (\<exists>x. m = Ret x)"
  by (cases m) simp_all

definition panics :: "'a go \<Rightarrow> bool" where
  "panics x \<longleftrightarrow> (\<exists>p. x = Panic p)"

lemma panics_simps [simp]:
  "\<not> panics (Ret x)" "panics (Panic p)" "\<not> panics Blocked"
  by (auto simp: panics_def)

lemma panics_bind: "panics (go_bind x f) \<longleftrightarrow> panics x \<or> (\<exists>y. x = Ret y \<and> panics (f y))"
  by (cases x) auto

section \<open>Channels\<close>

text \<open>
  A channel is nil, or has a capacity, the messages sent and not yet received, and a flag for
  \<open>close\<close>. \<open>Some n\<close> is a buffered channel of capacity \<open>n\<close>: a send to a full buffer blocks. \<open>None\<close> is
  an unbuffered channel with a goroutine that receives from it: the model keeps the messages handed
  over in order, and what it leaves out is only that the sender waits for the hand-over.
\<close>

datatype 'm chan =
    NilChan
  | Chan (chan_cap: "nat option") (chan_buf: "'m list") (chan_closed: bool)

definition make_chan :: "nat option \<Rightarrow> 'm chan" where
  "make_chan c = Chan c [] False"

fun chan_send :: "'m chan \<Rightarrow> 'm \<Rightarrow> 'm chan go" where
  "chan_send NilChan m = Blocked"
| "chan_send (Chan c q True) m = Panic SendOnClosedChannel"
| "chan_send (Chan None q False) m = Ret (Chan None (q @ [m]) False)"
| "chan_send (Chan (Some n) q False) m =
     (if length q < n then Ret (Chan (Some n) (q @ [m]) False) else Blocked)"

fun chan_close :: "'m chan \<Rightarrow> 'm chan go" where
  "chan_close NilChan = Panic CloseOfNilChannel"
| "chan_close (Chan c q True) = Panic CloseOfClosedChannel"
| "chan_close (Chan c q False) = Ret (Chan c q True)"

text \<open>
  \<open>m, ok := <-c\<close>: buffered messages are delivered first, also after \<open>close\<close>; an empty closed
  channel gives \<open>None\<close> (\<open>ok\<close> is false) and an empty open one blocks.
\<close>

fun chan_recv :: "'m chan \<Rightarrow> ('m option \<times> 'm chan) go" where
  "chan_recv NilChan = Blocked"
| "chan_recv (Chan c [] True) = Ret (None, Chan c [] True)"
| "chan_recv (Chan c [] False) = Blocked"
| "chan_recv (Chan c (m # q) b) = Ret (Some m, Chan c q b)"

definition chan_open :: "'m chan \<Rightarrow> bool" where
  "chan_open c \<longleftrightarrow> (case c of NilChan \<Rightarrow> False | Chan _ _ b \<Rightarrow> \<not> b)"

text \<open>\<open>chan_room c n\<close>: \<open>n\<close> more messages can be sent without blocking.\<close>

definition chan_room :: "'m chan \<Rightarrow> nat \<Rightarrow> bool" where
  "chan_room c n \<longleftrightarrow> (case c of NilChan \<Rightarrow> False
     | Chan None _ b \<Rightarrow> \<not> b
     | Chan (Some k) q b \<Rightarrow> \<not> b \<and> length q + n \<le> k)"

definition chan_msgs :: "'m chan \<Rightarrow> 'm list" where
  "chan_msgs c = (case c of NilChan \<Rightarrow> [] | Chan _ q _ \<Rightarrow> q)"

lemma chan_msgs_simps [simp]:
  "chan_msgs NilChan = []" "chan_msgs (Chan c q b) = q" "chan_msgs (make_chan c) = []"
  by (simp_all add: chan_msgs_def make_chan_def)

lemma chan_open_simps [simp]:
  "\<not> chan_open NilChan" "chan_open (Chan c q b) \<longleftrightarrow> \<not> b" "chan_open (make_chan c)"
  by (simp_all add: chan_open_def make_chan_def)

lemma chan_send_Ret [go_simps]:
  "chan_send c m = Ret c' \<longleftrightarrow>
     chan_room c 1 \<and> (\<exists>k q. c = Chan k q False \<and> c' = Chan k (q @ [m]) False)"
  by (cases "(c, m)" rule: chan_send.cases) (auto simp: chan_room_def)

lemma chan_send_room:
  "chan_room c (Suc n) \<Longrightarrow>
   \<exists>c'. chan_send c m = Ret c' \<and> chan_room c' n \<and> chan_msgs c' = chan_msgs c @ [m]
        \<and> chan_cap c' = chan_cap c \<and> chan_open c'"
  by (cases "(c, m)" rule: chan_send.cases) (auto simp: chan_room_def split: option.splits)

lemma chan_send_open: "chan_open c \<Longrightarrow> \<not> panics (chan_send c m)"
  by (cases "(c, m)" rule: chan_send.cases) auto

lemma chan_room_open: "chan_room c n \<Longrightarrow> chan_open c"
  by (auto simp: chan_room_def chan_open_def split: chan.splits option.splits)

lemma chan_room_mono: "chan_room c n \<Longrightarrow> m \<le> n \<Longrightarrow> chan_room c m"
  by (auto simp: chan_room_def split: chan.splits option.splits)

lemma chan_close_open:
  "chan_open c \<Longrightarrow> \<exists>c'. chan_close c = Ret c' \<and> \<not> chan_open c' \<and> chan_msgs c' = chan_msgs c"
  by (cases c rule: chan_close.cases) auto

lemma chan_close_Ret [go_simps]:
  "chan_close c = Ret c' \<longleftrightarrow> (\<exists>k q. c = Chan k q False \<and> c' = Chan k q True)"
  by (cases c rule: chan_close.cases) auto

section \<open>Go maps\<close>

text \<open>
  A Go map is an association list with distinct keys, so that \<open>len\<close> and \<open>range\<close> are executable.
  \<open>range\<close> visits the keys in an unspecified order; the order of the list stands for one such order.
\<close>

type_synonym ('k, 'v) gomap = "('k \<times> 'v) list"

definition gomap_ok :: "('k, 'v) gomap \<Rightarrow> bool" where
  "gomap_ok m \<longleftrightarrow> distinct (map fst m)"

lemma gomap_ok_simps [simp]:
  "gomap_ok []"
  "gomap_ok m \<Longrightarrow> gomap_ok (AList.update k v m)"
  "gomap_ok m \<Longrightarrow> gomap_ok (AList.delete k m)"
  by (simp_all add: gomap_ok_def distinct_update distinct_delete)

lemma gomap_ok_filter [simp]: "gomap_ok m \<Longrightarrow> gomap_ok (filter P m)"
  by (simp add: gomap_ok_def distinct_map_filter)

lemma map_of_AList_update [go_maps]:
  "map_of (AList.update k v m) k' = (if k' = k then Some v else map_of m k')"
  by (simp add: update_conv')

lemma map_of_AList_delete [go_maps]:
  "map_of (AList.delete k m) k' = (if k' = k then None else map_of m k')"
  by (simp add: delete_conv')

lemma map_of_filter_gomap [go_maps]:
  "gomap_ok m \<Longrightarrow> map_of (filter P m) k =
     (case map_of m k of None \<Rightarrow> None | Some v \<Rightarrow> if P (k, v) then Some v else None)"
proof (induction m)
  case Nil
  then show ?case by simp
next
  case (Cons a m)
  then have "fst a \<notin> fst ` set m" "gomap_ok m" by (simp_all add: gomap_ok_def)
  with Cons.IH show ?case
    by (cases a) (auto split: option.splits dest: map_of_SomeD simp: map_of_eq_None_iff image_iff)
qed

section \<open>Loops over slices\<close>

text \<open>\<open>for _, x := range xs { s = body x s }\<close>, where the body may panic or block.\<close>

fun go_fold :: "('a \<Rightarrow> 's \<Rightarrow> 's go) \<Rightarrow> 'a list \<Rightarrow> 's \<Rightarrow> 's go" where
  "go_fold f [] s = Ret s"
| "go_fold f (x # xs) s = go_bind (f x s) (go_fold f xs)"

text \<open>The same where the body also updates the object it visits through its pointer.\<close>

fun go_each :: "('a \<Rightarrow> 's \<Rightarrow> ('a \<times> 's) go) \<Rightarrow> 'a list \<Rightarrow> 's \<Rightarrow> ('a list \<times> 's) go" where
  "go_each f [] s = Ret ([], s)"
| "go_each f (x # xs) s =
     go_bind (f x s) (\<lambda>(x', s'). go_bind (go_each f xs s') (\<lambda>(xs', s''). Ret (x' # xs', s'')))"

text \<open>The same without a state besides the visited objects.\<close>

fun go_map :: "('a \<Rightarrow> 'b go) \<Rightarrow> 'a list \<Rightarrow> 'b list go" where
  "go_map f [] = Ret []"
| "go_map f (x # xs) = go_bind (f x) (\<lambda>y. go_bind (go_map f xs) (\<lambda>ys. Ret (y # ys)))"

lemma go_map_Ret: "go_map f xs = Ret ys \<longleftrightarrow> list_all2 (\<lambda>x y. f x = Ret y) xs ys"
  by (induction xs arbitrary: ys) (auto simp: go_simps list_all2_Cons1)

lemma go_map_returns:
  assumes "\<And>x. x \<in> set xs \<Longrightarrow> \<exists>y. f x = Ret y \<and> R x y"
  shows "\<exists>ys. go_map f xs = Ret ys \<and> list_all2 R xs ys"
  using assms
proof (induction xs)
  case Nil
  then show ?case by simp
next
  case (Cons x xs)
  obtain y where "f x = Ret y" "R x y" using Cons.prems[of x] by auto
  moreover obtain ys where "go_map f xs = Ret ys" "list_all2 R xs ys" using Cons by auto
  ultimately show ?case by simp
qed

lemma go_map_all:
  assumes "\<And>x. x \<in> set xs \<Longrightarrow> \<exists>y. f x = Ret y \<and> Q y"
  shows "\<exists>ys. go_map f xs = Ret ys \<and> length ys = length xs \<and> (\<forall>y \<in> set ys. Q y)"
  using go_map_returns[of xs f "\<lambda>_. Q"] assms by (auto simp: list_all2_conv_all_nth in_set_conv_nth)

lemma go_fold_append [go_simps]:
  "go_fold f (xs @ ys) s = go_bind (go_fold f xs s) (go_fold f ys)"
  by (induction xs arbitrary: s) (auto simp: go_simps intro: go_bind_cong)

lemma go_fold_invariant:
  assumes "\<And>x s s'. x \<in> set xs \<Longrightarrow> I s \<Longrightarrow> f x s = Ret s' \<Longrightarrow> I s'"
    and "go_fold f xs s = Ret s'" and "I s"
  shows "I s'"
  using assms by (induction xs arbitrary: s) (auto simp: go_simps)

lemma go_each_length: "go_each f xs s = Ret (xs', s') \<Longrightarrow> length xs' = length xs"
  by (induction xs arbitrary: s xs' s') (auto simp: go_simps)

lemma go_each_all2:
  assumes "\<And>x s x' s'. x \<in> set xs \<Longrightarrow> I s \<Longrightarrow> f x s = Ret (x', s') \<Longrightarrow> R x x' \<and> I s'"
    and "go_each f xs s = Ret (xs', s')" and "I s"
  shows "list_all2 R xs xs' \<and> I s'"
  using assms
proof (induction xs arbitrary: s xs' s')
  case Nil
  then show ?case by simp
next
  case (Cons x xs)
  from Cons.prems(2) obtain y s1 ys where y: "f x s = Ret (y, s1)"
    and ys: "go_each f xs s1 = Ret (ys, s')" and xs': "xs' = y # ys"
    by (auto simp: go_simps)
  from Cons.prems(1)[of x s y s1] Cons.prems(3) y have "R x y" "I s1" by auto
  have "list_all2 R xs ys \<and> I s'"
    by (rule Cons.IH[OF _ ys \<open>I s1\<close>]) (rule Cons.prems(1), simp_all)
  with \<open>R x y\<close> xs' show ?case by simp
qed

text \<open>
  If the body returns from every state that satisfies \<open>I\<close>, with a budget \<open>b\<close> of channel slots per
  visited object, the loop returns.
\<close>

lemma go_each_returns:
  fixes b :: "'a \<Rightarrow> nat"
  assumes "\<And>x s n. x \<in> set xs \<Longrightarrow> I s (n + b x) \<Longrightarrow> \<exists>x' s'. f x s = Ret (x', s') \<and> I s' n"
    and "I s (n + sum_list (map b xs))"
  shows "\<exists>xs' s'. go_each f xs s = Ret (xs', s') \<and> I s' n"
  using assms
proof (induction xs arbitrary: s)
  case Nil
  then show ?case by simp
next
  case (Cons x xs)
  from Cons.prems(1)[of x s "n + sum_list (map b xs)"] Cons.prems(2)
  obtain y s1 where "f x s = Ret (y, s1)" "I s1 (n + sum_list (map b xs))"
    by (auto simp: add.assoc add.commute add.left_commute)
  with Cons.IH[of s1] Cons.prems(1) show ?case by fastforce
qed

section \<open>Look-ups in a slice\<close>

text \<open>
  \<open>for i, x := range xs { if p(x) { return x } }\<close>. A pointer to an element of a slice is the index
  of the element, so the look-up returns the first index.
\<close>

fun find_idx :: "('a \<Rightarrow> bool) \<Rightarrow> 'a list \<Rightarrow> nat option" where
  "find_idx p [] = None"
| "find_idx p (x # xs) = (if p x then Some 0 else map_option Suc (find_idx p xs))"

lemma find_idx_None [simp]: "find_idx p xs = None \<longleftrightarrow> (\<forall>x \<in> set xs. \<not> p x)"
  by (induction xs) auto

lemma find_idx_Some:
  "find_idx p xs = Some i \<longleftrightarrow> i < length xs \<and> p (xs ! i) \<and> (\<forall>j < i. \<not> p (xs ! j))"
proof (induction xs arbitrary: i)
  case Nil
  then show ?case by simp
next
  case (Cons x xs)
  show ?case
    by (cases i) (auto simp: Cons.IH All_less_Suc2)
qed

text \<open>
  The contract of every look-up by key: what it returns is in range and matches, nothing before it
  matches, and it fails exactly when nothing matches.
\<close>

locale slice_lookup =
  fixes lookup :: "'k \<Rightarrow> 'a list \<Rightarrow> nat option"
    and matches :: "'k \<Rightarrow> 'a \<Rightarrow> bool"
  assumes lookup_Some: "lookup k xs = Some i \<longleftrightarrow>
    i < length xs \<and> matches k (xs ! i) \<and> (\<forall>j < i. \<not> matches k (xs ! j))"
begin

lemma lookup_in_range: "lookup k xs = Some i \<Longrightarrow> i < length xs"
  by (simp add: lookup_Some)

lemma lookup_matches: "lookup k xs = Some i \<Longrightarrow> matches k (xs ! i)"
  by (simp add: lookup_Some)

lemma lookup_None: "lookup k xs = None \<longleftrightarrow> (\<forall>x \<in> set xs. \<not> matches k x)"
proof
  assume "lookup k xs = None"
  then have none: "\<not> (i < length xs \<and> matches k (xs ! i) \<and> (\<forall>j < i. \<not> matches k (xs ! j)))" for i
    using lookup_Some[of k xs i] by simp
  show "\<forall>x \<in> set xs. \<not> matches k x"
  proof (rule ccontr)
    assume "\<not> (\<forall>x \<in> set xs. \<not> matches k x)"
    then have ex: "\<exists>i. i < length xs \<and> matches k (xs ! i)"
      by (auto simp: in_set_conv_nth)
    define i where "i = (LEAST i. i < length xs \<and> matches k (xs ! i))"
    have "i < length xs \<and> matches k (xs ! i)"
      unfolding i_def by (rule LeastI_ex[OF ex])
    moreover have "\<not> matches k (xs ! j)" if "j < i" for j
      using that not_less_Least[of j "\<lambda>i. i < length xs \<and> matches k (xs ! i)"]
        calculation unfolding i_def by auto
    ultimately show False using none by blast
  qed
next
  assume "\<forall>x \<in> set xs. \<not> matches k x"
  then show "lookup k xs = None"
    using lookup_Some[of k xs] by (metis not_None_eq nth_mem)
qed

lemma lookup_unique:
  assumes "i < length xs" "matches k (xs ! i)" "\<And>j. j < length xs \<Longrightarrow> matches k (xs ! j) \<Longrightarrow> j = i"
  shows "lookup k xs = Some i"
  using assms by (metis less_irrefl less_trans lookup_Some)

end

end
