(* ===== verification/Fsm.thy ===== *)
theory Fsm
  imports GoPrelude
begin

text \<open>
  The state-machine library that every BBSim device embeds
  (\<open>vendor/github.com/looplab/fsm/fsm.go\<close>): \<open>NewFSM\<close>, \<open>Current\<close>, \<open>Is\<close>, \<open>SetState\<close>, \<open>Can\<close>,
  \<open>AvailableTransitions\<close> and \<open>Event\<close> with its callbacks.

  A machine is a field of the device whose state its callbacks change, so \<open>Event\<close> works on the state
  \<open>'w\<close> of the device and reaches the machine through the field's \<open>get\<close> and \<open>put\<close>. None of the
  callbacks that BBSim registers cancels an event, makes it asynchronous or fires an event of its own
  machine, so the errors \<open>CanceledError\<close>, \<open>AsyncError\<close> and \<open>InTransitionError\<close> have no constructor.
\<close>

section \<open>The machine\<close>

record ('e, 's) EventDesc =
  Name :: 'e
  Src :: "'s list"
  Dst :: 's

record ('e, 's) FSM =
  current :: 's
  transitions :: "('e \<times> 's, 's) gomap"

datatype ('e, 's) fsm_error =
    InvalidEventError 'e 's
  | UnknownEventError 'e
  | NoTransitionError

text \<open>The loop of \<open>NewFSM\<close> that fills the transition map, one entry per source state.\<close>

fun add_sources :: "'e \<Rightarrow> 's list \<Rightarrow> 's \<Rightarrow> ('e \<times> 's, 's) gomap \<Rightarrow> ('e \<times> 's, 's) gomap" where
  "add_sources e [] d m = m"
| "add_sources e (s # ss) d m = add_sources e ss d (AList.update (e, s) d m)"

fun build_transitions ::
  "('e, 's) EventDesc list \<Rightarrow> ('e \<times> 's, 's) gomap \<Rightarrow> ('e \<times> 's, 's) gomap" where
  "build_transitions [] m = m"
| "build_transitions (d # ds) m = build_transitions ds (add_sources (Name d) (Src d) (Dst d) m)"

definition NewFSM :: "'s \<Rightarrow> ('e, 's) EventDesc list \<Rightarrow> ('e, 's) FSM" where
  "NewFSM initial events = \<lparr>current = initial, transitions = build_transitions events []\<rparr>"

definition fsm_Is :: "('e, 's) FSM \<Rightarrow> 's \<Rightarrow> bool" where
  "fsm_Is f s \<longleftrightarrow> s = current f"

definition SetState :: "'s \<Rightarrow> ('e, 's) FSM \<Rightarrow> ('e, 's) FSM" where
  "SetState s f = f\<lparr>current := s\<rparr>"

definition Can :: "('e, 's) FSM \<Rightarrow> 'e \<Rightarrow> bool" where
  "Can f e \<longleftrightarrow> map_of (transitions f) (e, current f) \<noteq> None"

definition AvailableTransitions :: "('e, 's) FSM \<Rightarrow> 'e list" where
  "AvailableTransitions f = map (fst \<circ> fst) (filter (\<lambda>t. snd (fst t) = current f) (transitions f))"

text \<open>What a callback is told of the event (\<open>fsm.Event\<close>), and the four kinds of callback.\<close>

record ('e, 's) Event =
  ev_Event :: 'e
  ev_Src :: 's
  ev_Dst :: 's

record ('e, 's, 'w) callbacks =
  before_cb :: "('e, 's) Event \<Rightarrow> 'w \<Rightarrow> 'w go"
  leave_cb :: "('e, 's) Event \<Rightarrow> 'w \<Rightarrow> 'w go"
  enter_cb :: "('e, 's) Event \<Rightarrow> 'w \<Rightarrow> 'w go"
  after_cb :: "('e, 's) Event \<Rightarrow> 'w \<Rightarrow> 'w go"

definition no_callbacks :: "('e, 's, 'w) callbacks" where
  "no_callbacks = \<lparr>before_cb = (\<lambda>_. Ret), leave_cb = (\<lambda>_. Ret), enter_cb = (\<lambda>_. Ret), after_cb = (\<lambda>_. Ret)\<rparr>"

definition enter_callbacks :: "(('e, 's) Event \<Rightarrow> 'w \<Rightarrow> 'w go) \<Rightarrow> ('e, 's, 'w) callbacks" where
  "enter_callbacks f = no_callbacks\<lparr>enter_cb := f\<rparr>"

definition event_error :: "('e, 's) FSM \<Rightarrow> 'e \<Rightarrow> ('e, 's) fsm_error" where
  "event_error f e =
     (if list_ex (\<lambda>t. fst (fst t) = e) (transitions f) then InvalidEventError e (current f)
      else UnknownEventError e)"

text \<open>The result is the error that \<open>Event\<close> returns, or \<open>None\<close> for \<open>nil\<close>, and the new state.\<close>

definition fsm_Event ::
  "('w \<Rightarrow> ('e, 's) FSM) \<Rightarrow> (('e, 's) FSM \<Rightarrow> 'w \<Rightarrow> 'w) \<Rightarrow> ('e, 's, 'w) callbacks \<Rightarrow> 'e \<Rightarrow> 'w
   \<Rightarrow> (('e, 's) fsm_error option \<times> 'w) go" where
  "fsm_Event get put cb e w =
     (case map_of (transitions (get w)) (e, current (get w)) of
        None \<Rightarrow> Ret (Some (event_error (get w) e), w)
      | Some dst \<Rightarrow>
          (let ev = \<lparr>ev_Event = e, ev_Src = current (get w), ev_Dst = dst\<rparr> in
           go_bind (before_cb cb ev w) (\<lambda>w1.
           if current (get w1) = dst
           then go_bind (after_cb cb ev w1) (\<lambda>w2. Ret (Some NoTransitionError, w2))
           else go_bind (leave_cb cb ev w1) (\<lambda>w2.
                go_bind (enter_cb cb ev (put (SetState dst (get w2)) w2)) (\<lambda>w3.
                go_bind (after_cb cb ev w3) (\<lambda>w4. Ret (None, w4)))))))"

text \<open>A machine with no callback that touches the device.\<close>

definition fsm_fire :: "'e \<Rightarrow> ('e, 's) FSM \<Rightarrow> ('e, 's) fsm_error option \<times> ('e, 's) FSM" where
  "fsm_fire e f =
     (case map_of (transitions f) (e, current f) of
        None \<Rightarrow> (Some (event_error f e), f)
      | Some dst \<Rightarrow> if current f = dst then (Some NoTransitionError, f) else (None, SetState dst f))"

section \<open>Lemmas\<close>

lemma no_callbacks_simps [simp]:
  "before_cb no_callbacks e = Ret" "leave_cb no_callbacks s = Ret"
  "enter_cb no_callbacks s = Ret" "after_cb no_callbacks e = Ret"
  "before_cb (enter_callbacks f) e = Ret" "leave_cb (enter_callbacks f) s = Ret"
  "enter_cb (enter_callbacks f) = f" "after_cb (enter_callbacks f) e = Ret"
  by (simp_all add: no_callbacks_def enter_callbacks_def)

lemma SetState_simps [simp]:
  "current (SetState s f) = s" "transitions (SetState s f) = transitions f"
  by (simp_all add: SetState_def)

lemma map_of_add_sources:
  "map_of (add_sources e ss d m) (e', s') =
     (if e' = e \<and> s' \<in> set ss then Some d else map_of m (e', s'))"
  by (induction ss arbitrary: m) (auto simp: go_maps)

lemma map_of_build_transitions:
  "map_of (build_transitions ds m) (e, s) =
     (case filter (\<lambda>d. Name d = e \<and> s \<in> set (Src d)) ds of
        [] \<Rightarrow> map_of m (e, s) | xs \<Rightarrow> Some (Dst (last xs)))"
  by (induction ds arbitrary: m) (auto simp: map_of_add_sources split: list.splits)

lemma fsm_Event_no_callbacks:
  assumes "\<And>w. put (get w) w = w"
  shows "fsm_Event get put no_callbacks e w =
           Ret (fst (fsm_fire e (get w)), put (snd (fsm_fire e (get w))) w)"
  by (simp add: fsm_Event_def Let_def fsm_fire_def assms split: option.splits)

text \<open>
  The interface between a device and its machine: \<open>get\<close> and \<open>put\<close> are a field of the device, and no
  callback writes that field.
\<close>

locale fsm_field =
  fixes get :: "'w \<Rightarrow> ('e, 's) FSM"
    and put :: "('e, 's) FSM \<Rightarrow> 'w \<Rightarrow> 'w"
    and cb :: "('e, 's, 'w) callbacks"
  assumes get_put: "get (put f w) = f"
    and put_get: "put (get w) w = w"
    and before_keeps: "before_cb cb e w = Ret w' \<Longrightarrow> get w' = get w"
    and leave_keeps: "leave_cb cb s w = Ret w' \<Longrightarrow> get w' = get w"
    and enter_keeps: "enter_cb cb s w = Ret w' \<Longrightarrow> get w' = get w"
    and after_keeps: "after_cb cb e w = Ret w' \<Longrightarrow> get w' = get w"
begin

lemma Event_keeps_transitions:
  "fsm_Event get put cb e w = Ret (r, w') \<Longrightarrow> transitions (get w') = transitions (get w)"
  by (auto simp: fsm_Event_def Let_def go_simps get_put split: option.splits if_splits
           dest!: before_keeps leave_keeps enter_keeps after_keeps)

lemma Event_rejected:
  "\<not> Can (get w) e \<Longrightarrow> fsm_Event get put cb e w = Ret (Some (event_error (get w) e), w)"
  by (simp add: fsm_Event_def Can_def)

lemma Event_current:
  assumes "fsm_Event get put cb e w = Ret (r, w')"
  shows "current (get w') =
           (case map_of (transitions (get w)) (e, current (get w)) of None \<Rightarrow> current (get w) | Some d \<Rightarrow> d)"
  using assms
  by (auto simp: fsm_Event_def Let_def go_simps get_put split: option.splits if_splits
           dest!: before_keeps leave_keeps enter_keeps after_keeps)

lemma Event_machine:
  assumes "fsm_Event get put cb e w = Ret (r, w')"
  shows "(r, get w') = fsm_fire e (get w)"
  using assms
  by (auto simp: fsm_Event_def Let_def fsm_fire_def go_simps get_put split: option.splits if_splits
           dest!: before_keeps leave_keeps enter_keeps after_keeps)

lemma Event_nil_iff:
  assumes "fsm_Event get put cb e w = Ret (r, w')"
  shows "r = None \<longleftrightarrow> (\<exists>d. map_of (transitions (get w)) (e, current (get w)) = Some d \<and> d \<noteq> current (get w))"
  using Event_machine[OF assms] by (auto simp: fsm_fire_def split: option.splits if_splits)

end

end
