(* ===== verification/Packets.thy ===== *)
theory Packets
  imports GoPrelude
begin

unbundle bit_operations_syntax

text \<open>
  VLAN tags and packet classification (\<open>internal/bbsim/packetHandlers\<close>). A frame is its bytes. The
  Ethernet and 802.1Q headers are read and written byte by byte, as \<open>gopacket\<close> does it
  (\<open>layers/ethernet.go\<close>, \<open>layers/dot1q.go\<close>), including the padding of short frames and the partial
  buffer that is left when a layer fails to serialise, because the callers ignore that error. The
  802.1Q header is looked for right after the Ethernet header.

  The layers above that the responders inspect (EAP, DHCP, IGMP) are decoded by \<open>gopacket\<close>; a
  received packet is the record \<open>Packet\<close> of its bytes and the layers found in it.
\<close>

section \<open>Big-endian 16-bit fields\<close>

definition be16 :: "uint16 \<Rightarrow> byte list" where
  "be16 w = [ucast (drop_bit 8 w), ucast w]"

definition from_be16 :: "byte \<Rightarrow> byte \<Rightarrow> uint16" where
  "from_be16 a b = push_bit 8 (ucast a) OR ucast b"

lemma from_be16_be16 [simp]: "from_be16 (ucast (drop_bit 8 (w :: uint16))) (ucast w) = w"
  unfolding from_be16_def by (rule bit_word_eqI) (auto simp: bit_simps)

lemma be16_from_be16: "be16 (from_be16 a b) = [a, b]"
proof -
  have "(ucast (drop_bit 8 (from_be16 a b)) :: byte) = a"
    unfolding from_be16_def by (rule bit_word_eqI) (auto simp: bit_simps dest: bit_imp_le_length)
  moreover have "(ucast (from_be16 a b) :: byte) = b"
    unfolding from_be16_def by (rule bit_word_eqI) (auto simp: bit_simps)
  ultimately show ?thesis by (simp add: be16_def)
qed

lemma length_be16 [simp]: "length (be16 w) = 2"
  by (simp add: be16_def)

section \<open>Ethernet and 802.1Q headers\<close>

record Ethernet =
  DstMAC :: "byte list"
  SrcMAC :: "byte list"
  EthernetType :: uint16
  eth_Length :: uint16
  eth_Payload :: "byte list"

record Dot1Q =
  Priority :: uint8
  DropEligible :: bool
  VLANIdentifier :: uint16
  dot1q_Type :: uint16
  dot1q_Payload :: "byte list"

definition decodeEthernet :: "byte list \<Rightarrow> Ethernet option" where
  "decodeEthernet d =
     (if length d < 14 then None
      else let t = from_be16 (d ! 12) (d ! 13); p = drop 14 d in
        Some \<lparr>DstMAC = take 6 d, SrcMAC = take 6 (drop 6 d),
              EthernetType = (if t < 0x0600 then 0 else t),
              eth_Length = (if t < 0x0600 then t else 0),
              eth_Payload = (if t < 0x0600 then take (unat t) p else p)\<rparr>)"

definition decodeDot1Q :: "byte list \<Rightarrow> Dot1Q option" where
  "decodeDot1Q d =
     (if length d < 4 then None
      else Some \<lparr>Priority = drop_bit 5 (d ! 0 AND 0xE0), DropEligible = (d ! 0 AND 0x10 \<noteq> 0),
                 VLANIdentifier = from_be16 (d ! 0) (d ! 1) AND 0x0FFF,
                 dot1q_Type = from_be16 (d ! 2) (d ! 3), dot1q_Payload = drop 4 d\<rparr>)"

text \<open>\<open>SerializeTo\<close>: the buffer after the call and whether it succeeded.\<close>

definition pad60 :: "byte list \<Rightarrow> byte list" where
  "pad60 b = b @ replicate (60 - length b) 0"

definition serializeEthernet :: "Ethernet \<Rightarrow> byte list \<Rightarrow> byte list \<times> bool" where
  "serializeEthernet eth b =
     (if length (DstMAC eth) \<noteq> 6 \<or> length (SrcMAC eth) \<noteq> 6 then (b, False)
      else if eth_Length eth \<noteq> 0 \<or> EthernetType eth = 0 then
        (if EthernetType eth \<noteq> 0 \<or> eth_Length eth > 0x0600
         then (DstMAC eth @ SrcMAC eth @ [0, 0] @ b, False)
         else (pad60 (DstMAC eth @ SrcMAC eth @ be16 (eth_Length eth) @ b), True))
      else (pad60 (DstMAC eth @ SrcMAC eth @ be16 (EthernetType eth) @ b), True))"

definition serializeDot1Q :: "Dot1Q \<Rightarrow> byte list \<Rightarrow> byte list \<times> bool" where
  "serializeDot1Q d b =
     (if VLANIdentifier d > 0xFFF then (replicate 4 0 @ b, False)
      else let first = push_bit 13 (ucast (Priority d)) OR VLANIdentifier d in
        (be16 (if DropEligible d then first OR 0x1000 else first) @ be16 (dot1q_Type d) @ b, True))"

section \<open>Pushing and popping tags\<close>

definition getEthernetLayer :: "byte list \<Rightarrow> Ethernet" where
  "getEthernetLayer pkt =
     (case decodeEthernet pkt of Some e \<Rightarrow> e
      | None \<Rightarrow> \<lparr>DstMAC = [], SrcMAC = [], EthernetType = 0, eth_Length = 0, eth_Payload = []\<rparr>)"

definition getDot1QLayer :: "byte list \<Rightarrow> Dot1Q option" where
  "getDot1QLayer pkt =
     (case decodeEthernet pkt of None \<Rightarrow> None
      | Some e \<Rightarrow> if EthernetType e = 0x8100 \<or> EthernetType e = 0x88a8 then decodeDot1Q (eth_Payload e) else None)"

definition PushSingleTag :: "int \<Rightarrow> byte list \<Rightarrow> uint8 \<Rightarrow> byte list" where
  "PushSingleTag tag pkt pbit =
     (let eth = getEthernetLayer pkt;
          (b, ok) = serializeDot1Q \<lparr>Priority = pbit, DropEligible = False, VLANIdentifier = word_of_int tag,
                                    dot1q_Type = EthernetType eth, dot1q_Payload = []\<rparr> (eth_Payload eth)
      in if ok then fst (serializeEthernet (eth\<lparr>EthernetType := 0x8100, eth_Length := 0\<rparr>) b) else b)"

definition PushDoubleTag :: "int \<Rightarrow> int \<Rightarrow> byte list \<Rightarrow> uint8 \<Rightarrow> byte list" where
  "PushDoubleTag stag ctag pkt pbit = PushSingleTag stag (PushSingleTag ctag pkt pbit) pbit"

definition PopSingleTag :: "byte list \<Rightarrow> byte list option" where
  "PopSingleTag pkt =
     (case getDot1QLayer pkt of None \<Rightarrow> None
      | Some layer \<Rightarrow>
          Some (fst (serializeEthernet ((getEthernetLayer pkt)\<lparr>EthernetType := dot1q_Type layer, eth_Length := 0\<rparr>)
                       (dot1q_Payload layer))))"

definition PopDoubleTag :: "byte list \<Rightarrow> byte list option" where
  "PopDoubleTag pkt = Option.bind (PopSingleTag pkt) PopSingleTag"

definition GetVlanTag :: "byte list \<Rightarrow> uint16 option" where
  "GetVlanTag pkt = map_option VLANIdentifier (getDot1QLayer pkt)"

definition GetPbit :: "byte list \<Rightarrow> uint8 option" where
  "GetPbit pkt = map_option Priority (getDot1QLayer pkt)"

text \<open>The outer and the inner tag; the inner one is 0 on a frame with a single tag.\<close>

definition GetTagsFromPacket :: "byte list \<Rightarrow> (uint16 \<times> uint16) option" where
  "GetTagsFromPacket pkt =
     Option.bind (GetVlanTag pkt) (\<lambda>oTag.
     Option.bind (PopSingleTag pkt) (\<lambda>popped.
     case getDot1QLayer popped of None \<Rightarrow> Some (oTag, 0) | Some d \<Rightarrow> Some (oTag, VLANIdentifier d)))"

section \<open>Round trips\<close>

text \<open>A full-size Ethernet II frame.\<close>

definition ethernet_frame :: "byte list \<Rightarrow> bool" where
  "ethernet_frame f \<longleftrightarrow> length f \<ge> 60 \<and> from_be16 (f ! 12) (f ! 13) \<ge> 0x0600"

lemma take_bit_12:
  fixes v :: uint16
  assumes "v < 4096"
  shows "take_bit 12 v = v"
  by (rule word_unat_eq_iff[THEN iffD2])
     (use assms in \<open>simp add: word_less_nat_alt unsigned_take_bit_eq take_bit_nat_eq_self\<close>)

lemma mask_12: "(0x0FFF :: uint16) = mask 12"
  by (simp add: mask_eq_exp_minus_1)

lemma vlan_of_tci:
  fixes v :: uint16
  assumes "v < 4096"
  shows "(push_bit 13 (ucast (p :: uint8)) OR v) AND 0x0FFF = v"
proof -
  have "bit v n \<Longrightarrow> n < 12" for n
    using take_bit_12[OF assms] by (metis bit_take_bit_iff)
  then show ?thesis
    unfolding mask_12 by (auto intro!: bit_word_eqI simp: bit_simps simp del: mask_12 mask_numeral)
qed

lemma pbit_of_tci:
  fixes v :: uint16 and p :: uint8
  assumes "v < 4096" "p < 8"
  shows "drop_bit 5 ((ucast (drop_bit 8 (push_bit 13 (ucast p) OR v)) :: byte) AND 0xE0) = p"
proof -
  have v: "\<not> bit v n" if "n \<ge> 12" for n
    using take_bit_12[OF assms(1)] that by (metis bit_take_bit_iff not_less)
  have "take_bit 3 p = p"
    by (rule word_unat_eq_iff[THEN iffD2])
       (use assms in \<open>simp add: word_less_nat_alt unsigned_take_bit_eq take_bit_nat_eq_self\<close>)
  then have p: "\<not> bit p n" if "n \<ge> 3" for n
    using that by (metis bit_take_bit_iff not_less)
  have "bit (drop_bit 5 ((ucast (drop_bit 8 (push_bit 13 (ucast p) OR v)) :: byte) AND 0xE0)) n = bit p n"
    if "n < 8" for n
  proof -
    consider "n = 0" | "n = 1" | "n = 2" | "n \<ge> 3" by linarith
    then show ?thesis
      by cases (use v[of "n + 13"] p[of n] in \<open>simp_all add: bit_simps\<close>)
  qed
  then show ?thesis
    by (auto intro!: bit_word_eqI)
qed

lemma dei_of_tci:
  fixes v :: uint16
  assumes "v < 4096"
  shows "(ucast (drop_bit 8 (push_bit 13 (ucast (p :: uint8)) OR v)) :: byte) AND 0x10 = 0"
proof -
  have v: "\<not> bit v 12"
    using take_bit_12[OF assms] by (metis bit_take_bit_iff less_irrefl)
  have "(0x10 :: byte) = push_bit 4 1"
    by simp
  then have sixteen: "bit (0x10 :: byte) n \<longleftrightarrow> n = 4" for n
    by (auto simp only: bit_push_bit_iff bit_1_iff possible_bit_word) auto
  show ?thesis
  proof (rule bit_word_eqI)
    fix n
    show "bit ((ucast (drop_bit 8 (push_bit 13 (ucast p) OR v)) :: byte) AND 0x10) n = bit 0 n"
      by (cases "n = 4") (use v sixteen[of n] in \<open>simp_all add: bit_simps\<close>)
  qed
qed

lemma frame_split:
  assumes "length f \<ge> 14"
  shows "f = take 6 f @ take 6 (drop 6 f) @ be16 (from_be16 (f ! 12) (f ! 13)) @ drop 14 f"
proof -
  have "take 6 f @ take 6 (drop 6 f) = take 12 f"
    by (metis append_take_drop_id length_take min.absorb2 numeral_Bit0 take_add)
  moreover have "drop 12 f = [f ! 12, f ! 13] @ drop 14 f"
    using Cons_nth_drop_Suc[of 12 f] Cons_nth_drop_Suc[of 13 f] assms by simp
  ultimately show ?thesis
    by (metis append_assoc append_take_drop_id be16_from_be16)
qed

definition tci :: "int \<Rightarrow> uint8 \<Rightarrow> uint16" where
  "tci tag pbit = push_bit 13 (ucast pbit) OR word_of_int tag"

lemma word_of_int_tag:
  assumes "0 \<le> tag" "tag < 4096"
  shows "(word_of_int tag :: uint16) < 4096" "\<not> (word_of_int tag :: uint16) > 0xFFF"
  using assms by (simp_all add: word_less_def word_le_def uint_word_of_int not_less)

lemma PushSingleTag_bytes:
  assumes "ethernet_frame f" "0 \<le> tag" "tag < 4096"
  shows "PushSingleTag tag f pbit =
           take 6 f @ take 6 (drop 6 f) @ be16 0x8100 @ be16 (tci tag pbit)
           @ be16 (from_be16 (f ! 12) (f ! 13)) @ drop 14 f"
  using assms word_of_int_tag[OF assms(2,3)]
  by (auto simp: PushSingleTag_def getEthernetLayer_def decodeEthernet_def ethernet_frame_def
      serializeDot1Q_def serializeEthernet_def pad60_def tci_def Let_def not_less)

lemma frame_type:
  assumes "length a = 6" "length b = 6"
  shows "from_be16 ((a @ b @ be16 t @ p) ! 12) ((a @ b @ be16 t @ p) ! 13) = t"
  using assms by (simp add: nth_append be16_def)

lemma decode_tagged:
  assumes "length a = 6" "length b = 6"
  shows "decodeEthernet (a @ b @ be16 0x8100 @ p) =
           Some \<lparr>DstMAC = a, SrcMAC = b, EthernetType = 0x8100, eth_Length = 0, eth_Payload = p\<rparr>"
  unfolding decodeEthernet_def frame_type[OF assms] using assms by simp

lemma decode_tag:
  assumes "0 \<le> tag" "tag < 4096" "pbit < 8"
  shows "decodeDot1Q (be16 (tci tag pbit) @ be16 t @ p) =
           Some \<lparr>Priority = pbit, DropEligible = False, VLANIdentifier = word_of_int tag,
                 dot1q_Type = t, dot1q_Payload = p\<rparr>"
  using vlan_of_tci[OF word_of_int_tag(1)[OF assms(1,2)], of pbit, folded tci_def]
    pbit_of_tci[OF word_of_int_tag(1)[OF assms(1,2)] assms(3), folded tci_def]
    dei_of_tci[OF word_of_int_tag(1)[OF assms(1,2)], of pbit, folded tci_def]
  by (simp add: decodeDot1Q_def be16_def)

lemma getDot1QLayer_push:
  assumes "ethernet_frame f" "0 \<le> tag" "tag < 4096" "pbit < 8"
  shows "getDot1QLayer (PushSingleTag tag f pbit) =
           Some \<lparr>Priority = pbit, DropEligible = False, VLANIdentifier = word_of_int tag,
                 dot1q_Type = from_be16 (f ! 12) (f ! 13), dot1q_Payload = drop 14 f\<rparr>"
proof -
  have "length (take 6 f) = 6" "length (take 6 (drop 6 f)) = 6"
    using assms(1) by (auto simp: ethernet_frame_def)
  from decode_tagged[OF this] show ?thesis
    using assms by (simp add: PushSingleTag_bytes getDot1QLayer_def decode_tag)
qed

lemma PopSingleTag_push:
  assumes "ethernet_frame f" "0 \<le> tag" "tag < 4096" "pbit < 8"
  shows "PopSingleTag (PushSingleTag tag f pbit) = Some f"
proof -
  have len: "length f \<ge> 60" and ty: "from_be16 (f ! 12) (f ! 13) \<noteq> 0"
    using assms(1) by (auto simp: ethernet_frame_def)
  then have "PopSingleTag (PushSingleTag tag f pbit) =
      Some (take 6 f @ take 6 (drop 6 f) @ be16 (from_be16 (f ! 12) (f ! 13)) @ drop 14 f)"
    unfolding PopSingleTag_def getDot1QLayer_push[OF assms]
    using assms len decode_tagged[of "take 6 f" "take 6 (drop 6 f)"]
    by (simp add: getEthernetLayer_def PushSingleTag_bytes serializeEthernet_def pad60_def)
  then show ?thesis
    using frame_split[of f] len by simp
qed

lemma ethernet_frame_push:
  assumes "ethernet_frame f" "0 \<le> tag" "tag < 4096"
  shows "ethernet_frame (PushSingleTag tag f pbit)"
proof -
  have len: "length (take 6 f) = 6" "length (take 6 (drop 6 f)) = 6" "length (drop 14 f) \<ge> 46"
    using assms(1) by (auto simp: ethernet_frame_def)
  show ?thesis
    unfolding ethernet_frame_def PushSingleTag_bytes[OF assms] frame_type[OF len(1,2)]
    using len by simp
qed

text \<open>
  C11: a frame that gets an inner and an outer tag reports exactly these two tags and the priority, and
  popping both gives the frame back byte for byte, for every full-size Ethernet II frame and
  every 12-bit VLAN id and 3-bit priority.
\<close>

theorem double_tag_roundtrip:
  assumes "ethernet_frame f" "0 \<le> stag" "stag < 4096" "0 \<le> ctag" "ctag < 4096" "pbit < 8"
  shows "GetTagsFromPacket (PushDoubleTag stag ctag f pbit) = Some (word_of_int stag, word_of_int ctag)
       \<and> GetPbit (PushDoubleTag stag ctag f pbit) = Some pbit
       \<and> PopDoubleTag (PushDoubleTag stag ctag f pbit) = Some f"
proof -
  have inner: "ethernet_frame (PushSingleTag ctag f pbit)"
    using assms by (simp add: ethernet_frame_push)
  note outer_tag = getDot1QLayer_push[OF inner assms(2,3,6)]
    and inner_tag = getDot1QLayer_push[OF assms(1,4,5,6)]
    and outer_pop = PopSingleTag_push[OF inner assms(2,3,6)]
    and inner_pop = PopSingleTag_push[OF assms(1,4,5,6)]
  show ?thesis
    unfolding GetTagsFromPacket_def GetPbit_def GetVlanTag_def PopDoubleTag_def PushDoubleTag_def
      outer_tag outer_pop
    by (simp add: inner_tag inner_pop)
qed

definition sample_frame :: "byte list" where
  "sample_frame = replicate 12 1 @ 0x08 # 0 # replicate 46 5"

lemma sample_frame_type: "sample_frame ! 12 = 8" "sample_frame ! 13 = 0"
  by (simp_all add: sample_frame_def nth_append)

lemma sample_frame_ok: "ethernet_frame sample_frame"
  unfolding ethernet_frame_def sample_frame_type by (simp add: from_be16_def sample_frame_def)

theorem double_tag_roundtrip_witness:
  "GetTagsFromPacket (PushDoubleTag 900 7 sample_frame 3) = Some (900, 7)
   \<and> GetPbit (PushDoubleTag 900 7 sample_frame 3) = Some 3
   \<and> PopDoubleTag (PushDoubleTag 900 7 sample_frame 3) = Some sample_frame"
  using double_tag_roundtrip[OF sample_frame_ok, of 900 7 3] by simp

section \<open>Packet classification\<close>

text \<open>The layers of \<open>gopacket\<close> that the responders read.\<close>

record EAP =
  eap_Code :: uint8
  eap_Id :: uint8
  eap_Length :: uint16
  eap_Type :: uint8
  eap_TypeData :: "byte list"
  eap_Contents :: "byte list"

record DHCPOption =
  opt_Type :: uint8
  opt_Data :: "byte list"

record DHCPv4 =
  Operation :: uint8
  Xid :: uint32
  ClientHWAddr :: "byte list"
  YourClientIP :: "byte list"
  Options :: "DHCPOption list"

record Packet =
  Data :: "byte list"
  LayerEAP :: "EAP option"
  LayerEAPOL :: "uint8 option"
  LayerDHCPv4 :: "DHCPv4 option"
  LayerIGMP :: "uint8 option"
  LayerICMPv6 :: bool
  LayerLLDP :: bool

datatype PacketType = UNKNOWN | EAPOL | DHCP | IGMP | ICMP

definition IsDhcpPacket :: "Packet \<Rightarrow> bool" where
  "IsDhcpPacket pkt \<longleftrightarrow> LayerDHCPv4 pkt \<noteq> None"

definition IsIgmpPacket :: "Packet \<Rightarrow> bool" where
  "IsIgmpPacket pkt \<longleftrightarrow> LayerIGMP pkt \<noteq> None"

definition IsLldpPacket :: "Packet \<Rightarrow> bool" where
  "IsLldpPacket pkt \<longleftrightarrow> LayerLLDP pkt"

definition IsIcmpPacket :: "Packet \<Rightarrow> bool" where
  "IsIcmpPacket pkt \<longleftrightarrow> LayerICMPv6 pkt"

definition IsIncomingPacket :: "Packet \<Rightarrow> bool" where
  "IsIncomingPacket pkt \<longleftrightarrow> (case LayerDHCPv4 pkt of None \<Rightarrow> False | Some d \<Rightarrow> Operation d = 2)"

definition GetDstMacAddressFromPacket :: "Packet \<Rightarrow> byte list option" where
  "GetDstMacAddressFromPacket pkt = map_option DstMAC (decodeEthernet (Data pkt))"

definition GetSrcMacAddressFromPacket :: "Packet \<Rightarrow> byte list option" where
  "GetSrcMacAddressFromPacket pkt = map_option SrcMAC (decodeEthernet (Data pkt))"

text \<open>\<open>None\<close> is the error \<open>unknown-packet-type\<close>.\<close>

definition GetPktType :: "Packet \<Rightarrow> PacketType option" where
  "GetPktType pkt =
     (if LayerEAP pkt \<noteq> None \<or> LayerEAPOL pkt \<noteq> None then Some EAPOL
      else if IsDhcpPacket pkt then Some DHCP
      else if IsIgmpPacket pkt then Some IGMP
      else if IsIcmpPacket pkt then Some ICMP
      else None)"

end
