(* ===== verification/Types.thy ===== *)
theory Types
  imports GoPrelude
begin

text \<open>
  The data that travels between the components: the OpenOLT messages of the gRPC interface that the
  devices read (\<open>vendor/github.com/opencord/voltha-protos/v5/go/openolt\<close>) and the enumerations of
  \<open>internal/bbsim/types\<close>. Only fields the modelled code reads or writes are kept.
\<close>

text \<open>
  A \<open>*openolt.SerialNumber\<close>: the contents together with the identity of the pointer, because
  \<open>removeGemPortBySn\<close> and \<open>removeAllocIdsForOnuSn\<close> compare the pointers and \<open>GetOnuBySn\<close> the bytes.
\<close>

record SerialNumber =
  sn_ref :: nat
  VendorId :: "byte list"
  VendorSpecific :: "byte list"

definition same_ref :: "SerialNumber \<Rightarrow> SerialNumber \<Rightarrow> bool" where
  "same_ref a b \<longleftrightarrow> sn_ref a = sn_ref b"

record Classifier =
  OVid :: uint32
  IVid :: uint32
  OPbits :: uint32
  EthType :: uint32
  IpProto :: uint32
  SrcPort :: uint32
  DstPort :: uint32

text \<open>\<open>helpers.go\<close>: \<open>flowTypeUpstream\<close>, \<open>flowTypeDownstream\<close>, and any other string.\<close>

datatype flow_type = flowTypeUpstream | flowTypeDownstream | flowTypeOther string

record Flow =
  AccessIntfId :: int32
  fl_OnuId :: int32
  fl_UniId :: int32
  FlowId :: uint64
  FlowType :: flow_type
  fl_AllocId :: int32
  GemportId :: int32
  fl_Classifier :: Classifier
  Cookie :: uint64
  fl_PortNo :: uint32
  ReplicateFlow :: bool
  PbitToGemport :: "(uint32, uint32) gomap"

datatype OperState = UP | DOWN

text \<open>\<open>0xffffffff\<close> as an \<open>int32\<close>: the interface id \<open>-1\<close> of a trap-from-NNI flow.\<close>

abbreviation minus_one :: int32 where
  "minus_one \<equiv> - 1"

section \<open>Indications\<close>

text \<open>The alarm indications that the OLT and the ONUs raise.\<close>

record OnuAlarmIndication =
  oa_IntfId :: uint32
  oa_OnuId :: uint32
  LosStatus :: string
  LobStatus :: string
  LopcMissStatus :: string
  LopcMicErrorStatus :: string
  LofiStatus :: string
  LoamiStatus :: string

datatype AlarmIndication =
    LosInd uint32 string
  | DyingGaspInd uint32 uint32 string
  | OnuStartupFailInd uint32 uint32 string
  | OnuSignalDegradeInd uint32 uint32 string uint32
  | OnuSignalsFailInd uint32 uint32 string uint32
  | OnuDriftOfWindowInd uint32 uint32 string uint32 uint32
  | OnuLossOmciInd uint32 uint32 string
  | OnuTiwiInd uint32 uint32 string uint32
  | OnuActivationFailInd uint32 uint32 uint32
  | OnuProcessingErrorInd uint32 uint32
  | OnuLossOfSyncFailInd uint32 uint32 string
  | OnuItuPonStatsInd uint32 uint32 uint64 string
  | OnuAlarmInd OnuAlarmIndication

record PacketIndication =
  pi_IntfType :: string
  pi_IntfId :: uint32
  pi_GemportId :: uint32
  pi_Pkt :: "byte list"
  pi_PortNo :: uint32
  pi_OnuId :: uint32
  pi_UniId :: uint32

record PortStatistics =
  ps_IntfId :: uint32
  RxBytes :: uint64
  RxPackets :: uint64
  RxUcastPackets :: uint64
  RxMcastPackets :: uint64
  RxBcastPackets :: uint64
  TxBytes :: uint64
  TxPackets :: uint64
  TxUcastPackets :: uint64
  TxMcastPackets :: uint64
  TxBcastPackets :: uint64

record OnuIndicationData =
  oi_IntfId :: uint32
  oi_OnuId :: uint32
  oi_OperState :: string
  oi_AdminState :: string
  oi_SerialNumber :: SerialNumber

datatype Indication =
    OltInd string
  | IntfInd uint32 string
  | IntfOperInd string uint32 string uint32
  | OnuDiscInd uint32 SerialNumber
  | OnuInd OnuIndicationData
  | OmciInd uint32 uint32 "byte list"
  | PktInd PacketIndication
  | PortStats PortStatistics
  | AlarmInd AlarmIndication

text \<open>
  The gRPC stream towards VOLTHA. Whether \<open>Send\<close> fails is up to the network: a stream is a function
  of everything sent before and of the indication to send, \<open>True\<close> for an error. The state keeps the
  list of what has been sent.
\<close>

type_synonym stream = "Indication list \<Rightarrow> Indication \<Rightarrow> bool"

definition Send :: "stream \<Rightarrow> Indication \<Rightarrow> Indication list \<Rightarrow> bool \<times> Indication list" where
  "Send st ind sent = (if st sent ind then (False, sent) else (True, sent @ [ind]))"

lemma Send_prefix: "\<exists>ys. snd (Send st ind sent) = sent @ ys"
  by (simp add: Send_def)

end
