(* ===== verification/Eapol.thy ===== *)
theory Eapol
  imports Fsm Packets Types
begin

text \<open>
  The 802.1X supplicant of a service (\<open>internal/bbsim/responders/eapol/eapol.go\<close>): the packets it
  builds, \<open>SendEapStart\<close> and \<open>HandleNextPacket\<close>. The digest \<open>md5\<close> is an argument. BBSim calls
  \<open>HandleNextPacket\<close> with no client, BBR with one; both cases are modelled.
\<close>

section \<open>State machine\<close>

datatype eapol_state =
    StateCreated
  | StateAuthStarted
  | StateStartSent
  | StateResponseIdentitySent
  | StateResponseChallengeSent
  | StateResponseSuccessReceived
  | StateAuthFailed

text \<open>The last constructor is the event \<open>send_dhcp_flow\<close>, which only the ONU machine of BBR knows.\<close>

datatype eapol_event =
    EventStartAuth
  | EventStartSent
  | EventResponseIdentitySent
  | EventResponseChallengeSent
  | EventResponseSuccessReceived
  | EventAuthFailed
  | EventSendDhcpFlow

definition eapol_events :: "(eapol_event, eapol_state) EventDesc list" where
  "eapol_events =
     [\<lparr>Name = EventStartAuth, Src = [StateCreated, StateResponseSuccessReceived, StateAuthFailed], Dst = StateAuthStarted\<rparr>,
      \<lparr>Name = EventStartSent, Src = [StateAuthStarted], Dst = StateStartSent\<rparr>,
      \<lparr>Name = EventResponseIdentitySent, Src = [StateStartSent], Dst = StateResponseIdentitySent\<rparr>,
      \<lparr>Name = EventResponseChallengeSent, Src = [StateResponseIdentitySent], Dst = StateResponseChallengeSent\<rparr>,
      \<lparr>Name = EventResponseSuccessReceived, Src = [StateResponseChallengeSent], Dst = StateResponseSuccessReceived\<rparr>,
      \<lparr>Name = EventAuthFailed,
       Src = [StateAuthStarted, StateStartSent, StateResponseIdentitySent, StateResponseChallengeSent],
       Dst = StateAuthFailed\<rparr>]"

definition new_eapol :: "(eapol_event, eapol_state) FSM" where
  "new_eapol = NewFSM StateCreated eapol_events"

section \<open>Packets\<close>

definition eapolVersion :: uint8 where
  "eapolVersion = 1"

definition getMD5Data :: "(byte list \<Rightarrow> byte list) \<Rightarrow> EAP \<Rightarrow> byte list go" where
  "getMD5Data md5 eap =
     (if length (eap_Contents eap) < 6 then Panic IndexOutOfRange
      else Ret (take 16 (md5 ([eap_Id eap, 0x70, 0x61, 0x73, 0x73, 0x77, 0x6f, 0x72, 0x64] @ drop 6 (eap_Contents eap)))))"

definition createEAPChallengeRequest :: "uint8 \<Rightarrow> byte list \<Rightarrow> EAP" where
  "createEAPChallengeRequest eapId payload =
     \<lparr>eap_Code = 1, eap_Id = eapId, eap_Length = 22, eap_Type = 4, eap_TypeData = payload, eap_Contents = []\<rparr>"

definition createEAPChallengeResponse :: "uint8 \<Rightarrow> byte list \<Rightarrow> EAP" where
  "createEAPChallengeResponse eapId payload =
     \<lparr>eap_Code = 2, eap_Id = eapId, eap_Length = 22, eap_Type = 4, eap_TypeData = payload, eap_Contents = []\<rparr>"

definition createEAPIdentityRequest :: "uint8 \<Rightarrow> EAP" where
  "createEAPIdentityRequest eapId =
     \<lparr>eap_Code = 1, eap_Id = eapId, eap_Length = 9, eap_Type = 1, eap_TypeData = [0x75, 0x73, 0x65, 0x72], eap_Contents = []\<rparr>"

definition createEAPIdentityResponse :: "uint8 \<Rightarrow> EAP" where
  "createEAPIdentityResponse eapId =
     \<lparr>eap_Code = 2, eap_Id = eapId, eap_Length = 9, eap_Type = 1, eap_TypeData = [0x75, 0x73, 0x65, 0x72], eap_Contents = []\<rparr>"

definition createEAPSuccess :: "uint8 \<Rightarrow> EAP" where
  "createEAPSuccess eapId =
     \<lparr>eap_Code = 3, eap_Id = eapId, eap_Length = 9, eap_Type = 0, eap_TypeData = [0x75, 0x73, 0x65, 0x72], eap_Contents = []\<rparr>"

text \<open>\<open>layers.EAP.SerializeTo\<close> and \<open>layers.EAPOL.SerializeTo\<close>, with the lengths left as they are.\<close>

definition serializeEAP :: "EAP \<Rightarrow> byte list" where
  "serializeEAP e = [eap_Code e, eap_Id e] @ be16 (eap_Length e)
     @ (if eap_TypeData e = [] then [] else eap_Type e # eap_TypeData e)"

definition serializeEAPOL :: "uint8 \<Rightarrow> uint16 \<Rightarrow> byte list \<Rightarrow> byte list" where
  "serializeEAPOL t len b = [eapolVersion, t] @ be16 len @ b"

definition createEAPOLPkt :: "EAP \<Rightarrow> uint32 \<Rightarrow> uint32 \<Rightarrow> uint32 \<Rightarrow> uint32 \<Rightarrow> int \<Rightarrow> byte list" where
  "createEAPOLPkt eap serviceId uniId onuId intfId oltId =
     (let mac = [0x2e, word_of_int oltId, ucast intfId, ucast onuId, ucast uniId, ucast serviceId] in
      fst (serializeEthernet \<lparr>DstMAC = mac, SrcMAC = mac, EthernetType = 0x888e, eth_Length = 0, eth_Payload = []\<rparr>
             (serializeEAPOL 0 (eap_Length eap) (serializeEAP eap))))"

section \<open>Handlers\<close>

text \<open>A packet that BBR sends to the OLT through its client; a client is as a stream.\<close>

record OnuPacket =
  op_IntfId :: uint32
  op_OnuId :: uint32
  op_PortNo :: uint32
  op_GemportId :: uint32
  op_Pkt :: "byte list"

type_synonym onu_client = "OnuPacket list \<Rightarrow> OnuPacket \<Rightarrow> bool"

record eapol_io =
  machine :: "(eapol_event, eapol_state) FSM"
  eap_sent :: "Indication list"
  eap_out :: "OnuPacket list"

definition sendEapolPktIn ::
  "stream \<Rightarrow> uint32 \<Rightarrow> uint32 \<Rightarrow> byte list \<Rightarrow> uint32 \<Rightarrow> uint32 \<Rightarrow> eapol_io \<Rightarrow> bool \<times> eapol_io" where
  "sendEapolPktIn st intfId onuId bytes portNo gemid s =
     (let (ok, sent) = Send st (PktInd \<lparr>pi_IntfType = ''pon'', pi_IntfId = intfId, pi_GemportId = gemid,
           pi_Pkt = bytes, pi_PortNo = portNo, pi_OnuId = onuId, pi_UniId = 0\<rparr>) (eap_sent s)
      in (ok, s\<lparr>eap_sent := sent\<rparr>))"

definition sendEapolPktOut ::
  "onu_client option \<Rightarrow> uint32 \<Rightarrow> uint32 \<Rightarrow> byte list \<Rightarrow> eapol_io \<Rightarrow> (bool \<times> eapol_io) go" where
  "sendEapolPktOut client intfId onuId pkt s =
     (case client of None \<Rightarrow> Panic NilDereference
      | Some c \<Rightarrow>
          (let p = \<lparr>op_IntfId = intfId, op_OnuId = onuId, op_PortNo = onuId, op_GemportId = 1, op_Pkt = pkt\<rparr> in
           Ret (if c (eap_out s) p then (False, s) else (True, s\<lparr>eap_out := eap_out s @ [p]\<rparr>))))"

definition eap_event :: "eapol_event \<Rightarrow> eapol_io \<Rightarrow> bool \<times> eapol_io" where
  "eap_event e s = (let (err, m) = fsm_fire e (machine s) in (err = None, s\<lparr>machine := m\<rparr>))"

definition updateAuthFailed :: "eapol_io \<Rightarrow> bool \<times> eapol_io" where
  "updateAuthFailed s = eap_event EventAuthFailed s"

text \<open>The boolean result is \<open>True\<close> for a nil error.\<close>

definition SendEapStart ::
  "stream \<Rightarrow> uint32 \<Rightarrow> uint32 \<Rightarrow> uint32 \<Rightarrow> byte list \<Rightarrow> uint32 \<Rightarrow> uint32 \<Rightarrow> eapol_io \<Rightarrow> bool \<times> eapol_io" where
  "SendEapStart st onuId ponPortId portNo macAddress gemPort uniId s =
     (let msg = fst (serializeEthernet \<lparr>DstMAC = [0x01, 0x80, 0xC2, 0x00, 0x00, 0x03], SrcMAC = macAddress,
                   EthernetType = 0x888e, eth_Length = 0, eth_Payload = []\<rparr> (serializeEAPOL 1 0 []));
          (ok, sent) = Send st (PktInd \<lparr>pi_IntfType = ''pon'', pi_IntfId = ponPortId, pi_GemportId = gemPort,
            pi_Pkt = msg, pi_PortNo = portNo, pi_OnuId = onuId, pi_UniId = uniId\<rparr>) (eap_sent s);
          s1 = s\<lparr>eap_sent := sent\<rparr>
      in if \<not> ok then (False, snd (updateAuthFailed s1)) else eap_event EventStartSent s1)"

text \<open>
  The test that opens each branch of the supplicant: a packet that does not fit the state is dropped
  and, unless the dialogue is already over, authentication fails.
\<close>

definition drop_packet :: "eapol_io \<Rightarrow> eapol_io" where
  "drop_packet s =
     (if current (machine s) \<noteq> StateAuthFailed \<and> current (machine s) \<noteq> StateResponseSuccessReceived
      then snd (updateAuthFailed s) else s)"

text \<open>
  The branches of \<open>HandleNextPacket\<close>: the supplicant's answers to an identity request, to a challenge
  and to a success, and the packets that BBR, as the authenticator, sends through its client.
\<close>

definition answer_packet ::
  "stream \<Rightarrow> uint32 \<Rightarrow> uint32 \<Rightarrow> uint32 \<Rightarrow> uint32 \<Rightarrow> byte list \<Rightarrow> eapol_event \<Rightarrow> eapol_io \<Rightarrow> eapol_io" where
  "answer_packet st onuId ponPortId gemPortId portNo pkt ev s =
     (let (ok, s1) = sendEapolPktIn st ponPortId onuId pkt portNo gemPortId s
      in snd (if ok then eap_event ev s1 else updateAuthFailed s1))"

definition authenticator_packet ::
  "onu_client option \<Rightarrow> uint32 \<Rightarrow> uint32 \<Rightarrow> byte list \<Rightarrow> bool \<Rightarrow> eapol_io \<Rightarrow> eapol_io go" where
  "authenticator_packet client onuId ponPortId pkt done s =
     go_bind (sendEapolPktOut client ponPortId onuId pkt s) (\<lambda>(ok, s1).
     Ret (if ok \<and> done then snd (eap_event EventSendDhcpFlow s1) else s1))"

definition eapol_HandleNextPacket ::
  "(byte list \<Rightarrow> byte list) \<Rightarrow> uint32 \<Rightarrow> uint32 \<Rightarrow> uint32 \<Rightarrow> uint32 \<Rightarrow> uint32 \<Rightarrow> uint32 \<Rightarrow> int
   \<Rightarrow> Packet \<Rightarrow> stream \<Rightarrow> onu_client option \<Rightarrow> eapol_io \<Rightarrow> eapol_io go" where
  "eapol_HandleNextPacket md5 onuId ponPortId gemPortId portNo uniId serviceId oltId pkt st client s =
     (let mk = (\<lambda>eap. createEAPOLPkt eap serviceId uniId onuId ponPortId oltId) in
      if LayerEAP pkt = None \<and> LayerEAPOL pkt = None then Panic FatalLog
      else if LayerEAPOL pkt = Some 1 then
        authenticator_packet client onuId ponPortId (mk (createEAPIdentityRequest 1)) False s
      else case LayerEAP pkt of None \<Rightarrow> Panic NilDereference
      | Some eap \<Rightarrow>
        if eap_Code eap = 1 \<and> eap_Type eap = 1 then
          (if current (machine s) \<noteq> StateStartSent then Ret (drop_packet s)
           else Ret (answer_packet st onuId ponPortId gemPortId portNo
                  (mk (createEAPIdentityResponse (eap_Id eap))) EventResponseIdentitySent s))
        else if eap_Code eap = 2 \<and> eap_Type eap = 1 then
          go_bind (getMD5Data md5 eap) (\<lambda>senddata.
          authenticator_packet client onuId ponPortId (mk (createEAPChallengeRequest (eap_Id eap) (0x10 # senddata))) False s)
        else if eap_Code eap = 1 \<and> eap_Type eap = 4 then
          (if current (machine s) \<noteq> StateResponseIdentitySent then Ret (drop_packet s)
           else go_bind (getMD5Data md5 eap) (\<lambda>senddata.
                Ret (answer_packet st onuId ponPortId gemPortId portNo
                  (mk (createEAPChallengeResponse (eap_Id eap) (0x10 # senddata))) EventResponseChallengeSent s)))
        else if eap_Code eap = 2 \<and> eap_Type eap = 4 then
          authenticator_packet client onuId ponPortId (mk (createEAPSuccess (eap_Id eap))) True s
        else if eap_Code eap = 3 \<and> eap_Type eap = 0 then
          (if current (machine s) \<noteq> StateResponseChallengeSent then Ret (drop_packet s)
           else Ret (snd (eap_event EventResponseSuccessReceived s)))
        else Ret s)"

section \<open>Correctness of the supplicant\<close>

lemma eapol_next:
  "map_of (transitions new_eapol) (e, s) =
     (case e of
        EventStartAuth \<Rightarrow> if s \<in> {StateCreated, StateResponseSuccessReceived, StateAuthFailed} then Some StateAuthStarted else None
      | EventStartSent \<Rightarrow> if s = StateAuthStarted then Some StateStartSent else None
      | EventResponseIdentitySent \<Rightarrow> if s = StateStartSent then Some StateResponseIdentitySent else None
      | EventResponseChallengeSent \<Rightarrow> if s = StateResponseIdentitySent then Some StateResponseChallengeSent else None
      | EventResponseSuccessReceived \<Rightarrow> if s = StateResponseChallengeSent then Some StateResponseSuccessReceived else None
      | EventAuthFailed \<Rightarrow> if s \<in> {StateAuthStarted, StateStartSent, StateResponseIdentitySent, StateResponseChallengeSent}
                             then Some StateAuthFailed else None
      | EventSendDhcpFlow \<Rightarrow> None)"
  by (cases e) (auto simp: new_eapol_def NewFSM_def eapol_events_def)

definition eapol_ok :: "eapol_io \<Rightarrow> bool" where
  "eapol_ok s \<longleftrightarrow> transitions (machine s) = transitions new_eapol"

lemma eap_event_ok [simp]: "eapol_ok s \<Longrightarrow> eapol_ok (snd (eap_event e s))"
  by (auto simp: eapol_ok_def eap_event_def fsm_fire_def split: option.splits)

lemma eap_event_current:
  assumes "eapol_ok s"
  shows "current (machine (snd (eap_event e s))) =
           (case map_of (transitions new_eapol) (e, current (machine s)) of None \<Rightarrow> current (machine s) | Some d \<Rightarrow> d)"
  using assms by (auto simp: eapol_ok_def eap_event_def fsm_fire_def split: option.splits)

lemma eap_event_log [simp]:
  "eap_sent (snd (eap_event e s)) = eap_sent s" "eap_out (snd (eap_event e s)) = eap_out s"
  by (simp_all add: eap_event_def split_beta)

lemma sendEapolPktIn_simps [simp]:
  "machine (snd (sendEapolPktIn st i o' b p g s)) = machine s"
  by (simp add: sendEapolPktIn_def split_beta)

lemma sendEapolPktOut_machine:
  "sendEapolPktOut c i o' b s = Ret (ok, s') \<Longrightarrow> machine s' = machine s"
  by (auto simp: sendEapolPktOut_def Let_def split: option.splits if_splits)

lemma drop_packet_current:
  assumes "eapol_ok s"
  shows "current (machine (drop_packet s)) =
           (if current (machine s) \<in> {StateCreated, StateResponseSuccessReceived} then current (machine s)
            else StateAuthFailed)"
  using assms
  by (cases "current (machine s)")
     (simp_all add: drop_packet_def updateAuthFailed_def eap_event_current eapol_next)

lemma eapol_ok_cong: "machine s' = machine s \<Longrightarrow> eapol_ok s' = eapol_ok s"
  by (simp add: eapol_ok_def)

lemma answer_packet_current:
  assumes "eapol_ok s"
  shows "current (machine (answer_packet st i o' g p b ev s)) =
           current (machine (snd (eap_event (if fst (sendEapolPktIn st o' i b p g s) then ev else EventAuthFailed) s)))"
  using assms
  by (auto simp: answer_packet_def split_beta Let_def updateAuthFailed_def eap_event_current
      eapol_ok_cong[of "snd (sendEapolPktIn st o' i b p g s)" s] split: option.splits)

lemma authenticator_packet_current:
  assumes "eapol_ok s" "authenticator_packet c i o' b d s = Ret s'"
  shows "current (machine s') = current (machine s)"
proof -
  from assms(2) obtain ok s1 where s1: "sendEapolPktOut c o' i b s = Ret (ok, s1)"
    and s': "s' = (if ok \<and> d then snd (eap_event EventSendDhcpFlow s1) else s1)"
    by (auto simp: authenticator_packet_def go_simps)
  have "machine s1 = machine s"
    by (rule sendEapolPktOut_machine[OF s1])
  with assms(1) s' show ?thesis
    by (simp add: eap_event_current eapol_ok_cong[of s1 s] eapol_next)
qed

text \<open>The supplicant's machine after one packet.\<close>

lemma eapol_step:
  assumes "eapol_ok s"
    and "eapol_HandleNextPacket md5 onuId ponPortId gemPortId portNo uniId serviceId oltId pkt st client s = Ret s'"
  shows "current (machine s') = current (machine s)
       \<or> current (machine s') = StateAuthFailed
       \<or> current (machine s) = StateStartSent \<and> current (machine s') = StateResponseIdentitySent
       \<or> current (machine s) = StateResponseIdentitySent \<and> current (machine s') = StateResponseChallengeSent
       \<or> current (machine s) = StateResponseChallengeSent \<and> current (machine s') = StateResponseSuccessReceived
         \<and> (\<exists>eap. LayerEAP pkt = Some eap \<and> eap_Code eap = 3 \<and> eap_Type eap = 0)"
proof (cases "LayerEAPOL pkt = Some 1")
  case True
  with assms show ?thesis
    by (auto simp: eapol_HandleNextPacket_def dest: authenticator_packet_current)
next
  case False
  with assms(2) obtain eap where eap: "LayerEAP pkt = Some eap"
    by (auto simp: eapol_HandleNextPacket_def split: if_splits option.splits)
  note hnp = assms(2)[unfolded eapol_HandleNextPacket_def Let_def, simplified eap False, simplified]
  show ?thesis
    using hnp assms(1)
    by (simp add: go_simps split: if_splits)
       (auto dest: authenticator_packet_current[OF assms(1)]
         simp: drop_packet_current answer_packet_current eap_event_current eapol_next eap split: if_splits)
qed

lemma drop_packet_ok [simp]: "eapol_ok s \<Longrightarrow> eapol_ok (drop_packet s)"
  by (simp add: drop_packet_def updateAuthFailed_def)

lemma answer_packet_ok [simp]: "eapol_ok s \<Longrightarrow> eapol_ok (answer_packet st i o' g p b ev s)"
  by (auto simp: answer_packet_def split_beta Let_def updateAuthFailed_def
      eapol_ok_cong[of "snd (sendEapolPktIn st o' i b p g s)" s])

lemma authenticator_packet_ok:
  assumes "eapol_ok s" "authenticator_packet c i o' b d s = Ret s'"
  shows "eapol_ok s'"
proof -
  from assms(2) obtain ok s1 where s1: "sendEapolPktOut c o' i b s = Ret (ok, s1)"
    and s': "s' = (if ok \<and> d then snd (eap_event EventSendDhcpFlow s1) else s1)"
    by (auto simp: authenticator_packet_def go_simps)
  have "eapol_ok s1"
    using assms(1) eapol_ok_cong[OF sendEapolPktOut_machine[OF s1]] by simp
  with s' show ?thesis by simp
qed

lemma SendEapStart_ok: "eapol_ok s \<Longrightarrow> eapol_ok (snd (SendEapStart st a b c d e f s))"
  by (auto simp: SendEapStart_def Let_def split_beta updateAuthFailed_def intro!: eap_event_ok)
     (simp_all add: eapol_ok_def)

lemma eapol_HandleNextPacket_ok:
  assumes "eapol_ok s"
    and "eapol_HandleNextPacket md5 onuId ponPortId gemPortId portNo uniId serviceId oltId pkt st client s = Ret s'"
  shows "eapol_ok s'"
proof (cases "LayerEAPOL pkt = Some 1")
  case True
  with assms show ?thesis
    by (auto simp: eapol_HandleNextPacket_def dest: authenticator_packet_ok)
next
  case False
  with assms(2) obtain eap where eap: "LayerEAP pkt = Some eap"
    by (auto simp: eapol_HandleNextPacket_def split: if_splits option.splits)
  note hnp = assms(2)[unfolded eapol_HandleNextPacket_def Let_def, simplified eap False, simplified]
  show ?thesis
    using hnp assms(1)
    by (simp add: go_simps split: if_splits) (auto dest: authenticator_packet_ok[OF assms(1)])
qed

text \<open>
  C10: nobody is authenticated without the whole exchange. If handling a packet puts the supplicant
  into the authenticated state, it had just answered the challenge and the packet is an EAP
  success; this holds for every packet, client, stream and digest.
\<close>

theorem eapol_no_bypass:
  assumes "eapol_ok s"
    and "eapol_HandleNextPacket md5 onuId ponPortId gemPortId portNo uniId serviceId oltId pkt st client s = Ret s'"
    and "current (machine s') = StateResponseSuccessReceived"
    and "current (machine s) \<noteq> StateResponseSuccessReceived"
  shows "current (machine s) = StateResponseChallengeSent
       \<and> (\<exists>eap. LayerEAP pkt = Some eap \<and> eap_Code eap = 3 \<and> eap_Type eap = 0)"
  using eapol_step[OF assms(1,2)] assms(3,4) by auto

text \<open>
  The authentication exchange: the packets that the authenticator sends while the supplicant follows
  the protocol.
\<close>

definition eap_packet :: "uint8 \<Rightarrow> uint8 \<Rightarrow> uint8 \<Rightarrow> byte list \<Rightarrow> Packet" where
  "eap_packet code ident ty contents =
     \<lparr>Data = [], LayerEAP = Some \<lparr>eap_Code = code, eap_Id = ident, eap_Length = 22, eap_Type = ty,
        eap_TypeData = [], eap_Contents = contents\<rparr>, LayerEAPOL = Some 0, LayerDHCPv4 = None, LayerIGMP = None,
      LayerICMPv6 = False, LayerLLDP = False\<rparr>"

text \<open>\<open>run_packets h ps s\<close>: the handler \<open>h\<close> on the packets \<open>ps\<close> in order (\<open>for msg := range s.PacketCh\<close>).\<close>

definition run_packets :: "(Packet \<Rightarrow> 's \<Rightarrow> 's go) \<Rightarrow> Packet list \<Rightarrow> 's \<Rightarrow> 's go" where
  "run_packets h ps s = go_fold h ps s"

definition on_port :: "uint32 \<Rightarrow> uint32 \<Rightarrow> uint32 \<Rightarrow> uint32 \<Rightarrow> Indication \<Rightarrow> bool" where
  "on_port onuId ponId gem portNo ind \<longleftrightarrow>
     (case ind of PktInd p \<Rightarrow> pi_IntfType p = ''pon'' \<and> pi_IntfId p = ponId \<and> pi_OnuId p = onuId
        \<and> pi_GemportId p = gem \<and> pi_PortNo p = portNo | _ \<Rightarrow> False)"

text \<open>A stream that does not fail.\<close>

definition reliable :: stream where
  "reliable = (\<lambda>_ _. False)"

lemma SendEapStart_reliable:
  assumes "eapol_ok s" "current (machine s) = StateAuthStarted"
  obtains s1 x where "SendEapStart reliable onuId ponId portNo mac gem uniId s = (True, s1)" "eapol_ok s1"
    "current (machine s1) = StateStartSent" "eap_sent s1 = eap_sent s @ [x]" "on_port onuId ponId gem portNo x"
  using assms
  by (auto simp: SendEapStart_def reliable_def Send_def Let_def split_beta eapol_ok_def eap_event_def fsm_fire_def
      eapol_next on_port_def)

lemma answer_packet_reliable:
  assumes "eapol_ok s" "map_of (transitions new_eapol) (ev, current (machine s)) = Some d" "d \<noteq> current (machine s)"
  obtains s1 x where "answer_packet reliable onuId ponId gem portNo b ev s = s1" "eapol_ok s1"
    "current (machine s1) = d" "eap_sent s1 = eap_sent s @ [x]" "on_port onuId ponId gem portNo x"
  using assms
  by (auto simp: answer_packet_def sendEapolPktIn_def reliable_def Send_def Let_def split_beta eapol_ok_def
      eap_event_def fsm_fire_def on_port_def)

text \<open>
  C24: the exchange completes. On a stream that does not fail, a supplicant whose authentication has
  been started sends the start packet and, after an identity request, a challenge and a success,
  is authenticated; it has then sent exactly three packets, all of them on the service's own
  PON, ONU, GEM port and port number.
\<close>

theorem eapol_exchange_completes:
  assumes "eapol_ok s" "current (machine s) = StateAuthStarted" "length c \<ge> 6"
  shows "\<exists>s' xs. run_packets
            (\<lambda>pkt. eapol_HandleNextPacket md5 onuId ponId gem portNo uniId svcId oltId pkt reliable None)
            [eap_packet 1 i1 1 d, eap_packet 1 i2 4 c, eap_packet 3 i3 0 e]
            (snd (SendEapStart reliable onuId ponId portNo mac gem uniId s)) = Ret s'
       \<and> current (machine s') = StateResponseSuccessReceived
       \<and> eap_sent s' = eap_sent s @ xs \<and> length xs = 3 \<and> list_all (on_port onuId ponId gem portNo) xs"
proof -
  obtain s1 x1 where s1: "SendEapStart reliable onuId ponId portNo mac gem uniId s = (True, s1)" "eapol_ok s1"
    "current (machine s1) = StateStartSent" "eap_sent s1 = eap_sent s @ [x1]" "on_port onuId ponId gem portNo x1"
    by (rule SendEapStart_reliable[OF assms(1,2)])
  obtain s2 x2 where s2: "answer_packet reliable onuId ponId gem portNo
      (createEAPOLPkt (createEAPIdentityResponse i1) svcId uniId onuId ponId oltId) EventResponseIdentitySent s1 = s2"
    "eapol_ok s2" "current (machine s2) = StateResponseIdentitySent" "eap_sent s2 = eap_sent s1 @ [x2]"
    "on_port onuId ponId gem portNo x2"
    by (rule answer_packet_reliable[OF s1(2), where ev = EventResponseIdentitySent and d = StateResponseIdentitySent])
       (use s1(3) in \<open>simp_all add: eapol_next\<close>)
  define md where "md = take 16 (md5 (i2 # 0x70 # 0x61 # 0x73 # 0x73 # 0x77 # 0x6f # 0x72 # 0x64 # drop 6 c))"
  obtain s3 x3 where s3: "answer_packet reliable onuId ponId gem portNo
      (createEAPOLPkt (createEAPChallengeResponse i2 (0x10 # md)) svcId uniId onuId ponId oltId)
      EventResponseChallengeSent s2 = s3"
    "eapol_ok s3" "current (machine s3) = StateResponseChallengeSent" "eap_sent s3 = eap_sent s2 @ [x3]"
    "on_port onuId ponId gem portNo x3"
    by (rule answer_packet_reliable[OF s2(2), where ev = EventResponseChallengeSent and d = StateResponseChallengeSent])
       (use s2(3) in \<open>simp_all add: eapol_next\<close>)
  define s4 where "s4 = snd (eap_event EventResponseSuccessReceived s3)"
  have "current (machine s4) = StateResponseSuccessReceived" "eap_sent s4 = eap_sent s3"
    using s3(2,3) by (simp_all add: s4_def eap_event_current eapol_next)
  moreover have "run_packets
      (\<lambda>pkt. eapol_HandleNextPacket md5 onuId ponId gem portNo uniId svcId oltId pkt reliable None)
      [eap_packet 1 i1 1 d, eap_packet 1 i2 4 c, eap_packet 3 i3 0 e] s1 = Ret s4"
    using s1(3) s2(3) s3(3) assms(3)
    by (simp add: run_packets_def eapol_HandleNextPacket_def eap_packet_def getMD5Data_def
        md_def[symmetric] s2(1) s3(1) s4_def)
  ultimately show ?thesis
    using s1(1,4,5) s2(4,5) s3(4,5) by (intro exI[of _ s4] exI[of _ "[x1, x2, x3]"]) simp
qed

definition sample_eapol :: eapol_io where
  "sample_eapol = \<lparr>machine = SetState StateAuthStarted new_eapol, eap_sent = [], eap_out = []\<rparr>"

theorem eapol_exchange_completes_witness:
  "\<exists>s' xs. run_packets
      (\<lambda>pkt. eapol_HandleNextPacket id 1 0 1024 16 0 0 0 pkt reliable None)
      [eap_packet 1 7 1 [], eap_packet 1 8 4 [1, 8, 0, 10, 4, 16, 9], eap_packet 3 9 0 []]
      (snd (SendEapStart reliable 1 0 16 [0x2e, 0x60, 0, 0, 1, 0] 1024 0 sample_eapol)) = Ret s'
     \<and> current (machine s') = StateResponseSuccessReceived \<and> eap_sent s' = xs \<and> length xs = 3"
proof -
  have "eapol_ok sample_eapol" "current (machine sample_eapol) = StateAuthStarted" "eap_sent sample_eapol = []"
    by (simp_all add: sample_eapol_def eapol_ok_def)
  then show ?thesis
    using eapol_exchange_completes[of sample_eapol "[1, 8, 0, 10, 4, 16, 9]" id 1 0 1024 16 0 0 0 7 "[]" 8 9 "[]"
        "[0x2e, 0x60, 0, 0, 1, 0]"]
    by auto
qed

theorem eapol_no_bypass_witness:
  "current (machine (sample_eapol\<lparr>machine := SetState StateResponseChallengeSent new_eapol\<rparr>)) = StateResponseChallengeSent
   \<and> (\<exists>eap. LayerEAP (eap_packet 3 9 0 []) = Some eap \<and> eap_Code eap = 3 \<and> eap_Type eap = 0)"
proof -
  let ?s = "sample_eapol\<lparr>machine := SetState StateResponseChallengeSent new_eapol\<rparr>"
  have "eapol_ok ?s" "eapol_HandleNextPacket id 1 0 1024 16 0 0 0 (eap_packet 3 9 0 []) reliable None ?s
      = Ret (snd (eap_event EventResponseSuccessReceived ?s))"
    by (simp_all add: eapol_ok_def eapol_HandleNextPacket_def eap_packet_def)
  from eapol_no_bypass[OF this] show ?thesis
    by (simp add: eap_event_current eapol_ok_def eapol_next)
qed

end
