(* ===== verification/Dhcp.thy ===== *)
theory Dhcp
  imports Eapol
begin

text \<open>
  The DHCP client of a service (\<open>internal/bbsim/responders/dhcp/dhcp.go\<close>): the requests it builds,
  \<open>SendDHCPDiscovery\<close> and \<open>HandleNextPacket\<close>. Serialising the Ethernet, IPv4, UDP and DHCP layers is
  \<open>gopacket\<close>'s; it is the argument \<open>ser\<close>, which gives the bytes of the untagged frame or fails.
\<close>

section \<open>State machine\<close>

datatype dhcp_state =
    DhcpCreated
  | DhcpStarted
  | DhcpDiscoverySent
  | DhcpRequestSent
  | DhcpAckReceived
  | DhcpFailed

datatype dhcp_event =
    EventStartDhcp
  | EventDhcpDiscoverySent
  | EventDhcpRequestSent
  | EventDhcpAckReceived
  | EventDhcpFailed

definition dhcp_events :: "(dhcp_event, dhcp_state) EventDesc list" where
  "dhcp_events =
     [\<lparr>Name = EventStartDhcp, Src = [DhcpCreated, DhcpAckReceived, DhcpFailed], Dst = DhcpStarted\<rparr>,
      \<lparr>Name = EventDhcpDiscoverySent, Src = [DhcpStarted], Dst = DhcpDiscoverySent\<rparr>,
      \<lparr>Name = EventDhcpRequestSent, Src = [DhcpDiscoverySent], Dst = DhcpRequestSent\<rparr>,
      \<lparr>Name = EventDhcpAckReceived, Src = [DhcpRequestSent], Dst = DhcpAckReceived\<rparr>,
      \<lparr>Name = EventDhcpFailed, Src = [DhcpStarted, DhcpDiscoverySent, DhcpRequestSent], Dst = DhcpFailed\<rparr>]"

definition new_dhcp :: "(dhcp_event, dhcp_state) FSM" where
  "new_dhcp = NewFSM DhcpCreated dhcp_events"

section \<open>Requests\<close>

text \<open>Decimal digits (\<open>%d\<close>), and \<open>strconv.Atoi\<close> on a string of digits with a 64-bit \<open>int\<close>.\<close>

fun digits :: "nat \<Rightarrow> nat list" where
  "digits n = (if n < 10 then [n] else digits (n div 10) @ [n mod 10])"

declare digits.simps [simp del]

definition digits_val :: "nat list \<Rightarrow> nat" where
  "digits_val ds = foldl (\<lambda>a d. 10 * a + d) 0 ds"

definition Atoi :: "nat list \<Rightarrow> nat option" where
  "Atoi ds = (if ds = [] \<or> digits_val ds \<ge> 2 ^ 63 then None else Some (digits_val ds))"

definition macAddressToTxId :: "byte list \<Rightarrow> uint32 go" where
  "macAddressToTxId mac =
     (case Atoi (concat (map (\<lambda>i. digits (unat i)) mac)) of
        None \<Rightarrow> Panic FatalLog | Some xid \<Rightarrow> Ret (of_nat xid))"

definition createDefaultDHCPReq :: "byte list \<Rightarrow> DHCPv4 go" where
  "createDefaultDHCPReq mac =
     go_bind (macAddressToTxId mac) (\<lambda>xid.
     Ret \<lparr>Operation = 1, Xid = xid, ClientHWAddr = mac, YourClientIP = [], Options = []\<rparr>)"

definition defaultParamsRequestList :: "byte list" where
  "defaultParamsRequestList = [1, 28, 2, 3, 15, 6, 119, 12, 44, 47, 26, 121, 42]"

definition decimal :: "uint32 \<Rightarrow> byte list" where
  "decimal n = map (\<lambda>d. of_nat (48 + d)) (digits (unat n))"

text \<open>The bytes of \<open>"%d.%d.%d.bbsim.onf.org"\<close>.\<close>

definition hostname :: "uint32 \<Rightarrow> uint32 \<Rightarrow> uint32 \<Rightarrow> byte list" where
  "hostname gemPortId intfId onuId =
     decimal gemPortId @ [46] @ decimal intfId @ [46] @ decimal onuId
     @ [46, 98, 98, 115, 105, 109, 46, 111, 110, 102, 46, 111, 114, 103]"

definition createDefaultOpts :: "uint32 \<Rightarrow> uint32 \<Rightarrow> uint32 \<Rightarrow> DHCPOption list" where
  "createDefaultOpts gemPortId intfId onuId =
     [\<lparr>opt_Type = 12, opt_Data = hostname gemPortId intfId onuId\<rparr>,
      \<lparr>opt_Type = 55, opt_Data = defaultParamsRequestList\<rparr>]"

definition createDHCPDisc :: "uint32 \<Rightarrow> uint32 \<Rightarrow> uint32 \<Rightarrow> byte list \<Rightarrow> DHCPv4 go" where
  "createDHCPDisc intfId onuId gemPort macAddress =
     go_bind (createDefaultDHCPReq macAddress) (\<lambda>d.
     Ret (d\<lparr>Options := [\<lparr>opt_Type = 53, opt_Data = [1]\<rparr>] @ createDefaultOpts gemPort intfId onuId
              @ [\<lparr>opt_Type = 61, opt_Data = 1 # macAddress\<rparr>]\<rparr>))"

definition createDHCPReq ::
  "uint32 \<Rightarrow> uint32 \<Rightarrow> byte list \<Rightarrow> byte list \<Rightarrow> uint32 \<Rightarrow> DHCPv4 go" where
  "createDHCPReq intfId onuId macAddress offeredIp gemPortId =
     go_bind (createDefaultDHCPReq macAddress) (\<lambda>d.
     Ret (d\<lparr>Options := createDefaultOpts gemPortId intfId onuId
              @ [\<lparr>opt_Type = 53, opt_Data = [3]\<rparr>,
                 \<lparr>opt_Type = 54, opt_Data = [182, 21, 0, 128]\<rparr>,
                 \<lparr>opt_Type = 61, opt_Data = [0xcd, 0x28, 0xcb, 0xcc, 0x00, 0x01, 0x00, 0x01,
                    0x23, 0xed, 0x11, 0xec, 0x4e, 0xfc, 0xcd, 0x28, ucast intfId, ucast onuId]\<rparr>,
                 \<lparr>opt_Type = 50, opt_Data = offeredIp\<rparr>]\<rparr>))"

type_synonym dhcp_serializer = "byte list \<Rightarrow> DHCPv4 \<Rightarrow> byte list option"

definition serializeDHCPPacket :: "dhcp_serializer \<Rightarrow> int \<Rightarrow> byte list \<Rightarrow> DHCPv4 \<Rightarrow> uint8 \<Rightarrow> byte list option" where
  "serializeDHCPPacket ser tag srcMac dhcp pbit =
     (case ser srcMac dhcp of None \<Rightarrow> None | Some untagged \<Rightarrow> Some (PushSingleTag tag untagged pbit))"

section \<open>Message types\<close>

datatype DHCPMsgType = MsgDiscover | MsgOffer | MsgRequest | MsgAck | MsgRelease

fun msg_type_of_data :: "byte list \<Rightarrow> DHCPMsgType option" where
  "msg_type_of_data d =
     (if d = [1] then Some MsgDiscover else if d = [2] then Some MsgOffer else if d = [3] then Some MsgRequest
      else if d = [5] then Some MsgAck else if d = [7] then Some MsgRelease else None)"

fun GetDhcpMessageType :: "DHCPOption list \<Rightarrow> DHCPMsgType option" where
  "GetDhcpMessageType [] = None"
| "GetDhcpMessageType (opt # opts) =
     (if opt_Type opt = 53 then msg_type_of_data (opt_Data opt) else GetDhcpMessageType opts)"

definition GetDhcpPacketType :: "Packet \<Rightarrow> DHCPMsgType option" where
  "GetDhcpPacketType pkt =
     (case LayerDHCPv4 pkt of None \<Rightarrow> None | Some d \<Rightarrow> GetDhcpMessageType (Options d))"

section \<open>Handlers\<close>

record dhcp_io =
  dhcp_machine :: "(dhcp_event, dhcp_state) FSM"
  dhcp_sent :: "Indication list"

text \<open>What the handlers are called with besides the packet: the service and its place in the OLT.\<close>

record dhcp_call =
  dc_onuId :: uint32
  dc_ponPortId :: uint32
  dc_portNo :: uint32
  dc_tag :: int
  dc_gemPortId :: uint32
  dc_uniId :: uint32
  dc_hwAddress :: "byte list"
  dc_pbit :: uint8

definition sendDHCPPktIn :: "stream \<Rightarrow> dhcp_call \<Rightarrow> byte list \<Rightarrow> dhcp_io \<Rightarrow> bool \<times> dhcp_io" where
  "sendDHCPPktIn st c bytes s =
     (let (ok, sent) = Send st (PktInd \<lparr>pi_IntfType = ''pon'', pi_IntfId = dc_ponPortId c,
           pi_GemportId = dc_gemPortId c, pi_Pkt = bytes, pi_PortNo = dc_portNo c, pi_OnuId = dc_onuId c,
           pi_UniId = dc_uniId c\<rparr>) (dhcp_sent s)
      in (ok, s\<lparr>dhcp_sent := sent\<rparr>))"

definition dhcp_fire :: "dhcp_event \<Rightarrow> dhcp_io \<Rightarrow> bool \<times> dhcp_io" where
  "dhcp_fire e s = (let (err, m) = fsm_fire e (dhcp_machine s) in (err = None, s\<lparr>dhcp_machine := m\<rparr>))"

definition updateDhcpFailed :: "dhcp_io \<Rightarrow> bool \<times> dhcp_io" where
  "updateDhcpFailed s = dhcp_fire EventDhcpFailed s"

text \<open>The boolean results are \<open>True\<close> for a nil error.\<close>

definition send_or_fail :: "dhcp_serializer \<Rightarrow> stream \<Rightarrow> dhcp_call \<Rightarrow> DHCPv4 \<Rightarrow> dhcp_io \<Rightarrow> bool \<times> dhcp_io" where
  "send_or_fail ser st c dhcp s =
     (case serializeDHCPPacket ser (dc_tag c) (dc_hwAddress c) dhcp (dc_pbit c) of
        None \<Rightarrow> (False, snd (updateDhcpFailed s))
      | Some bytes \<Rightarrow>
          let (ok, s1) = sendDHCPPktIn st c bytes s in
          if ok then (True, s1) else (False, snd (updateDhcpFailed s1)))"

definition sendDHCPRequest ::
  "dhcp_serializer \<Rightarrow> stream \<Rightarrow> dhcp_call \<Rightarrow> byte list \<Rightarrow> dhcp_io \<Rightarrow> (bool \<times> dhcp_io) go" where
  "sendDHCPRequest ser st c offeredIp s =
     go_bind (createDHCPReq (dc_ponPortId c) (dc_onuId c) (dc_hwAddress c) offeredIp (dc_gemPortId c)) (\<lambda>dhcp.
     Ret (send_or_fail ser st c dhcp s))"

definition SendDHCPDiscovery :: "dhcp_serializer \<Rightarrow> stream \<Rightarrow> dhcp_call \<Rightarrow> dhcp_io \<Rightarrow> (bool \<times> dhcp_io) go" where
  "SendDHCPDiscovery ser st c s =
     go_bind (createDHCPDisc (dc_ponPortId c) (dc_onuId c) (dc_gemPortId c) (dc_hwAddress c)) (\<lambda>dhcp.
     let (ok, s1) = send_or_fail ser st c dhcp s in
     Ret (if ok then dhcp_fire EventDhcpDiscoverySent s1 else (False, s1)))"

definition dhcp_HandleNextPacket ::
  "dhcp_serializer \<Rightarrow> stream \<Rightarrow> dhcp_call \<Rightarrow> Packet \<Rightarrow> dhcp_io \<Rightarrow> (bool \<times> dhcp_io) go" where
  "dhcp_HandleNextPacket ser st c pkt s =
     (case LayerDHCPv4 pkt of None \<Rightarrow> Ret (False, snd (updateDhcpFailed s))
      | Some dhcpLayer \<Rightarrow>
        (case GetDhcpMessageType (Options dhcpLayer) of None \<Rightarrow> Ret (False, snd (updateDhcpFailed s))
         | Some dhcpMessageType \<Rightarrow>
             if Operation dhcpLayer = 2 then
               (if dhcpMessageType = MsgOffer then
                  go_bind (sendDHCPRequest ser st c (YourClientIP dhcpLayer) s) (\<lambda>(ok, s1).
                  Ret (if ok then (True, snd (dhcp_fire EventDhcpRequestSent s1))
                       else (False, snd (updateDhcpFailed s1))))
                else if dhcpMessageType = MsgAck then Ret (True, snd (dhcp_fire EventDhcpAckReceived s))
                else Ret (True, s))
             else Ret (True, s)))"

section \<open>Transaction ids\<close>

lemma digits_nonempty: "digits n \<noteq> []"
  by (subst digits.simps) simp

lemma foldl_digits: "foldl (\<lambda>a d. 10 * a + d) acc (xs @ ys) =
    foldl (\<lambda>a d. 10 * a + d) (foldl (\<lambda>a d. 10 * a + d) acc xs) ys"
  by simp

lemma foldl_digits_bound:
  "\<forall>d \<in> set ds. d < 10 \<Longrightarrow> foldl (\<lambda>a d. 10 * a + d) (acc :: nat) ds < (acc + 1) * 10 ^ length ds"
proof (induction ds arbitrary: acc)
  case Nil
  then show ?case by simp
next
  case (Cons d ds)
  then have "foldl (\<lambda>a d. 10 * a + d) (10 * acc + d) ds < (10 * acc + d + 1) * 10 ^ length ds" by simp
  also have "\<dots> \<le> (10 * acc + 10) * 10 ^ length ds"
    using Cons.prems by (intro mult_right_mono) auto
  finally show ?case by (simp add: algebra_simps)
qed

lemma digits_lt_10: "d \<in> set (digits n) \<Longrightarrow> d < 10"
  by (induction n arbitrary: d rule: digits.induct) (subst (asm) (2) digits.simps, auto split: if_splits)

lemma length_digits_byte: "n < 256 \<Longrightarrow> length (digits n) \<le> 3"
  by (subst digits.simps, subst digits.simps, subst digits.simps) auto

lemma length_mac_digits: "length (concat (map (\<lambda>i. digits (unat (i :: byte))) mac)) \<le> 3 * length mac"
proof (induction mac)
  case Nil
  then show ?case by simp
next
  case (Cons b mac)
  have "length (digits (unat b)) \<le> 3"
    by (rule length_digits_byte) (use unsigned_less[of b] in simp)
  with Cons show ?case by simp
qed

lemma mac_txid:
  assumes "mac \<noteq> []" "length mac \<le> 6"
  shows "\<exists>xid. macAddressToTxId mac = Ret xid"
proof -
  let ?ds = "concat (map (\<lambda>i. digits (unat i)) mac)"
  have "digits_val ?ds < 10 ^ length ?ds"
    using foldl_digits_bound[of ?ds 0] digits_lt_10 by (auto simp: digits_val_def)
  also have "\<dots> \<le> 10 ^ 18"
    using length_mac_digits[of mac] assms(2) by (intro power_increasing) auto
  also have "\<dots> < (2 :: nat) ^ 63" by simp
  finally have "digits_val ?ds < 2 ^ 63" .
  moreover have "?ds \<noteq> []"
    using assms(1) digits_nonempty by (cases mac) auto
  ultimately show ?thesis
    by (simp add: macAddressToTxId_def Atoi_def)
qed

text \<open>
  Transaction ids are not unique, although the comment of \<open>macAddressToTxId\<close> asks for it: the
  first services of ONU 11 on PON 1 and of ONU 1 on PON 11 have different MAC addresses and the same id.
\<close>

theorem txid_collision:
  "[0x2e, 0, 1, 11, 0, 0] \<noteq> ([0x2e, 0, 11, 1, 0, 0] :: byte list)
   \<and> macAddressToTxId [0x2e, 0, 1, 11, 0, 0] = Ret 46011100
   \<and> macAddressToTxId [0x2e, 0, 11, 1, 0, 0] = Ret 46011100"
  by (simp add: macAddressToTxId_def Atoi_def digits_val_def digits.simps)

section \<open>Correctness of the client\<close>

lemma dhcp_next:
  "map_of (transitions new_dhcp) (e, s) =
     (case e of
        EventStartDhcp \<Rightarrow> if s \<in> {DhcpCreated, DhcpAckReceived, DhcpFailed} then Some DhcpStarted else None
      | EventDhcpDiscoverySent \<Rightarrow> if s = DhcpStarted then Some DhcpDiscoverySent else None
      | EventDhcpRequestSent \<Rightarrow> if s = DhcpDiscoverySent then Some DhcpRequestSent else None
      | EventDhcpAckReceived \<Rightarrow> if s = DhcpRequestSent then Some DhcpAckReceived else None
      | EventDhcpFailed \<Rightarrow> if s \<in> {DhcpStarted, DhcpDiscoverySent, DhcpRequestSent} then Some DhcpFailed else None)"
  by (cases e) (auto simp: new_dhcp_def NewFSM_def dhcp_events_def)

definition dhcp_ok :: "dhcp_io \<Rightarrow> bool" where
  "dhcp_ok s \<longleftrightarrow> transitions (dhcp_machine s) = transitions new_dhcp"

lemma dhcp_fire_ok [simp]: "dhcp_ok s \<Longrightarrow> dhcp_ok (snd (dhcp_fire e s))"
  by (auto simp: dhcp_ok_def dhcp_fire_def fsm_fire_def split: option.splits)

lemma dhcp_fire_current:
  assumes "dhcp_ok s"
  shows "current (dhcp_machine (snd (dhcp_fire e s))) =
    (case map_of (transitions new_dhcp) (e, current (dhcp_machine s)) of None \<Rightarrow> current (dhcp_machine s) | Some d \<Rightarrow> d)"
  using assms by (auto simp: dhcp_ok_def dhcp_fire_def fsm_fire_def split: option.splits)

lemma dhcp_fire_sent [simp]: "dhcp_sent (snd (dhcp_fire e s)) = dhcp_sent s"
  by (simp add: dhcp_fire_def split_beta)

lemma sendDHCPPktIn_machine [simp]: "dhcp_machine (snd (sendDHCPPktIn st c b s)) = dhcp_machine s"
  by (simp add: sendDHCPPktIn_def split_beta)

lemma dhcp_ok_sendDHCPPktIn [simp]: "dhcp_ok (snd (sendDHCPPktIn st c b s)) = dhcp_ok s"
  by (simp add: dhcp_ok_def)

lemma send_or_fail_current:
  assumes "dhcp_ok s" "send_or_fail ser st c d s = (ok, s1)"
  shows "dhcp_ok s1 \<and> current (dhcp_machine s1) =
     (if ok \<or> current (dhcp_machine s) \<in> {DhcpCreated, DhcpAckReceived, DhcpFailed} then current (dhcp_machine s) else DhcpFailed)"
  using assms
  by (cases "current (dhcp_machine s)")
     (auto simp: send_or_fail_def split_beta Let_def updateDhcpFailed_def dhcp_fire_current dhcp_next
        split: option.splits if_splits)

lemma send_or_fail_ok [simp]: "dhcp_ok s \<Longrightarrow> dhcp_ok (snd (send_or_fail ser st c d s))"
  using send_or_fail_current[of s ser st c d "fst (send_or_fail ser st c d s)" "snd (send_or_fail ser st c d s)"] by simp

lemma SendDHCPDiscovery_ok:
  assumes "dhcp_ok s" "SendDHCPDiscovery ser st c s = Ret (ok, s')"
  shows "dhcp_ok s'"
proof -
  obtain d where d: "(if fst (send_or_fail ser st c d s)
      then dhcp_fire EventDhcpDiscoverySent (snd (send_or_fail ser st c d s))
      else (False, snd (send_or_fail ser st c d s))) = (ok, s')" (is "?r = _")
    using assms(2) by (auto simp: SendDHCPDiscovery_def go_simps Let_def split_beta)
  have "dhcp_ok (snd ?r)"
    using assms(1) by simp
  with d show ?thesis by simp
qed

lemma sendDHCPRequest_ok:
  assumes "dhcp_ok s" "sendDHCPRequest ser st c ip s = Ret (b, s1)"
  shows "dhcp_ok s1"
proof -
  obtain d where "send_or_fail ser st c d s = (b, s1)"
    using assms(2) by (auto simp: sendDHCPRequest_def go_simps)
  with send_or_fail_ok[OF assms(1), of ser st c d] show ?thesis by simp
qed

lemma dhcp_HandleNextPacket_ok:
  assumes "dhcp_ok s" "dhcp_HandleNextPacket ser st c pkt s = Ret (ok, s')"
  shows "dhcp_ok s'"
  using assms
  by (auto simp: dhcp_HandleNextPacket_def updateDhcpFailed_def go_simps split: option.splits if_splits
      dest!: sendDHCPRequest_ok[OF assms(1)])

text \<open>
  C33: a lease is only taken after a request. If handling a packet puts the client into
  \<open>dhcp_ack_received\<close>, it had sent a request and the packet is a DHCP reply of type Ack.
\<close>

theorem dhcp_ack_needs_request:
  assumes "dhcp_ok s" "dhcp_HandleNextPacket ser st c pkt s = Ret (ok, s')"
    and "current (dhcp_machine s') = DhcpAckReceived" "current (dhcp_machine s) \<noteq> DhcpAckReceived"
  shows "current (dhcp_machine s) = DhcpRequestSent
       \<and> (\<exists>d. LayerDHCPv4 pkt = Some d \<and> Operation d = 2 \<and> GetDhcpMessageType (Options d) = Some MsgAck)"
proof -
  have failed: "current (dhcp_machine (snd (updateDhcpFailed t))) = DhcpAckReceived
      \<longleftrightarrow> current (dhcp_machine t) = DhcpAckReceived" if "dhcp_ok t" for t
    using that by (cases "current (dhcp_machine t)") (simp_all add: updateDhcpFailed_def dhcp_fire_current dhcp_next)
  obtain d t where d: "LayerDHCPv4 pkt = Some d" "GetDhcpMessageType (Options d) = Some t"
    using assms failed[OF assms(1)] by (auto simp: dhcp_HandleNextPacket_def split: option.splits)
  note h = assms(2)[unfolded dhcp_HandleNextPacket_def d option.case]
  have reply: "Operation d = 2"
    using h assms(3,4) by (auto split: if_splits)
  show ?thesis
  proof (cases "t = MsgOffer")
    case True
    with h reply obtain ok' s1 dhcp where s1: "send_or_fail ser st c dhcp s = (ok', s1)"
      and s': "s' = (if ok' then snd (dhcp_fire EventDhcpRequestSent s1) else snd (updateDhcpFailed s1))"
      by (fastforce simp: sendDHCPRequest_def go_simps split: if_splits prod.splits)
    from send_or_fail_current[OF assms(1) s1] have "dhcp_ok s1" "current (dhcp_machine s1) \<noteq> DhcpAckReceived"
      using assms(4) by (auto split: if_splits)
    then have "current (dhcp_machine s') \<noteq> DhcpAckReceived"
      using failed[of s1] by (auto simp: s' dhcp_fire_current dhcp_next)
    with assms(3) show ?thesis by simp
  next
    case False
    with h reply assms(3,4) have "t = MsgAck" "s' = snd (dhcp_fire EventDhcpAckReceived s)"
      by (auto split: if_splits)
    with assms d reply show ?thesis
      by (auto simp: dhcp_fire_current dhcp_next split: if_splits)
  qed
qed

definition dhcp_packet :: "uint8 \<Rightarrow> byte list \<Rightarrow> byte list \<Rightarrow> Packet" where
  "dhcp_packet op ip ty =
     \<lparr>Data = [], LayerEAP = None, LayerEAPOL = None,
      LayerDHCPv4 = Some \<lparr>Operation = op, Xid = 0, ClientHWAddr = [], YourClientIP = ip,
        Options = [\<lparr>opt_Type = 53, opt_Data = ty\<rparr>]\<rparr>,
      LayerIGMP = None, LayerICMPv6 = False, LayerLLDP = False\<rparr>"

definition sample_dhcp :: "dhcp_state \<Rightarrow> dhcp_io" where
  "sample_dhcp q = \<lparr>dhcp_machine = SetState q new_dhcp, dhcp_sent = []\<rparr>"

definition sample_dhcp_call :: dhcp_call where
  "sample_dhcp_call = \<lparr>dc_onuId = 1, dc_ponPortId = 0, dc_portNo = 16, dc_tag = 900, dc_gemPortId = 1024,
     dc_uniId = 0, dc_hwAddress = [0x2e, 0, 0, 1, 0, 0], dc_pbit = 0\<rparr>"

theorem dhcp_ack_needs_request_witness:
  "current (dhcp_machine (sample_dhcp DhcpRequestSent)) = DhcpRequestSent
   \<and> (\<exists>d. LayerDHCPv4 (dhcp_packet 2 [] [5]) = Some d \<and> Operation d = 2
        \<and> GetDhcpMessageType (Options d) = Some MsgAck)"
proof -
  let ?s = "sample_dhcp DhcpRequestSent"
  have "dhcp_ok ?s" "dhcp_HandleNextPacket (\<lambda>_ _. None) reliable sample_dhcp_call (dhcp_packet 2 [] [5]) ?s
      = Ret (True, snd (dhcp_fire EventDhcpAckReceived ?s))"
    by (simp_all add: dhcp_ok_def sample_dhcp_def dhcp_HandleNextPacket_def dhcp_packet_def)
  from dhcp_ack_needs_request[OF this] show ?thesis
    by (simp add: dhcp_fire_current dhcp_ok_def dhcp_next sample_dhcp_def)
qed

text \<open>The packet indication that carries a frame upstream for the service of a call, with the tag of the service.\<close>

definition dhcp_indication :: "dhcp_call \<Rightarrow> byte list \<Rightarrow> Indication" where
  "dhcp_indication c b = PktInd \<lparr>pi_IntfType = ''pon'', pi_IntfId = dc_ponPortId c, pi_GemportId = dc_gemPortId c,
     pi_Pkt = PushSingleTag (dc_tag c) b (dc_pbit c), pi_PortNo = dc_portNo c, pi_OnuId = dc_onuId c, pi_UniId = dc_uniId c\<rparr>"

lemma send_or_fail_reliable:
  assumes "ser (dc_hwAddress c) d = Some b"
  shows "send_or_fail ser reliable c d s = (True, s\<lparr>dhcp_sent := dhcp_sent s @ [dhcp_indication c b]\<rparr>)"
  using assms
  by (simp add: send_or_fail_def serializeDHCPPacket_def sendDHCPPktIn_def Send_def reliable_def dhcp_indication_def)

text \<open>What the client puts into its messages.\<close>

definition client_layer :: "dhcp_call \<Rightarrow> DHCPMsgType \<Rightarrow> DHCPv4 \<Rightarrow> bool" where
  "client_layer c m d \<longleftrightarrow> Operation d = 1 \<and> ClientHWAddr d = dc_hwAddress c \<and> macAddressToTxId (dc_hwAddress c) = Ret (Xid d)
     \<and> GetDhcpMessageType (Options d) = Some m
     \<and> \<lparr>opt_Type = 12, opt_Data = hostname (dc_gemPortId c) (dc_ponPortId c) (dc_onuId c)\<rparr> \<in> set (Options d)"

definition requested_ip :: "DHCPv4 \<Rightarrow> byte list option" where
  "requested_ip d = map_option opt_Data (find (\<lambda>opt. opt_Type opt = 50) (Options d))"

lemma createDHCPDisc_layer:
  assumes "length (dc_hwAddress c) = 6"
  shows "\<exists>d. createDHCPDisc (dc_ponPortId c) (dc_onuId c) (dc_gemPortId c) (dc_hwAddress c) = Ret d \<and> client_layer c MsgDiscover d"
proof -
  obtain xid where "macAddressToTxId (dc_hwAddress c) = Ret xid" using mac_txid[of "dc_hwAddress c"] assms by force
  then show ?thesis by (simp add: createDHCPDisc_def createDefaultDHCPReq_def client_layer_def createDefaultOpts_def)
qed

lemma createDHCPReq_layer:
  assumes "length (dc_hwAddress c) = 6"
  shows "\<exists>d. createDHCPReq (dc_ponPortId c) (dc_onuId c) (dc_hwAddress c) ip (dc_gemPortId c) = Ret d
    \<and> client_layer c MsgRequest d \<and> requested_ip d = Some ip"
proof -
  obtain xid where "macAddressToTxId (dc_hwAddress c) = Ret xid" using mac_txid[of "dc_hwAddress c"] assms by force
  then show ?thesis
    by (simp add: createDHCPReq_def createDefaultDHCPReq_def client_layer_def requested_ip_def createDefaultOpts_def)
qed

text \<open>The two packets that the client sends.\<close>

lemma client_discovers:
  assumes "dhcp_ok s" "current (dhcp_machine s) = DhcpStarted" "length (dc_hwAddress c) = 6"
    "\<And>d. ClientHWAddr d = dc_hwAddress c \<Longrightarrow> ser (dc_hwAddress c) d \<noteq> None"
  shows "\<exists>d b s'. client_layer c MsgDiscover d \<and> ser (dc_hwAddress c) d = Some b
     \<and> SendDHCPDiscovery ser reliable c s = Ret (True, s') \<and> dhcp_ok s' \<and> current (dhcp_machine s') = DhcpDiscoverySent
     \<and> dhcp_sent s' = dhcp_sent s @ [dhcp_indication c b]"
proof -
  obtain d where d: "createDHCPDisc (dc_ponPortId c) (dc_onuId c) (dc_gemPortId c) (dc_hwAddress c) = Ret d" "client_layer c MsgDiscover d"
    using createDHCPDisc_layer[OF assms(3)] by blast
  then obtain b where b: "ser (dc_hwAddress c) d = Some b" using assms(4)[of d] by (auto simp: client_layer_def)
  note x = send_or_fail_reliable[of ser, OF b, of s]
  let ?s' = "snd (dhcp_fire EventDhcpDiscoverySent (s\<lparr>dhcp_sent := dhcp_sent s @ [dhcp_indication c b]\<rparr>))"
  have "SendDHCPDiscovery ser reliable c s = Ret (True, ?s')" "dhcp_ok ?s'" "current (dhcp_machine ?s') = DhcpDiscoverySent"
    "dhcp_sent ?s' = dhcp_sent s @ [dhcp_indication c b]"
    using assms(1,2) d(1) x by (auto simp: SendDHCPDiscovery_def dhcp_fire_def fsm_fire_def dhcp_ok_def dhcp_next)
  with b d(2) show ?thesis by blast
qed

lemma client_takes_offer:
  assumes "dhcp_ok s" "current (dhcp_machine s) = DhcpDiscoverySent" "length (dc_hwAddress c) = 6"
    "\<And>d. ClientHWAddr d = dc_hwAddress c \<Longrightarrow> ser (dc_hwAddress c) d \<noteq> None"
    "LayerDHCPv4 pkt = Some r" "Operation r = 2" "GetDhcpMessageType (Options r) = Some MsgOffer"
  shows "\<exists>d b s'. client_layer c MsgRequest d \<and> requested_ip d = Some (YourClientIP r) \<and> ser (dc_hwAddress c) d = Some b
     \<and> dhcp_HandleNextPacket ser reliable c pkt s = Ret (True, s') \<and> dhcp_ok s' \<and> current (dhcp_machine s') = DhcpRequestSent
     \<and> dhcp_sent s' = dhcp_sent s @ [dhcp_indication c b]"
proof -
  obtain d where d: "createDHCPReq (dc_ponPortId c) (dc_onuId c) (dc_hwAddress c) (YourClientIP r) (dc_gemPortId c) = Ret d"
    "client_layer c MsgRequest d" "requested_ip d = Some (YourClientIP r)"
    using createDHCPReq_layer[OF assms(3)] by blast
  then obtain b where b: "ser (dc_hwAddress c) d = Some b" using assms(4)[of d] by (auto simp: client_layer_def)
  note x = send_or_fail_reliable[of ser, OF b, of s]
  let ?s' = "snd (dhcp_fire EventDhcpRequestSent (s\<lparr>dhcp_sent := dhcp_sent s @ [dhcp_indication c b]\<rparr>))"
  have "dhcp_HandleNextPacket ser reliable c pkt s = Ret (True, ?s')"
    using assms(5-7) d(1) x by (simp add: dhcp_HandleNextPacket_def sendDHCPRequest_def)
  moreover have "dhcp_ok ?s'" "current (dhcp_machine ?s') = DhcpRequestSent" "dhcp_sent ?s' = dhcp_sent s @ [dhcp_indication c b]"
    using assms(1,2) by (simp_all add: dhcp_ok_def dhcp_fire_def fsm_fire_def dhcp_next)
  ultimately show ?thesis using b d(2,3) by blast
qed

lemma client_takes_ack:
  assumes "dhcp_ok s" "current (dhcp_machine s) = DhcpRequestSent"
    "LayerDHCPv4 pkt = Some r" "Operation r = 2" "GetDhcpMessageType (Options r) = Some MsgAck"
  shows "\<exists>s'. dhcp_HandleNextPacket ser st c pkt s = Ret (True, s') \<and> current (dhcp_machine s') = DhcpAckReceived \<and> dhcp_sent s' = dhcp_sent s"
  using assms by (simp add: dhcp_HandleNextPacket_def dhcp_fire_current dhcp_next)

text \<open>
  C26: the exchange completes. When the stream does not fail and the serialiser accepts the messages of a service with a
  six-byte hardware address, a client that has been started sends a discovery and, after any offer and any ack, holds a
  lease. It has sent exactly two frames, tagged with the service's VLAN and priority and on its own PON, ONU, UNI, GEM port and
  port number: the serialisation of a discover message and that of a request message for the address that the offer
  named, both with the hardware address and the transaction id of the service.
\<close>

theorem dhcp_exchange_completes:
  assumes "dhcp_ok s" "current (dhcp_machine s) = DhcpStarted" "length (dc_hwAddress c) = 6"
    and "\<And>d. ClientHWAddr d = dc_hwAddress c \<Longrightarrow> ser (dc_hwAddress c) d \<noteq> None"
    and "LayerDHCPv4 p1 = Some offer" "Operation offer = 2" "GetDhcpMessageType (Options offer) = Some MsgOffer"
    and "LayerDHCPv4 p2 = Some ack" "Operation ack = 2" "GetDhcpMessageType (Options ack) = Some MsgAck"
  shows "\<exists>disc b1 s1 req b2 s2 s3.
     SendDHCPDiscovery ser reliable c s = Ret (True, s1) \<and> dhcp_sent s1 = dhcp_sent s @ [dhcp_indication c b1]
     \<and> ser (dc_hwAddress c) disc = Some b1 \<and> client_layer c MsgDiscover disc
     \<and> dhcp_HandleNextPacket ser reliable c p1 s1 = Ret (True, s2) \<and> dhcp_sent s2 = dhcp_sent s1 @ [dhcp_indication c b2]
     \<and> ser (dc_hwAddress c) req = Some b2 \<and> client_layer c MsgRequest req \<and> requested_ip req = Some (YourClientIP offer)
     \<and> dhcp_HandleNextPacket ser reliable c p2 s2 = Ret (True, s3) \<and> dhcp_sent s3 = dhcp_sent s2
     \<and> current (dhcp_machine s3) = DhcpAckReceived"
proof -
  obtain disc b1 s1 where 1: "client_layer c MsgDiscover disc" "ser (dc_hwAddress c) disc = Some b1"
    "SendDHCPDiscovery ser reliable c s = Ret (True, s1)" "dhcp_ok s1" "current (dhcp_machine s1) = DhcpDiscoverySent"
    "dhcp_sent s1 = dhcp_sent s @ [dhcp_indication c b1]"
    using client_discovers[of s c ser, OF assms(1-4)] by blast
  obtain req b2 s2 where 2: "client_layer c MsgRequest req" "requested_ip req = Some (YourClientIP offer)" "ser (dc_hwAddress c) req = Some b2"
    "dhcp_HandleNextPacket ser reliable c p1 s1 = Ret (True, s2)" "dhcp_ok s2" "current (dhcp_machine s2) = DhcpRequestSent"
    "dhcp_sent s2 = dhcp_sent s1 @ [dhcp_indication c b2]"
    using client_takes_offer[of s1 c ser p1 offer, OF 1(4,5) assms(3-7)] by blast
  obtain s3 where 3: "dhcp_HandleNextPacket ser reliable c p2 s2 = Ret (True, s3)" "current (dhcp_machine s3) = DhcpAckReceived"
    "dhcp_sent s3 = dhcp_sent s2"
    using client_takes_ack[OF 2(5,6) assms(8-10)] by blast
  show ?thesis
    by (intro exI[of _ disc] exI[of _ b1] exI[of _ s1] exI[of _ req] exI[of _ b2] exI[of _ s2] exI[of _ s3] conjI) (fact 1 2 3)+
qed

theorem dhcp_exchange_completes_witness:
  "\<exists>s1 s2 s3. SendDHCPDiscovery (\<lambda>_ _. Some []) reliable sample_dhcp_call (sample_dhcp DhcpStarted) = Ret (True, s1)
     \<and> dhcp_HandleNextPacket (\<lambda>_ _. Some []) reliable sample_dhcp_call (dhcp_packet 2 [10, 0, 0, 7] [2]) s1 = Ret (True, s2)
     \<and> dhcp_HandleNextPacket (\<lambda>_ _. Some []) reliable sample_dhcp_call (dhcp_packet 2 [10, 0, 0, 7] [5]) s2 = Ret (True, s3)
     \<and> length (dhcp_sent s3) = 2 \<and> current (dhcp_machine s3) = DhcpAckReceived"
proof -
  have s: "dhcp_ok (sample_dhcp DhcpStarted)" "current (dhcp_machine (sample_dhcp DhcpStarted)) = DhcpStarted"
    "length (dc_hwAddress sample_dhcp_call) = 6" "dhcp_sent (sample_dhcp DhcpStarted) = []"
    by (simp_all add: dhcp_ok_def sample_dhcp_def sample_dhcp_call_def)
  have p: "\<exists>d. LayerDHCPv4 (dhcp_packet 2 ip t) = Some d \<and> Operation d = 2 \<and> GetDhcpMessageType (Options d) = msg_type_of_data t" for ip t
    by (simp add: dhcp_packet_def)
  obtain d1 d2 where "LayerDHCPv4 (dhcp_packet 2 [10, 0, 0, 7] [2]) = Some d1" "Operation d1 = 2" "GetDhcpMessageType (Options d1) = Some MsgOffer"
    "LayerDHCPv4 (dhcp_packet 2 [10, 0, 0, 7] [5]) = Some d2" "Operation d2 = 2" "GetDhcpMessageType (Options d2) = Some MsgAck"
    using p[of "[10, 0, 0, 7]" "[2]"] p[of "[10, 0, 0, 7]" "[5]"] by auto
  from dhcp_exchange_completes[OF s(1-3), of "\<lambda>_ _. Some []", OF _ this] show ?thesis using s(4) by force
qed

end
