(* ===== verification/Igmp.thy ===== *)
theory Igmp
  imports Dhcp
begin

text \<open>
  The multicast client of a service (\<open>internal/bbsim/responders/igmp/igmp.go\<close>): the three kinds of
  message it sends and the answers to membership queries. A group address stays the string it is
  configured with. Serialising the layers is \<open>gopacket\<close>'s and is the argument \<open>ser\<close>: from the
  destination address and the IGMP message to the untagged frame, or an error.
\<close>

record IGMP =
  igmp_Type :: uint8
  GroupAddress :: string
  NumberOfGroupRecords :: uint16
  Version :: uint8

definition createIGMPV3MembershipReportPacket :: "string \<Rightarrow> IGMP" where
  "createIGMPV3MembershipReportPacket groupAddress =
     \<lparr>igmp_Type = 0x22, GroupAddress = groupAddress, NumberOfGroupRecords = 1, Version = 3\<rparr>"

definition createIGMPV2MembershipReportPacket :: "string \<Rightarrow> IGMP" where
  "createIGMPV2MembershipReportPacket groupAddress =
     \<lparr>igmp_Type = 0x16, GroupAddress = groupAddress, NumberOfGroupRecords = 0, Version = 2\<rparr>"

definition createIGMPV2LeaveRequestPacket :: "string \<Rightarrow> IGMP" where
  "createIGMPV2LeaveRequestPacket groupAddress =
     \<lparr>igmp_Type = 0x17, GroupAddress = groupAddress, NumberOfGroupRecords = 0, Version = 2\<rparr>"

type_synonym igmp_serializer = "byte list \<Rightarrow> string \<Rightarrow> IGMP \<Rightarrow> byte list option"

definition serializeIgmpPacket ::
  "igmp_serializer \<Rightarrow> int \<Rightarrow> byte list \<Rightarrow> uint8 \<Rightarrow> IGMP \<Rightarrow> byte list option" where
  "serializeIgmpPacket ser cTag srcMac pbit igmp =
     (let destinationIP = (if Version igmp = 3 \<and> igmp_Type igmp = 0x22 then ''224.0.0.22'' else GroupAddress igmp) in
      case ser srcMac destinationIP igmp of None \<Rightarrow> None | Some untagged \<Rightarrow> Some (PushSingleTag cTag untagged pbit))"

text \<open>\<open>ParseUint (Sprintf "%d%d")\<close> at 32 bits: a number that does not fit gives the largest one.\<close>

definition fallback_gem :: "uint32 \<Rightarrow> uint32 \<Rightarrow> uint32" where
  "fallback_gem ponPortId onuId =
     (let v = digits_val (digits (unat ponPortId) @ digits (unat onuId)) in
      if v < 2 ^ 32 then of_nat v else 0xffffffff)"

text \<open>What the senders are called with: the service and its place in the OLT.\<close>

record igmp_call =
  ic_ponPortId :: uint32
  ic_onuId :: uint32
  ic_portNo :: uint32
  ic_uniId :: uint32
  ic_gemPortId :: uint32
  ic_macAddress :: "byte list"
  ic_pbit :: uint8

text \<open>
  The common body of \<open>SendIGMPLeaveGroupV2\<close>, \<open>SendIGMPMembershipReportV2\<close> and
  \<open>SendIGMPMembershipReportV3\<close>; the result is \<open>True\<close> for a nil error.
\<close>

definition send_igmp ::
  "igmp_serializer \<Rightarrow> stream \<Rightarrow> igmp_call \<Rightarrow> int \<Rightarrow> IGMP \<Rightarrow> Indication list \<Rightarrow> bool \<times> Indication list" where
  "send_igmp ser st c cTag igmp sent =
     (case serializeIgmpPacket ser cTag (ic_macAddress c) (ic_pbit c) igmp of
        None \<Rightarrow> (False, sent)
      | Some pkt \<Rightarrow>
          Send st (PktInd \<lparr>pi_IntfType = ''pon'', pi_IntfId = ic_ponPortId c,
            pi_GemportId = (if ic_gemPortId c = 0 then fallback_gem (ic_ponPortId c) (ic_onuId c) else ic_gemPortId c),
            pi_Pkt = pkt, pi_PortNo = ic_portNo c, pi_OnuId = ic_onuId c, pi_UniId = ic_uniId c\<rparr>) sent)"

definition SendIGMPLeaveGroupV2 ::
  "igmp_serializer \<Rightarrow> stream \<Rightarrow> igmp_call \<Rightarrow> int \<Rightarrow> string \<Rightarrow> Indication list \<Rightarrow> bool \<times> Indication list" where
  "SendIGMPLeaveGroupV2 ser st c cTag groupAddress =
     send_igmp ser st c cTag (createIGMPV2LeaveRequestPacket groupAddress)"

definition SendIGMPMembershipReportV2 ::
  "igmp_serializer \<Rightarrow> stream \<Rightarrow> igmp_call \<Rightarrow> int \<Rightarrow> string \<Rightarrow> Indication list \<Rightarrow> bool \<times> Indication list" where
  "SendIGMPMembershipReportV2 ser st c cTag groupAddress =
     send_igmp ser st c cTag (createIGMPV2MembershipReportPacket groupAddress)"

definition SendIGMPMembershipReportV3 ::
  "igmp_serializer \<Rightarrow> stream \<Rightarrow> igmp_call \<Rightarrow> int \<Rightarrow> string \<Rightarrow> Indication list \<Rightarrow> bool \<times> Indication list" where
  "SendIGMPMembershipReportV3 ser st c cTag groupAddress =
     send_igmp ser st c cTag (createIGMPV3MembershipReportPacket groupAddress)"

text \<open>The loop over the joined groups; a failing report does not stop it.\<close>

fun report_groups ::
  "igmp_serializer \<Rightarrow> stream \<Rightarrow> igmp_call \<Rightarrow> int \<Rightarrow> (string, int) gomap \<Rightarrow> Indication list \<Rightarrow> Indication list" where
  "report_groups ser st c vlanId [] sent = sent"
| "report_groups ser st c vlanId ((groupAddr, vlan) # gs) sent =
     report_groups ser st c vlanId gs
       (if vlan = vlanId then snd (SendIGMPMembershipReportV2 ser st c vlan groupAddr sent) else sent)"

text \<open>\<open>groupAddresses\<close> is a map or nil (\<open>None\<close>); ranging over nil does nothing.\<close>

definition igmp_HandleNextPacket ::
  "igmp_serializer \<Rightarrow> stream \<Rightarrow> igmp_call \<Rightarrow> Packet \<Rightarrow> (string, int) gomap option \<Rightarrow> Indication list
   \<Rightarrow> bool \<times> Indication list" where
  "igmp_HandleNextPacket ser st c pkt groupAddresses sent =
     (case getDot1QLayer (Data pkt) of None \<Rightarrow> (False, sent)
      | Some dot1q \<Rightarrow>
        (case LayerIGMP pkt of None \<Rightarrow> (False, sent)
         | Some ty \<Rightarrow>
             if ty = 0x11 then
               (True, case groupAddresses of None \<Rightarrow> sent
                      | Some gs \<Rightarrow> report_groups ser st c (uint (VLANIdentifier dot1q)) gs sent)
             else (True, sent)))"

section \<open>Answers to membership queries\<close>

text \<open>The GEM port that the messages of a call carry.\<close>

definition igmp_gem :: "igmp_call \<Rightarrow> uint32" where
  "igmp_gem c = (if ic_gemPortId c = 0 then fallback_gem (ic_ponPortId c) (ic_onuId c) else ic_gemPortId c)"

text \<open>The packet indication that carries a frame upstream for the service of a call.\<close>

definition igmp_indication :: "igmp_call \<Rightarrow> byte list \<Rightarrow> Indication" where
  "igmp_indication c frame = PktInd \<lparr>pi_IntfType = ''pon'', pi_IntfId = ic_ponPortId c, pi_GemportId = igmp_gem c,
     pi_Pkt = frame, pi_PortNo = ic_portNo c, pi_OnuId = ic_onuId c, pi_UniId = ic_uniId c\<rparr>"

lemma report_reliable:
  assumes "ser (ic_macAddress c) a \<lparr>igmp_Type = 0x16, GroupAddress = a, NumberOfGroupRecords = 0, Version = 2\<rparr> = Some b"
  shows "SendIGMPMembershipReportV2 ser reliable c w a sent
    = (True, sent @ [igmp_indication c (PushSingleTag w b (ic_pbit c))])"
  using assms
  by (simp add: SendIGMPMembershipReportV2_def send_igmp_def serializeIgmpPacket_def Send_def reliable_def
      createIGMPV2MembershipReportPacket_def igmp_gem_def igmp_indication_def)

lemma report_groups_reliable:
  assumes "\<And>g. g \<in> fst ` set gs \<Longrightarrow>
      ser (ic_macAddress c) g \<lparr>igmp_Type = 0x16, GroupAddress = g, NumberOfGroupRecords = 0, Version = 2\<rparr> = Some (frame g)"
  shows "report_groups ser reliable c v gs sent
    = sent @ map (\<lambda>(g, _). igmp_indication c (PushSingleTag v (frame g) (ic_pbit c))) (filter (\<lambda>(_, w). w = v) gs)"
  using assms
proof (induction gs arbitrary: sent)
  case (Cons g gs)
  obtain a w where g: "g = (a, w)" by fastforce
  have IH: "report_groups ser reliable c v gs sent'
      = sent' @ map (\<lambda>(g, _). igmp_indication c (PushSingleTag v (frame g) (ic_pbit c))) (filter (\<lambda>(_, w). w = v) gs)" for sent'
    using Cons.IH Cons.prems by simp
  show ?case using report_reliable[of ser c a "frame a" v sent] Cons.prems[of a] by (auto simp: g IH)
qed simp

text \<open>
  C38: a service answers a membership query with one version 2 membership report for each group it has
  joined on the VLAN of the query, in the order of its table, and with nothing for its other groups. Each
  report is addressed to the group it names, carries the VLAN of the query and the priority of the service,
  and leaves on the PON, ONU, port, UNI and GEM port of the service. (The stream does not fail; \<open>frame g\<close> is
  the untagged frame the serialiser gives for the report of group \<open>g\<close>.)
\<close>

theorem igmp_query_answered:
  assumes "getDot1QLayer (Data pkt) = Some dot1q" "LayerIGMP pkt = Some 0x11"
    and "\<And>g. g \<in> fst ` set gs \<Longrightarrow>
      ser (ic_macAddress c) g \<lparr>igmp_Type = 0x16, GroupAddress = g, NumberOfGroupRecords = 0, Version = 2\<rparr> = Some (frame g)"
  shows "igmp_HandleNextPacket ser reliable c pkt (Some gs) sent =
     (True, sent @ map (\<lambda>(g, vlan). PktInd \<lparr>pi_IntfType = ''pon'', pi_IntfId = ic_ponPortId c, pi_GemportId = igmp_gem c,
           pi_Pkt = PushSingleTag vlan (frame g) (ic_pbit c), pi_PortNo = ic_portNo c, pi_OnuId = ic_onuId c, pi_UniId = ic_uniId c\<rparr>)
       (filter (\<lambda>(g, vlan). vlan = uint (VLANIdentifier dot1q)) gs))"
  using assms(1,2) report_groups_reliable[of gs ser c frame "uint (VLANIdentifier dot1q)" sent, OF assms(3)]
  by (auto simp: igmp_HandleNextPacket_def igmp_indication_def intro!: map_cong)

definition igmp_query :: Packet where
  "igmp_query = \<lparr>Data = PushSingleTag 900 sample_frame 3, LayerEAP = None, LayerEAPOL = None, LayerDHCPv4 = None,
     LayerIGMP = Some 0x11, LayerICMPv6 = False, LayerLLDP = False\<rparr>"

definition sample_igmp_call :: igmp_call where
  "sample_igmp_call = \<lparr>ic_ponPortId = 0, ic_onuId = 1, ic_portNo = 16, ic_uniId = 0, ic_gemPortId = 1024,
     ic_macAddress = [0x2e, 0, 0, 1, 0, 0], ic_pbit = 0\<rparr>"

text \<open>A serialiser whose frames name the group: an Ethernet header and the characters of the address.\<close>

definition sample_report :: "string \<Rightarrow> byte list" where
  "sample_report g = sample_frame @ map of_char g"

theorem igmp_query_answered_witness:
  "igmp_HandleNextPacket (\<lambda>_ g _. Some (sample_report g)) reliable sample_igmp_call igmp_query
        (Some [(''224.1.1.1'', 900), (''224.1.1.2'', 55)]) []
   = (True, [PktInd \<lparr>pi_IntfType = ''pon'', pi_IntfId = 0, pi_GemportId = 1024,
       pi_Pkt = PushSingleTag 900 (sample_report ''224.1.1.1'') 0, pi_PortNo = 16, pi_OnuId = 1, pi_UniId = 0\<rparr>])"
  using igmp_query_answered[of igmp_query "\<lparr>Priority = 3, DropEligible = False, VLANIdentifier = 900,
      dot1q_Type = from_be16 (sample_frame ! 12) (sample_frame ! 13), dot1q_Payload = drop 14 sample_frame\<rparr>"
      "[(''224.1.1.1'', 900), (''224.1.1.2'', 55)]" "\<lambda>_ g _. Some (sample_report g)" sample_igmp_call sample_report "[]"]
  by (simp add: igmp_query_def sample_igmp_call_def igmp_gem_def getDot1QLayer_push[OF sample_frame_ok, of 900 3, simplified])

text \<open>
  The GEM port that stands in when none is known is not unique per ONU, although the comment
  says so: ONU 11 on PON 1 and ONU 1 on PON 11 get the same one.
\<close>

theorem fallback_gem_collision: "fallback_gem 1 11 = 111 \<and> fallback_gem 11 1 = 111"
  by (simp add: fallback_gem_def digits_val_def digits.simps)

end
