(* ===== verification/Service.thy ===== *)
theory Service
  imports Igmp
begin

text \<open>
  A service of a UNI (\<open>internal/bbsim/devices/services.go\<close>): its four state machines, its two
  channels, the handlers that start authentication and DHCP, the loops that serve the channels (one
  iteration each) and the retry timers. The pointers from the service to its UNI, ONU, PON and OLT
  are only read for identifiers; these are the record \<open>place\<close>.
\<close>

section \<open>Data\<close>

record place =
  pl_onuId :: uint32
  pl_ponPortId :: uint32
  pl_portNo :: uint32
  pl_uniId :: uint32
  pl_oltId :: int

text \<open>\<open>internal/bbsim/types/messages.go\<close>: what is sent on \<open>PacketCh\<close> and on \<open>Channel\<close>.\<close>

record OnuPacketMessage =
  pm_IntfId :: uint32
  pm_OnuId :: uint32
  pm_PortNo :: uint32
  pm_Packet :: Packet
  pm_Type :: PacketType
  pm_MacAddress :: "byte list"
  pm_GemPortId :: uint32

datatype service_message =
    StartEAPOL
  | StartDHCP
  | IGMPMembershipReportV2 string
  | IGMPLeaveGroup string
  | IGMPMembershipReportV3 string

datatype service_state = ServiceStateCreated | ServiceStateInitialized | ServiceStateDisabled

datatype service_event = ServiceTxInitialize | ServiceTxDisable

datatype igmp_state = IgmpCreated | IgmpJoinStarted | IgmpJoinError | IgmpLeft

datatype igmp_event = EventIgmpJoinStart | EventIgmpJoinStartV3 | EventIgmpJoinError | EventIgmpLeave

record Service =
  svc_Id :: uint32
  svc_Name :: string
  HwAddress :: "byte list"
  CTag :: int
  STag :: int
  NeedsEapol :: bool
  NeedsDhcp :: bool
  NeedsIgmp :: bool
  NeedsPPPoE :: bool
  TechnologyProfileID :: int
  UniTagMatch :: int
  ConfigureMacAddress :: bool
  EnableMacLearning :: bool
  UsPonCTagPriority :: uint8
  UsPonSTagPriority :: uint8
  DsPonCTagPriority :: uint8
  DsPonSTagPriority :: uint8
  GemPort :: uint32
  groupAddresses :: "(string, int) gomap option"
  svc_InternalState :: "(service_event, service_state) FSM"
  EapolState :: "(eapol_event, eapol_state) FSM"
  DHCPState :: "(dhcp_event, dhcp_state) FSM"
  IGMPState :: "(igmp_event, igmp_state) FSM"
  svc_Channel :: "service_message chan"
  PacketCh :: "OnuPacketMessage chan"
  svc_Stream :: "stream option"

definition service_events :: "(service_event, service_state) EventDesc list" where
  "service_events =
     [\<lparr>Name = ServiceTxInitialize, Src = [ServiceStateCreated, ServiceStateDisabled], Dst = ServiceStateInitialized\<rparr>,
      \<lparr>Name = ServiceTxDisable, Src = [ServiceStateInitialized], Dst = ServiceStateDisabled\<rparr>]"

definition igmp_events :: "(igmp_event, igmp_state) EventDesc list" where
  "igmp_events =
     [\<lparr>Name = EventIgmpJoinStart, Src = [IgmpCreated, IgmpLeft, IgmpJoinError, IgmpJoinStarted], Dst = IgmpJoinStarted\<rparr>,
      \<lparr>Name = EventIgmpJoinStartV3, Src = [IgmpLeft, IgmpJoinError, IgmpJoinStarted], Dst = IgmpJoinStarted\<rparr>,
      \<lparr>Name = EventIgmpJoinError, Src = [IgmpJoinStarted], Dst = IgmpJoinError\<rparr>,
      \<lparr>Name = EventIgmpLeave, Src = [IgmpJoinStarted], Dst = IgmpLeft\<rparr>]"

definition new_service_state :: "(service_event, service_state) FSM" where
  "new_service_state = NewFSM ServiceStateCreated service_events"

definition new_igmp :: "(igmp_event, igmp_state) FSM" where
  "new_igmp = NewFSM IgmpCreated igmp_events"

text \<open>The configuration of a service, the arguments of \<open>NewService\<close>.\<close>

record service_config =
  sc_Id :: uint32
  sc_Name :: string
  sc_HwAddress :: "byte list"
  sc_CTag :: int
  sc_STag :: int
  sc_NeedsEapol :: bool
  sc_NeedsDhcp :: bool
  sc_NeedsIgmp :: bool
  sc_NeedsPPPoE :: bool
  sc_TpId :: int
  sc_UniTagMatch :: int
  sc_ConfigureMac :: bool
  sc_MacLearning :: bool
  sc_UsPonCTagPriority :: uint8
  sc_UsPonSTagPriority :: uint8
  sc_DsPonCTagPriority :: uint8
  sc_DsPonSTagPriority :: uint8

definition NewService :: "service_config \<Rightarrow> Service" where
  "NewService c =
     \<lparr>svc_Id = sc_Id c, svc_Name = sc_Name c, HwAddress = sc_HwAddress c, CTag = sc_CTag c, STag = sc_STag c,
      NeedsEapol = sc_NeedsEapol c, NeedsDhcp = sc_NeedsDhcp c, NeedsIgmp = sc_NeedsIgmp c,
      NeedsPPPoE = sc_NeedsPPPoE c, TechnologyProfileID = sc_TpId c, UniTagMatch = sc_UniTagMatch c,
      ConfigureMacAddress = sc_ConfigureMac c, EnableMacLearning = sc_MacLearning c,
      UsPonCTagPriority = sc_UsPonCTagPriority c, UsPonSTagPriority = sc_UsPonSTagPriority c,
      DsPonCTagPriority = sc_DsPonCTagPriority c, DsPonSTagPriority = sc_DsPonSTagPriority c,
      GemPort = 0, groupAddresses = None,
      svc_InternalState = new_service_state, EapolState = new_eapol, DHCPState = new_dhcp, IGMPState = new_igmp,
      svc_Channel = NilChan, PacketCh = NilChan, svc_Stream = None\<rparr>"

section \<open>Life cycle\<close>

definition UpdateStream :: "stream \<Rightarrow> Service \<Rightarrow> Service" where
  "UpdateStream st s = s\<lparr>svc_Stream := Some st\<rparr>"

text \<open>\<open>enter_initialized\<close> (with the stream that \<open>Event\<close> was given) and \<open>enter_disabled\<close>.\<close>

definition enter_service_initialized :: "stream \<Rightarrow> Service \<Rightarrow> Service go" where
  "enter_service_initialized st s =
     Ret ((UpdateStream st s)\<lparr>PacketCh := make_chan None, svc_Channel := make_chan None\<rparr>)"

definition enter_service_disabled :: "Service \<Rightarrow> Service go" where
  "enter_service_disabled s =
     go_bind (chan_close (PacketCh s)) (\<lambda>_.
     go_bind (chan_close (svc_Channel s)) (\<lambda>_.
     Ret (s\<lparr>EapolState := SetState StateCreated (EapolState s), DHCPState := SetState DhcpCreated (DHCPState s),
            PacketCh := NilChan, svc_Channel := NilChan, GemPort := 0, groupAddresses := None\<rparr>)))"

definition put_service_state :: "(service_event, service_state) FSM \<Rightarrow> Service \<Rightarrow> Service" where
  "put_service_state f s = s\<lparr>svc_InternalState := f\<rparr>"

definition service_callbacks :: "stream \<Rightarrow> (service_event, service_state, Service) callbacks" where
  "service_callbacks st = enter_callbacks (\<lambda>ev s. case ev_Dst ev of
       ServiceStateInitialized \<Rightarrow> enter_service_initialized st s
     | ServiceStateDisabled \<Rightarrow> enter_service_disabled s
     | ServiceStateCreated \<Rightarrow> Ret s)"

definition service_Event ::
  "stream \<Rightarrow> service_event \<Rightarrow> Service \<Rightarrow> ((service_event, service_state) fsm_error option \<times> Service) go" where
  "service_Event st = fsm_Event svc_InternalState put_service_state (service_callbacks st)"

text \<open>\<open>Initialize\<close> and \<open>Disable\<close> log an error of the event and return.\<close>

definition svc_Initialize :: "stream \<Rightarrow> Service \<Rightarrow> Service go" where
  "svc_Initialize st s = go_bind (service_Event st ServiceTxInitialize s) (\<lambda>(_, s'). Ret s')"

definition svc_Disable :: "Service \<Rightarrow> Service go" where
  "svc_Disable s = go_bind (service_Event (\<lambda>_ _. True) ServiceTxDisable s) (\<lambda>(_, s'). Ret s')"

section \<open>Starting authentication and DHCP\<close>

definition put_EapolState :: "(eapol_event, eapol_state) FSM \<Rightarrow> Service \<Rightarrow> Service" where
  "put_EapolState f s = s\<lparr>EapolState := f\<rparr>"

definition put_DHCPState :: "(dhcp_event, dhcp_state) FSM \<Rightarrow> Service \<Rightarrow> Service" where
  "put_DHCPState f s = s\<lparr>DHCPState := f\<rparr>"

definition service_send :: "service_message \<Rightarrow> Service \<Rightarrow> Service go" where
  "service_send m s = go_bind (chan_send (svc_Channel s) m) (\<lambda>c. Ret (s\<lparr>svc_Channel := c\<rparr>))"

definition eapol_callbacks :: "(eapol_event, eapol_state, Service) callbacks" where
  "eapol_callbacks = no_callbacks\<lparr>before_cb := (\<lambda>ev s.
     if ev_Event ev = EventStartAuth then service_send StartEAPOL s else Ret s)\<rparr>"

definition dhcp_callbacks :: "(dhcp_event, dhcp_state, Service) callbacks" where
  "dhcp_callbacks = no_callbacks\<lparr>before_cb := (\<lambda>ev s.
     if ev_Event ev = EventStartDhcp then service_send StartDHCP s else Ret s)\<rparr>"

definition eapol_Event ::
  "eapol_event \<Rightarrow> Service \<Rightarrow> ((eapol_event, eapol_state) fsm_error option \<times> Service) go" where
  "eapol_Event = fsm_Event EapolState put_EapolState eapol_callbacks"

definition dhcp_Event ::
  "dhcp_event \<Rightarrow> Service \<Rightarrow> ((dhcp_event, dhcp_state) fsm_error option \<times> Service) go" where
  "dhcp_Event = fsm_Event DHCPState put_DHCPState dhcp_callbacks"

text \<open>The IGMP machine has no caller in BBSim; its callbacks run after the event.\<close>

definition put_IGMPState :: "(igmp_event, igmp_state) FSM \<Rightarrow> Service \<Rightarrow> Service" where
  "put_IGMPState f s = s\<lparr>IGMPState := f\<rparr>"

definition igmp_callbacks :: "string \<Rightarrow> (igmp_event, igmp_state, Service) callbacks" where
  "igmp_callbacks g = no_callbacks\<lparr>after_cb := (\<lambda>ev s. case ev_Event ev of
       EventIgmpJoinStart \<Rightarrow> service_send (IGMPMembershipReportV2 g) s
     | EventIgmpLeave \<Rightarrow> service_send (IGMPLeaveGroup g) s
     | EventIgmpJoinStartV3 \<Rightarrow> service_send (IGMPMembershipReportV3 g) s
     | EventIgmpJoinError \<Rightarrow> Ret s)\<rparr>"

definition igmp_Event ::
  "string \<Rightarrow> igmp_event \<Rightarrow> Service \<Rightarrow> ((igmp_event, igmp_state) fsm_error option \<times> Service) go" where
  "igmp_Event g = fsm_Event IGMPState put_IGMPState (igmp_callbacks g)"

definition svc_HandleAuth :: "Service \<Rightarrow> Service go" where
  "svc_HandleAuth s =
     (if \<not> NeedsEapol s then Ret s
      else go_bind (eapol_Event EventStartAuth s) (\<lambda>(_, s'). Ret s'))"

definition fttbDpuMgmtServiceName :: string where
  "fttbDpuMgmtServiceName = ''DPU_MGMT_TRAFFIC''"

definition dhcp_tag :: "Service \<Rightarrow> int" where
  "dhcp_tag s = (if svc_Name s = fttbDpuMgmtServiceName then STag s else CTag s)"

definition dhcp_priority :: "Service \<Rightarrow> uint8" where
  "dhcp_priority s = (if svc_Name s = fttbDpuMgmtServiceName then UsPonSTagPriority s else UsPonCTagPriority s)"

definition svc_HandleDhcp :: "uint8 \<Rightarrow> int \<Rightarrow> Service \<Rightarrow> Service go" where
  "svc_HandleDhcp oPbit oVid s =
     (if dhcp_tag s \<noteq> oVid \<or> (dhcp_priority s \<noteq> oPbit \<and> oPbit \<noteq> 255) then Ret s
      else if \<not> NeedsDhcp s then Ret s
      else go_bind (dhcp_Event EventStartDhcp s) (\<lambda>(_, s'). Ret s'))"

text \<open>
  The timers that \<open>enter_auth_started\<close> and \<open>enter_dhcp_started\<close> leave behind, when they expire and the
  OLT is still enabled; \<open>retry\<close> is the configuration's \<open>AuthRetry\<close> or \<open>DhcpRetry\<close>.
\<close>

definition eapol_timeout :: "bool \<Rightarrow> Service \<Rightarrow> Service go" where
  "eapol_timeout retry s =
     (if current (EapolState s) = StateResponseSuccessReceived then Ret s
      else go_bind (eapol_Event EventAuthFailed s) (\<lambda>(_, s1).
           if retry then go_bind (eapol_Event EventStartAuth s1) (\<lambda>(_, s2). Ret s2) else Ret s1))"

definition dhcp_timeout :: "bool \<Rightarrow> Service \<Rightarrow> Service go" where
  "dhcp_timeout retry s =
     (if current (DHCPState s) = DhcpAckReceived then Ret s
      else go_bind (dhcp_Event EventDhcpFailed s) (\<lambda>(_, s1).
           if retry then go_bind (dhcp_Event EventStartDhcp s1) (\<lambda>(_, s2). Ret s2) else Ret s1))"

section \<open>Multicast groups\<close>

definition AddGroupAddress :: "string \<Rightarrow> int \<Rightarrow> Service \<Rightarrow> Service" where
  "AddGroupAddress addr ctag s =
     s\<lparr>groupAddresses := Some (AList.update addr ctag (case groupAddresses s of None \<Rightarrow> [] | Some m \<Rightarrow> m))\<rparr>"

definition RemoveGroupAddress :: "string \<Rightarrow> Service \<Rightarrow> Service" where
  "RemoveGroupAddress addr s =
     (case groupAddresses s of None \<Rightarrow> s | Some m \<Rightarrow> s\<lparr>groupAddresses := Some (AList.delete addr m)\<rparr>)"

section \<open>The channel loops\<close>

text \<open>
  What the loops call outside the service: the digest and the serialisers of the responders. The
  state is the service and the indications sent so far.
\<close>

record responders =
  r_md5 :: "byte list \<Rightarrow> byte list"
  r_dhcp :: dhcp_serializer
  r_igmp :: igmp_serializer

definition dhcp_call_of :: "place \<Rightarrow> Service \<Rightarrow> dhcp_call" where
  "dhcp_call_of pl s =
     \<lparr>dc_onuId = pl_onuId pl, dc_ponPortId = pl_ponPortId pl, dc_portNo = pl_portNo pl, dc_tag = dhcp_tag s,
      dc_gemPortId = GemPort s, dc_uniId = pl_uniId pl, dc_hwAddress = HwAddress s, dc_pbit = dhcp_priority s\<rparr>"

definition igmp_call_of :: "place \<Rightarrow> Service \<Rightarrow> igmp_call" where
  "igmp_call_of pl s =
     \<lparr>ic_ponPortId = pl_ponPortId pl, ic_onuId = pl_onuId pl, ic_portNo = pl_portNo pl, ic_uniId = pl_uniId pl,
      ic_gemPortId = GemPort s, ic_macAddress = HwAddress s, ic_pbit = UsPonCTagPriority s\<rparr>"

definition with_stream :: "Service \<Rightarrow> (stream \<Rightarrow> 'a go) \<Rightarrow> 'a go" where
  "with_stream s f = (case svc_Stream s of None \<Rightarrow> Panic NilDereference | Some st \<Rightarrow> f st)"

definition handleEapolStart ::
  "place \<Rightarrow> Service \<Rightarrow> Indication list \<Rightarrow> (bool \<times> Service \<times> Indication list) go" where
  "handleEapolStart pl s sent =
     with_stream s (\<lambda>st.
       let (ok, io) = SendEapStart st (pl_onuId pl) (pl_ponPortId pl) (pl_portNo pl) (HwAddress s) (GemPort s) (pl_uniId pl)
             \<lparr>machine = EapolState s, eap_sent = sent, eap_out = []\<rparr>
       in Ret (ok, s\<lparr>EapolState := machine io\<rparr>, eap_sent io))"

definition handleDHCPStart ::
  "responders \<Rightarrow> place \<Rightarrow> Service \<Rightarrow> Indication list \<Rightarrow> (bool \<times> Service \<times> Indication list) go" where
  "handleDHCPStart r pl s sent =
     with_stream s (\<lambda>st.
       go_bind (SendDHCPDiscovery (r_dhcp r) st (dhcp_call_of pl s) \<lparr>dhcp_machine = DHCPState s, dhcp_sent = sent\<rparr>) (\<lambda>(ok, io).
       Ret (ok, s\<lparr>DHCPState := dhcp_machine io\<rparr>, dhcp_sent io)))"

definition HandleChannel_msg ::
  "responders \<Rightarrow> place \<Rightarrow> service_message \<Rightarrow> Service \<Rightarrow> Indication list \<Rightarrow> (Service \<times> Indication list) go" where
  "HandleChannel_msg r pl msg s sent =
     (case msg of
        StartEAPOL \<Rightarrow>
          go_bind (handleEapolStart pl s sent) (\<lambda>(ok, s1, sent1).
          if ok then Ret (s1, sent1)
          else go_bind (eapol_Event EventAuthFailed s1) (\<lambda>(_, s2). Ret (s2, sent1)))
      | StartDHCP \<Rightarrow>
          go_bind (handleDHCPStart r pl s sent) (\<lambda>(ok, s1, sent1).
          if ok then Ret (s1, sent1)
          else go_bind (dhcp_Event EventDhcpFailed s1) (\<lambda>(_, s2). Ret (s2, sent1)))
      | IGMPMembershipReportV2 g \<Rightarrow>
          with_stream s (\<lambda>st. Ret (s, snd (SendIGMPMembershipReportV2 (r_igmp r) st (igmp_call_of pl s) (CTag s) g sent)))
      | IGMPLeaveGroup g \<Rightarrow>
          with_stream s (\<lambda>st. Ret (RemoveGroupAddress g s,
            snd (SendIGMPLeaveGroupV2 (r_igmp r) st (igmp_call_of pl s) (CTag s) g sent)))
      | IGMPMembershipReportV3 g \<Rightarrow>
          with_stream s (\<lambda>st. Ret (s, snd (SendIGMPMembershipReportV3 (r_igmp r) st (igmp_call_of pl s) (CTag s) g sent))))"

definition svc_HandlePacket ::
  "responders \<Rightarrow> place \<Rightarrow> OnuPacketMessage \<Rightarrow> Service \<Rightarrow> Indication list \<Rightarrow> (Service \<times> Indication list) go" where
  "svc_HandlePacket r pl msg s sent =
     (case pm_Type msg of
        EAPOL \<Rightarrow>
          with_stream s (\<lambda>st.
          go_bind (eapol_HandleNextPacket (r_md5 r) (pm_OnuId msg) (pm_IntfId msg) (GemPort s) (pl_portNo pl)
              (pl_uniId pl) (svc_Id s) (pl_oltId pl) (pm_Packet msg) st None
              \<lparr>machine = EapolState s, eap_sent = sent, eap_out = []\<rparr>) (\<lambda>io.
          Ret (s\<lparr>EapolState := machine io\<rparr>, eap_sent io)))
      | DHCP \<Rightarrow>
          with_stream s (\<lambda>st.
          go_bind (dhcp_HandleNextPacket (r_dhcp r) st (dhcp_call_of pl s) (pm_Packet msg)
              \<lparr>dhcp_machine = DHCPState s, dhcp_sent = sent\<rparr>) (\<lambda>(_, io).
          Ret (s\<lparr>DHCPState := dhcp_machine io\<rparr>, dhcp_sent io)))
      | IGMP \<Rightarrow>
          with_stream s (\<lambda>st. Ret (s, snd (igmp_HandleNextPacket (r_igmp r) st (igmp_call_of pl s) (pm_Packet msg)
            (groupAddresses s) sent)))
      | _ \<Rightarrow> Ret (s, sent))"

text \<open>
  One iteration of the loops \<open>HandleChannel\<close> and \<open>HandlePackets\<close>: a message is taken from the channel and handled; a loop whose
  channel is closed and drained does nothing any more.
\<close>

definition HandleChannel_step ::
  "responders \<Rightarrow> place \<Rightarrow> Service \<Rightarrow> Indication list \<Rightarrow> (Service \<times> Indication list) go" where
  "HandleChannel_step r pl s sent =
     go_bind (chan_recv (svc_Channel s)) (\<lambda>(m, c).
     case m of None \<Rightarrow> Ret (s, sent) | Some msg \<Rightarrow> HandleChannel_msg r pl msg (s\<lparr>svc_Channel := c\<rparr>) sent)"

definition HandlePackets_step ::
  "responders \<Rightarrow> place \<Rightarrow> Service \<Rightarrow> Indication list \<Rightarrow> (Service \<times> Indication list) go" where
  "HandlePackets_step r pl s sent =
     go_bind (chan_recv (PacketCh s)) (\<lambda>(m, c).
     case m of None \<Rightarrow> Ret (s, sent) | Some msg \<Rightarrow> svc_HandlePacket r pl msg (s\<lparr>PacketCh := c\<rparr>) sent)"

text \<open>
  What the goroutines of a service and the calls of the control API do to it, besides its life cycle: an iteration of one of its two
  loops, an expired timer, a restart of a protocol, a change of its groups, a message that the API puts into its channel, and a new stream.
\<close>

datatype service_task =
    ChannelLoop responders
  | PacketLoop responders
  | AuthTimer bool
  | DhcpTimer bool
  | RestartAuth
  | RestartLease
  | JoinGroup string int
  | LeaveGroup string
  | Notify service_message
  | NewStream stream

definition service_run :: "place \<Rightarrow> service_task \<Rightarrow> Service \<Rightarrow> Indication list \<Rightarrow> (Service \<times> Indication list) go" where
  "service_run pl task s sent =
     (case task of
        ChannelLoop r \<Rightarrow> HandleChannel_step r pl s sent
      | PacketLoop r \<Rightarrow> HandlePackets_step r pl s sent
      | AuthTimer retry \<Rightarrow> go_bind (eapol_timeout retry s) (\<lambda>s'. Ret (s', sent))
      | DhcpTimer retry \<Rightarrow> go_bind (dhcp_timeout retry s) (\<lambda>s'. Ret (s', sent))
      | RestartAuth \<Rightarrow> go_bind (eapol_Event EventStartAuth s) (\<lambda>(_, s'). Ret (s', sent))
      | RestartLease \<Rightarrow> go_bind (dhcp_Event EventStartDhcp s) (\<lambda>(_, s'). Ret (s', sent))
      | JoinGroup a v \<Rightarrow> Ret (AddGroupAddress a v s, sent)
      | LeaveGroup a \<Rightarrow> Ret (RemoveGroupAddress a s, sent)
      | Notify m \<Rightarrow> go_bind (service_send m s) (\<lambda>s'. Ret (s', sent))
      | NewStream st \<Rightarrow> Ret (UpdateStream st s, sent))"

section \<open>Invariant\<close>

definition open_unbuffered :: "'m chan \<Rightarrow> bool" where
  "open_unbuffered c \<longleftrightarrow> (case c of Chan None _ False \<Rightarrow> True | _ \<Rightarrow> False)"

lemma open_unbuffered_iff: "open_unbuffered c \<longleftrightarrow> (\<exists>q. c = Chan None q False)"
  by (auto simp: open_unbuffered_def split: chan.splits option.splits bool.splits)

lemma open_unbuffered_simps [simp]:
  "open_unbuffered (Chan None q False)" "open_unbuffered (make_chan None)" "\<not> open_unbuffered NilChan"
  by (simp_all add: open_unbuffered_def make_chan_def)

text \<open>
  The machines keep their tables, and the two channels exist and are open exactly while the service
  is initialised; then it also has a stream.
\<close>

definition service_ok :: "Service \<Rightarrow> bool" where
  "service_ok s \<longleftrightarrow>
     transitions (svc_InternalState s) = transitions new_service_state
   \<and> transitions (EapolState s) = transitions new_eapol
   \<and> transitions (DHCPState s) = transitions new_dhcp
   \<and> transitions (IGMPState s) = transitions new_igmp
   \<and> (if current (svc_InternalState s) = ServiceStateInitialized
      then open_unbuffered (svc_Channel s) \<and> open_unbuffered (PacketCh s) \<and> svc_Stream s \<noteq> None
      else svc_Channel s = NilChan \<and> PacketCh s = NilChan)"

abbreviation initialized :: "Service \<Rightarrow> bool" where
  "initialized s \<equiv> current (svc_InternalState s) = ServiceStateInitialized"

lemma service_next:
  "map_of (transitions new_service_state) (e, s) =
     (case e of ServiceTxInitialize \<Rightarrow> if s = ServiceStateInitialized then None else Some ServiceStateInitialized
      | ServiceTxDisable \<Rightarrow> if s = ServiceStateInitialized then Some ServiceStateDisabled else None)"
  by (cases e; cases s) (simp_all add: new_service_state_def NewFSM_def service_events_def)

lemma igmp_next:
  "map_of (transitions new_igmp) (e, s) =
     (case e of EventIgmpJoinStart \<Rightarrow> Some IgmpJoinStarted
      | EventIgmpJoinStartV3 \<Rightarrow> if s = IgmpCreated then None else Some IgmpJoinStarted
      | EventIgmpJoinError \<Rightarrow> if s = IgmpJoinStarted then Some IgmpJoinError else None
      | EventIgmpLeave \<Rightarrow> if s = IgmpJoinStarted then Some IgmpLeft else None)"
  by (cases e; cases s) (simp_all add: new_igmp_def NewFSM_def igmp_events_def)

lemma room_Chan [simp]: "chan_room (Chan None q False) n"
  by (simp add: chan_room_def)

lemma service_ok_New [simp]: "service_ok (NewService c)"
  by (simp add: service_ok_def NewService_def new_service_state_def NewFSM_def)

lemma service_ok_channels:
  assumes "service_ok s" "initialized s"
  obtains q p where "svc_Channel s = Chan None q False" "PacketCh s = Chan None p False"
  using assms by (auto simp: service_ok_def open_unbuffered_iff)

interpretation service_machine: fsm_field svc_InternalState put_service_state "service_callbacks st"
  by unfold_locales
     (auto simp: put_service_state_def service_callbacks_def enter_service_initialized_def UpdateStream_def
        enter_service_disabled_def go_simps split: service_state.splits)

lemma service_send_Ret:
  "service_send m s = Ret s' \<longleftrightarrow> (\<exists>k q. svc_Channel s = Chan k q False \<and> chan_room (svc_Channel s) 1
     \<and> s' = s\<lparr>svc_Channel := Chan k (q @ [m]) False\<rparr>)"
  by (auto simp: service_send_def go_simps)

interpretation eapol_field: fsm_field EapolState put_EapolState eapol_callbacks
  by unfold_locales (auto simp: put_EapolState_def eapol_callbacks_def service_send_Ret split: if_splits)

interpretation dhcp_field: fsm_field DHCPState put_DHCPState dhcp_callbacks
  by unfold_locales (auto simp: put_DHCPState_def dhcp_callbacks_def service_send_Ret split: if_splits)

interpretation igmp_field: fsm_field IGMPState put_IGMPState "igmp_callbacks g"
  by unfold_locales (auto simp: put_IGMPState_def igmp_callbacks_def service_send_Ret split: igmp_event.splits)

lemma svc_Initialize_ok:
  assumes "service_ok s"
  shows "\<exists>s'. svc_Initialize st s = Ret s' \<and> service_ok s' \<and> initialized s'"
  using assms
  by (cases "current (svc_InternalState s)")
     (auto simp: svc_Initialize_def service_Event_def fsm_Event_def service_ok_def service_next service_callbacks_def
       enter_service_initialized_def put_service_state_def UpdateStream_def)

lemma svc_Disable_ok:
  assumes "service_ok s"
  shows "\<exists>s'. svc_Disable s = Ret s' \<and> service_ok s' \<and> \<not> initialized s'
     \<and> (initialized s \<longrightarrow> current (EapolState s') = StateCreated \<and> current (DHCPState s') = DhcpCreated
          \<and> GemPort s' = 0 \<and> groupAddresses s' = None)"
proof (cases "initialized s")
  case True
  obtain q p where "svc_Channel s = Chan None q False" "PacketCh s = Chan None p False"
    using service_ok_channels[OF assms True] .
  with True assms show ?thesis
    by (simp add: svc_Disable_def service_Event_def fsm_Event_def service_ok_def service_next service_callbacks_def
       enter_service_disabled_def put_service_state_def)
next
  case False
  with assms show ?thesis
    by (simp add: svc_Disable_def service_Event_def fsm_Event_def service_ok_def service_next)
qed

section \<open>Events on the protocol machines\<close>

lemma service_send_ok:
  assumes "service_ok s"
  shows "initialized s \<Longrightarrow> \<exists>q. service_send m s = Ret (s\<lparr>svc_Channel := Chan None (q @ [m]) False\<rparr>)
           \<and> svc_Channel s = Chan None q False"
    and "\<not> initialized s \<Longrightarrow> service_send m s = Blocked"
  using assms by (auto simp: service_ok_def open_unbuffered_iff service_send_def)

lemma service_ok_upd [simp]:
  "service_ok s \<Longrightarrow> initialized s \<Longrightarrow> service_ok (s\<lparr>svc_Channel := Chan None q False\<rparr>)"
  "service_ok s \<Longrightarrow> transitions fe = transitions new_eapol \<Longrightarrow> service_ok (s\<lparr>EapolState := fe\<rparr>)"
  "service_ok s \<Longrightarrow> transitions fd = transitions new_dhcp \<Longrightarrow> service_ok (s\<lparr>DHCPState := fd\<rparr>)"
  "service_ok s \<Longrightarrow> transitions fi = transitions new_igmp \<Longrightarrow> service_ok (s\<lparr>IGMPState := fi\<rparr>)"
  "service_ok (s\<lparr>groupAddresses := g\<rparr>) = service_ok s"
  "service_ok (s\<lparr>GemPort := gp\<rparr>) = service_ok s"
  "service_ok s \<Longrightarrow> initialized s \<Longrightarrow> service_ok (s\<lparr>PacketCh := Chan None p False\<rparr>)"
  "service_ok s \<Longrightarrow> service_ok (UpdateStream st s)"
  by (auto simp: service_ok_def UpdateStream_def)

text \<open>
  An event of a protocol machine returns or blocks, never panics; it blocks only where a callback
  has a message for the loop of a service that is not initialised.
\<close>

lemma eapol_Event_total:
  assumes "service_ok s"
  shows "(\<exists>r s'. eapol_Event e s = Ret (r, s') \<and> service_ok s'
            \<and> svc_InternalState s' = svc_InternalState s \<and> NeedsEapol s' = NeedsEapol s)
       \<or> (eapol_Event e s = Blocked \<and> e = EventStartAuth \<and> \<not> initialized s
            \<and> current (EapolState s) \<in> {StateCreated, StateResponseSuccessReceived, StateAuthFailed})"
proof -
  have "transitions (EapolState s) = transitions new_eapol"
    using assms by (simp add: service_ok_def)
  then show ?thesis
    using assms service_send_ok[OF assms, of StartEAPOL]
    by (cases e; cases "initialized s")
       (auto simp: eapol_Event_def fsm_Event_def Let_def eapol_next eapol_callbacks_def put_EapolState_def)
qed

lemma dhcp_Event_total:
  assumes "service_ok s"
  shows "(\<exists>r s'. dhcp_Event e s = Ret (r, s') \<and> service_ok s'
            \<and> svc_InternalState s' = svc_InternalState s \<and> NeedsDhcp s' = NeedsDhcp s)
       \<or> (dhcp_Event e s = Blocked \<and> e = EventStartDhcp \<and> \<not> initialized s
            \<and> current (DHCPState s) \<in> {DhcpCreated, DhcpAckReceived, DhcpFailed})"
proof -
  have "transitions (DHCPState s) = transitions new_dhcp"
    using assms by (simp add: service_ok_def)
  then show ?thesis
    using assms service_send_ok[OF assms, of StartDHCP]
    by (cases e; cases "initialized s")
       (auto simp: dhcp_Event_def fsm_Event_def Let_def dhcp_next dhcp_callbacks_def put_DHCPState_def)
qed

lemma service_send_keeps_ok:
  assumes "service_ok s" "service_send m s = Ret s'"
  shows "service_ok s'"
  using assms(2) service_send_ok[OF assms(1), of m] assms(1) by (cases "initialized s") auto

lemma igmp_after_ok:
  assumes "service_ok s" "after_cb (igmp_callbacks g) ev s = Ret s'"
  shows "service_ok s'"
  using assms by (auto simp: igmp_callbacks_def split: igmp_event.splits dest: service_send_keeps_ok)

lemma igmp_Event_ok:
  assumes "service_ok s" "igmp_Event g e s = Ret (r, s')"
  shows "service_ok s'"
proof (cases "map_of (transitions (IGMPState s)) (e, current (IGMPState s))")
  case None
  with assms show ?thesis by (simp add: igmp_Event_def fsm_Event_def)
next
  case (Some d)
  have "transitions (IGMPState s) = transitions new_igmp"
    using assms(1) by (simp add: service_ok_def)
  with assms(1) have upd: "service_ok (put_IGMPState (SetState d (IGMPState s)) s)"
    by (simp add: put_IGMPState_def)
  have cb: "before_cb (igmp_callbacks g) = (\<lambda>_. Ret)" "leave_cb (igmp_callbacks g) = (\<lambda>_. Ret)"
    "enter_cb (igmp_callbacks g) = (\<lambda>_. Ret)"
    by (simp_all add: igmp_callbacks_def no_callbacks_def)
  from assms(2) Some show ?thesis
    by (auto simp: igmp_Event_def fsm_Event_def cb go_simps Let_def split: if_splits
        intro: igmp_after_ok[OF assms(1)] igmp_after_ok[OF upd])
qed

section \<open>Handlers\<close>

lemma svc_HandleAuth_total:
  assumes "service_ok s"
  shows "(\<exists>s'. svc_HandleAuth s = Ret s' \<and> service_ok s')
       \<or> (svc_HandleAuth s = Blocked \<and> NeedsEapol s \<and> \<not> initialized s)"
  using eapol_Event_total[OF assms, of EventStartAuth] assms by (auto simp: svc_HandleAuth_def)

lemma svc_HandleDhcp_total:
  assumes "service_ok s"
  shows "(\<exists>s'. svc_HandleDhcp p v s = Ret s' \<and> service_ok s')
       \<or> (svc_HandleDhcp p v s = Blocked \<and> NeedsDhcp s \<and> \<not> initialized s)"
  using dhcp_Event_total[OF assms, of EventStartDhcp] assms by (auto simp: svc_HandleDhcp_def)

lemma eapol_Event_ok: "eapol_Event e s = Ret (r, s') \<Longrightarrow> service_ok s \<Longrightarrow> service_ok s'"
  using eapol_Event_total[of s e] by auto

lemma dhcp_Event_ok: "dhcp_Event e s = Ret (r, s') \<Longrightarrow> service_ok s \<Longrightarrow> service_ok s'"
  using dhcp_Event_total[of s e] by auto

lemma eapol_timeout_ok: "service_ok s \<Longrightarrow> eapol_timeout b s = Ret s' \<Longrightarrow> service_ok s'"
  by (auto simp: eapol_timeout_def go_simps split: if_splits dest!: eapol_Event_ok)

lemma dhcp_timeout_ok: "service_ok s \<Longrightarrow> dhcp_timeout b s = Ret s' \<Longrightarrow> service_ok s'"
  by (auto simp: dhcp_timeout_def go_simps split: if_splits dest!: dhcp_Event_ok)

lemma with_stream_Ret [simp]:
  "with_stream s f = Ret x \<longleftrightarrow> (\<exists>st. svc_Stream s = Some st \<and> f st = Ret x)"
  by (auto simp: with_stream_def split: option.splits)

lemma service_ok_machines:
  assumes "service_ok s"
  shows "eapol_ok \<lparr>machine = EapolState s, eap_sent = l, eap_out = k\<rparr>"
    and "dhcp_ok \<lparr>dhcp_machine = DHCPState s, dhcp_sent = l\<rparr>"
  using assms by (auto simp: service_ok_def eapol_ok_def dhcp_ok_def)

lemma service_ok_groups [simp]:
  "service_ok (AddGroupAddress a v s) = service_ok s" "service_ok (RemoveGroupAddress a s) = service_ok s"
  by (simp_all add: AddGroupAddress_def RemoveGroupAddress_def split: option.splits)

lemma service_ok_io:
  "service_ok s \<Longrightarrow> eapol_ok io \<Longrightarrow> service_ok (s\<lparr>EapolState := machine io\<rparr>)"
  "service_ok s \<Longrightarrow> dhcp_ok io' \<Longrightarrow> service_ok (s\<lparr>DHCPState := dhcp_machine io'\<rparr>)"
  by (simp_all add: eapol_ok_def dhcp_ok_def)

lemma handleEapolStart_ok:
  assumes "service_ok s" "handleEapolStart pl s sent = Ret (ok, s', sent')"
  shows "service_ok s'"
  using assms(2) service_ok_io(1)[OF assms(1) SendEapStart_ok[OF service_ok_machines(1)[OF assms(1)]]]
  by (auto simp: handleEapolStart_def split_beta Let_def)

lemma handleDHCPStart_ok:
  assumes "service_ok s" "handleDHCPStart r pl s sent = Ret (ok, s', sent')"
  shows "service_ok s'"
  using assms(2) service_ok_io(2)[OF assms(1) SendDHCPDiscovery_ok[OF service_ok_machines(2)[OF assms(1)]]]
  by (auto simp: handleDHCPStart_def go_simps)

lemma HandleChannel_msg_ok:
  assumes "service_ok s" "HandleChannel_msg r pl msg s sent = Ret (s', sent')"
  shows "service_ok s'"
  using assms
  by (cases msg)
     (auto simp: HandleChannel_msg_def go_simps split: if_splits
       dest!: handleEapolStart_ok[OF assms(1)] handleDHCPStart_ok[OF assms(1)] eapol_Event_ok dhcp_Event_ok)

lemma svc_HandlePacket_ok:
  assumes "service_ok s" "svc_HandlePacket r pl msg s sent = Ret (s', sent')"
  shows "service_ok s'"
  using assms(2,1)
    service_ok_io(1)[OF assms(1) eapol_HandleNextPacket_ok[OF service_ok_machines(1)[OF assms(1)]]]
    service_ok_io(2)[OF assms(1) dhcp_HandleNextPacket_ok[OF service_ok_machines(2)[OF assms(1)]]]
  by (cases "pm_Type msg") (auto simp: svc_HandlePacket_def go_simps)

text \<open>Nothing but the life cycle itself changes whether a service is initialised.\<close>

lemma eapol_Event_keeps:
  assumes "service_ok s" "eapol_Event e s = Ret (r, s')"
  shows "service_ok s' \<and> svc_InternalState s' = svc_InternalState s"
  using eapol_Event_total[OF assms(1), of e] assms(2) by auto

lemma dhcp_Event_keeps:
  assumes "service_ok s" "dhcp_Event e s = Ret (r, s')"
  shows "service_ok s' \<and> svc_InternalState s' = svc_InternalState s"
  using dhcp_Event_total[OF assms(1), of e] assms(2) by auto

lemma timeouts_keep:
  assumes "service_ok s"
  shows "eapol_timeout b s = Ret s' \<Longrightarrow> service_ok s' \<and> svc_InternalState s' = svc_InternalState s"
    and "dhcp_timeout b s = Ret s' \<Longrightarrow> service_ok s' \<and> svc_InternalState s' = svc_InternalState s"
  using assms by (auto simp: eapol_timeout_def dhcp_timeout_def go_simps split: if_splits dest!: eapol_Event_keeps[rotated] dhcp_Event_keeps[rotated])

lemma groups_InternalState [simp]:
  "svc_InternalState (AddGroupAddress a v s) = svc_InternalState s" "svc_InternalState (RemoveGroupAddress a s) = svc_InternalState s"
  by (simp_all add: AddGroupAddress_def RemoveGroupAddress_def split: option.splits)

lemma starts_keep:
  assumes "service_ok s"
  shows "handleEapolStart pl s sent = Ret (ok, s', sent') \<Longrightarrow> service_ok s' \<and> svc_InternalState s' = svc_InternalState s"
    and "handleDHCPStart r pl s sent = Ret (ok, s', sent') \<Longrightarrow> service_ok s' \<and> svc_InternalState s' = svc_InternalState s"
  using handleEapolStart_ok[OF assms] handleDHCPStart_ok[OF assms]
  by (auto simp: handleEapolStart_def handleDHCPStart_def go_simps Let_def split_beta)

lemma HandleChannel_msg_keeps:
  assumes "service_ok s" "HandleChannel_msg r pl msg s sent = Ret (s', sent')"
  shows "service_ok s' \<and> svc_InternalState s' = svc_InternalState s"
  using HandleChannel_msg_ok[OF assms] assms
  by (cases msg)
     (auto simp: HandleChannel_msg_def go_simps split: if_splits dest!: starts_keep[OF assms(1)] eapol_Event_keeps[rotated] dhcp_Event_keeps[rotated])

lemma svc_HandlePacket_keeps:
  assumes "service_ok s" "svc_HandlePacket r pl msg s sent = Ret (s', sent')"
  shows "service_ok s' \<and> svc_InternalState s' = svc_InternalState s"
  using svc_HandlePacket_ok[OF assms] assms(2)
  by (cases "pm_Type msg") (auto simp: svc_HandlePacket_def go_simps)

lemma loop_steps_keep:
  assumes "service_ok s"
  shows "HandleChannel_step r pl s sent = Ret (s', sent') \<Longrightarrow> service_ok s' \<and> svc_InternalState s' = svc_InternalState s"
    and "HandlePackets_step r pl s sent = Ret (s', sent') \<Longrightarrow> service_ok s' \<and> svc_InternalState s' = svc_InternalState s"
proof -
  have run: "initialized s \<and> (\<exists>q p. svc_Channel s = Chan None q False \<and> PacketCh s = Chan None p False)"
    if "chan_recv (svc_Channel s) \<noteq> Blocked \<or> chan_recv (PacketCh s) \<noteq> Blocked"
    using that assms by (auto simp: service_ok_def open_unbuffered_iff split: if_split_asm)
  have recv: "\<exists>x q'. m = Some x \<and> c = Chan None q' False" if "chan_recv (Chan None q False) = Ret (m, c)" for q :: "'m list" and m c
    using that by (cases q) auto
  show "service_ok s' \<and> svc_InternalState s' = svc_InternalState s" if step: "HandleChannel_step r pl s sent = Ret (s', sent')"
  proof -
    obtain m c where m: "chan_recv (svc_Channel s) = Ret (m, c)"
      "(case m of None \<Rightarrow> Ret (s, sent) | Some msg \<Rightarrow> HandleChannel_msg r pl msg (s\<lparr>svc_Channel := c\<rparr>) sent) = Ret (s', sent')"
      using step by (auto simp: HandleChannel_step_def go_simps)
    then obtain x q where "m = Some x" "c = Chan None q False" "initialized s" using run recv by fastforce
    with m(2) HandleChannel_msg_keeps[of "s\<lparr>svc_Channel := c\<rparr>"] assms show ?thesis by fastforce
  qed
  show "service_ok s' \<and> svc_InternalState s' = svc_InternalState s" if step: "HandlePackets_step r pl s sent = Ret (s', sent')"
  proof -
    obtain m c where m: "chan_recv (PacketCh s) = Ret (m, c)"
      "(case m of None \<Rightarrow> Ret (s, sent) | Some msg \<Rightarrow> svc_HandlePacket r pl msg (s\<lparr>PacketCh := c\<rparr>) sent) = Ret (s', sent')"
      using step by (auto simp: HandlePackets_step_def go_simps)
    then obtain x q where "m = Some x" "c = Chan None q False" "initialized s" using run recv by fastforce
    with m(2) svc_HandlePacket_keeps[of "s\<lparr>PacketCh := c\<rparr>"] assms show ?thesis by fastforce
  qed
qed

lemma service_send_keeps:
  assumes "service_ok s" "service_send m s = Ret s'"
  shows "service_ok s' \<and> svc_InternalState s' = svc_InternalState s"
  using service_send_keeps_ok[OF assms] assms(2) by (auto simp: service_send_Ret)

lemma service_run_keeps:
  assumes "service_ok s" "service_run pl task s sent = Ret (s', sent')"
  shows "service_ok s' \<and> svc_InternalState s' = svc_InternalState s"
  using assms(2)
  by (cases task)
     (auto simp: service_run_def go_simps assms(1) UpdateStream_def[of _ s] service_ok_upd(8)[OF assms(1), unfolded UpdateStream_def]
       dest!: loop_steps_keep[OF assms(1)] timeouts_keep[OF assms(1)] eapol_Event_keeps[OF assms(1)] dhcp_Event_keeps[OF assms(1)]
         service_send_keeps[OF assms(1)])

section \<open>Runs of a service\<close>

text \<open>The operations that the rest of the program performs on a service, in any order.\<close>

datatype service_op =
    OpInitialize stream
  | OpDisable
  | OpAuth
  | OpDhcp uint8 int
  | OpEapolTimeout bool
  | OpDhcpTimeout bool
  | OpMessage responders place service_message "Indication list"
  | OpPacket responders place OnuPacketMessage "Indication list"
  | OpJoin string int
  | OpLeave string
  | OpSetGem uint32
  | OpUpdateStream stream
  | OpIgmp string igmp_event

definition service_exec :: "service_op \<Rightarrow> Service \<Rightarrow> Service go" where
  "service_exec op s =
     (case op of
        OpInitialize st \<Rightarrow> svc_Initialize st s
      | OpDisable \<Rightarrow> svc_Disable s
      | OpAuth \<Rightarrow> svc_HandleAuth s
      | OpDhcp p v \<Rightarrow> svc_HandleDhcp p v s
      | OpEapolTimeout b \<Rightarrow> eapol_timeout b s
      | OpDhcpTimeout b \<Rightarrow> dhcp_timeout b s
      | OpMessage r pl m sent \<Rightarrow> go_bind (HandleChannel_msg r pl m s sent) (\<lambda>(s', _). Ret s')
      | OpPacket r pl m sent \<Rightarrow> go_bind (svc_HandlePacket r pl m s sent) (\<lambda>(s', _). Ret s')
      | OpJoin a v \<Rightarrow> Ret (AddGroupAddress a v s)
      | OpLeave a \<Rightarrow> Ret (RemoveGroupAddress a s)
      | OpSetGem g \<Rightarrow> Ret (s\<lparr>GemPort := g\<rparr>)
      | OpUpdateStream st \<Rightarrow> Ret (UpdateStream st s)
      | OpIgmp g e \<Rightarrow> go_bind (igmp_Event g e s) (\<lambda>(_, s'). Ret s'))"

inductive service_reachable :: "Service \<Rightarrow> bool" where
  new: "service_reachable (NewService c)"
| step: "service_reachable s \<Longrightarrow> service_exec op s = Ret s' \<Longrightarrow> service_reachable s'"

lemma service_exec_ok:
  assumes "service_ok s" "service_exec op s = Ret s'"
  shows "service_ok s'"
proof (cases op)
  case (OpInitialize st)
  with assms svc_Initialize_ok[OF assms(1), of st] show ?thesis by (auto simp: service_exec_def)
next
  case OpDisable
  with assms svc_Disable_ok[OF assms(1)] show ?thesis by (auto simp: service_exec_def)
next
  case OpAuth
  with assms svc_HandleAuth_total[OF assms(1)] show ?thesis by (auto simp: service_exec_def)
next
  case (OpDhcp p v)
  with assms svc_HandleDhcp_total[OF assms(1), of p v] show ?thesis by (auto simp: service_exec_def)
next
  case (OpEapolTimeout b)
  with assms eapol_timeout_ok[OF assms(1)] show ?thesis by (auto simp: service_exec_def)
next
  case (OpDhcpTimeout b)
  with assms dhcp_timeout_ok[OF assms(1)] show ?thesis by (auto simp: service_exec_def)
next
  case (OpMessage r pl m sent)
  with assms HandleChannel_msg_ok[OF assms(1)] show ?thesis by (auto simp: service_exec_def go_simps)
next
  case (OpPacket r pl m sent)
  with assms svc_HandlePacket_ok[OF assms(1)] show ?thesis by (auto simp: service_exec_def go_simps)
next
  case (OpIgmp g e)
  with assms igmp_Event_ok[OF assms(1)] show ?thesis by (auto simp: service_exec_def go_simps)
qed (use assms in \<open>auto simp: service_exec_def\<close>)

lemma service_reachable_ok: "service_reachable s \<Longrightarrow> service_ok s"
  by (induction rule: service_reachable.induct) (auto intro: service_exec_ok)

text \<open>How the loops can fail: a missing stream or layer, a short packet, a hardware address that is no transaction id.\<close>

definition loop_panic :: "go_panic \<Rightarrow> bool" where
  "loop_panic p \<longleftrightarrow> p \<in> {NilDereference, IndexOutOfRange, FatalLog}"

definition loop_op :: "service_op \<Rightarrow> bool" where
  "loop_op op \<longleftrightarrow> (case op of OpMessage r pl m sent \<Rightarrow> True | OpPacket r pl m sent \<Rightarrow> True | _ \<Rightarrow> False)"

lemma dhcp_panics:
  "SendDHCPDiscovery ser st c io = Panic p \<Longrightarrow> p = FatalLog" "dhcp_HandleNextPacket ser st c pkt io = Panic p \<Longrightarrow> p = FatalLog"
  by (auto simp: SendDHCPDiscovery_def dhcp_HandleNextPacket_def sendDHCPRequest_def createDHCPDisc_def createDHCPReq_def
      createDefaultDHCPReq_def macAddressToTxId_def go_bind_eq_Panic Let_def split_beta split: option.split_asm if_split_asm)

lemma eapol_panics: "eapol_HandleNextPacket md5 onu pon gem port uni svc olt pkt st client io = Panic p \<Longrightarrow> loop_panic p"
  by (auto simp: eapol_HandleNextPacket_def authenticator_packet_def sendEapolPktOut_def getMD5Data_def go_bind_eq_Panic loop_panic_def
      Let_def split_beta split: option.split_asm if_split_asm)

lemma with_stream_Panic: "with_stream s f = Panic p \<Longrightarrow> p = NilDereference \<or> (\<exists>st. f st = Panic p)"
  by (auto simp: with_stream_def split: option.split_asm)

lemma event_no_panic:
  assumes "service_ok s"
  shows "eapol_Event e s \<noteq> Panic p" "dhcp_Event e' s \<noteq> Panic p"
  using eapol_Event_total[OF assms, of e] dhcp_Event_total[OF assms, of e'] by auto

lemma starts_panic:
  "handleEapolStart pl s sent = Panic p \<Longrightarrow> loop_panic p" "handleDHCPStart r pl s sent = Panic p \<Longrightarrow> loop_panic p"
  by (auto simp: handleEapolStart_def handleDHCPStart_def go_bind_eq_Panic loop_panic_def Let_def split_beta dest!: with_stream_Panic dhcp_panics)

lemma HandleChannel_msg_panics:
  assumes "service_ok s" "HandleChannel_msg r pl m s sent = Panic p"
  shows "loop_panic p"
proof (cases m)
  case StartEAPOL
  then consider "handleEapolStart pl s sent = Panic p"
    | ok s1 sent1 where "handleEapolStart pl s sent = Ret (ok, s1, sent1)" "eapol_Event EventAuthFailed s1 = Panic p"
    using assms(2) by (auto simp: HandleChannel_msg_def go_bind_eq_Panic split: if_split_asm)
  then show ?thesis by cases (use starts_panic(1) starts_keep(1)[OF assms(1)] event_no_panic(1) in blast)+
next
  case StartDHCP
  then consider "handleDHCPStart r pl s sent = Panic p"
    | ok s1 sent1 where "handleDHCPStart r pl s sent = Ret (ok, s1, sent1)" "dhcp_Event EventDhcpFailed s1 = Panic p"
    using assms(2) by (auto simp: HandleChannel_msg_def go_bind_eq_Panic split: if_split_asm)
  then show ?thesis by cases (use starts_panic(2) starts_keep(2)[OF assms(1)] event_no_panic(2) in blast)+
qed (use assms(2) in \<open>auto simp: HandleChannel_msg_def loop_panic_def dest!: with_stream_Panic\<close>)

lemma svc_HandlePacket_panics: "svc_HandlePacket r pl m s sent = Panic p \<Longrightarrow> loop_panic p"
  by (cases "pm_Type m")
     (auto simp: svc_HandlePacket_def go_bind_eq_Panic split_beta dest!: with_stream_Panic dhcp_panics eapol_panics,
      auto simp: loop_panic_def)

lemma igmp_Event_no_panic:
  assumes "service_ok s"
  shows "igmp_Event g e s \<noteq> Panic p"
proof -
  have send: "service_send m t \<noteq> Panic p" if "service_ok t" for m t
    using service_send_ok[OF that, of m] by (cases "initialized t") auto
  have "service_ok (s\<lparr>IGMPState := SetState d (IGMPState s)\<rparr>)" for d using assms by (simp add: service_ok_def)
  then show ?thesis using send assms
    by (auto simp: igmp_Event_def fsm_Event_def igmp_callbacks_def no_callbacks_def put_IGMPState_def go_bind_eq_Panic Let_def
        split: option.split_asm if_split_asm igmp_event.split_asm)
qed

lemma service_exec_panics:
  assumes "service_ok s" "service_exec op s = Panic p"
  shows "loop_op op \<and> loop_panic p"
proof -
  have start: "svc_HandleAuth s \<noteq> Panic p" "svc_HandleDhcp a b s \<noteq> Panic p" "svc_Initialize st s \<noteq> Panic p" "svc_Disable s \<noteq> Panic p" for a b st
    using svc_HandleAuth_total[OF assms(1)] svc_HandleDhcp_total[OF assms(1), of a b] svc_Initialize_ok[OF assms(1), of st] svc_Disable_ok[OF assms(1)] by auto
  have timers: "eapol_timeout b s \<noteq> Panic p" "dhcp_timeout b s \<noteq> Panic p" for b
    using assms(1) by (auto simp: eapol_timeout_def dhcp_timeout_def go_bind_eq_Panic event_no_panic split: if_split_asm dest!: eapol_Event_keeps[rotated] dhcp_Event_keeps[rotated])
  show ?thesis using assms(2)
    by (cases op) (auto simp: service_exec_def loop_op_def go_bind_eq_Panic split_beta start timers igmp_Event_no_panic[OF assms(1)]
        dest: HandleChannel_msg_panics[OF assms(1)] svc_HandlePacket_panics)
qed

text \<open>
  C18: the life cycle of a service is safe in every order of operations. From every reachable state,
  \<open>Initialize\<close> returns and leaves the service initialised; \<open>Disable\<close> returns, leaves it not initialised
  and resets authentication, DHCP, GEM port and groups of a service that was. No operation panics by sending on
  a closed channel or by closing a channel that is nil or closed: only the two loops, handling a message or a packet, can panic, and
  only by a nil dereference, an index out of range or a fatal log.
\<close>

theorem service_lifecycle_safe:
  assumes "service_reachable s"
  shows "(\<exists>s'. svc_Initialize st s = Ret s' \<and> initialized s')
       \<and> (\<exists>s'. svc_Disable s = Ret s' \<and> \<not> initialized s'
            \<and> (initialized s \<longrightarrow> current (EapolState s') = StateCreated \<and> current (DHCPState s') = DhcpCreated
                 \<and> GemPort s' = 0 \<and> groupAddresses s' = None))
       \<and> (service_exec op s = Panic p \<longrightarrow> loop_op op \<and> p \<notin> {SendOnClosedChannel, CloseOfClosedChannel, CloseOfNilChannel}
            \<and> p \<in> {NilDereference, IndexOutOfRange, FatalLog})"
  using svc_Initialize_ok[OF service_reachable_ok[OF assms], of st] svc_Disable_ok[OF service_reachable_ok[OF assms]]
    service_exec_panics[OF service_reachable_ok[OF assms], of op p]
  by (auto simp: loop_panic_def)

definition sample_service_config :: service_config where
  "sample_service_config = \<lparr>sc_Id = 0, sc_Name = ''hsia'', sc_HwAddress = [0x2e, 0, 0, 1, 0, 0], sc_CTag = 900, sc_STag = 900,
     sc_NeedsEapol = True, sc_NeedsDhcp = True, sc_NeedsIgmp = False, sc_NeedsPPPoE = False, sc_TpId = 64,
     sc_UniTagMatch = 0, sc_ConfigureMac = False, sc_MacLearning = True, sc_UsPonCTagPriority = 0,
     sc_UsPonSTagPriority = 0, sc_DsPonCTagPriority = 0, sc_DsPonSTagPriority = 0\<rparr>"

theorem service_lifecycle_safe_witness:
  "(\<exists>s'. svc_Initialize reliable (NewService sample_service_config) = Ret s' \<and> initialized s')
   \<and> (\<exists>s'. svc_Disable (NewService sample_service_config) = Ret s' \<and> \<not> initialized s')
   \<and> service_exec OpDisable (NewService sample_service_config) \<noteq> Panic CloseOfNilChannel"
  using service_lifecycle_safe[OF service_reachable.new, of reliable sample_service_config OpDisable CloseOfNilChannel] by auto

text \<open>
  C39: exactly when starting authentication hangs. On a reachable service, \<open>HandleAuth\<close> waits for ever on
  the nil channel if and only if the service needs EAPOL, is not initialised and its machine accepts
  a start; in every other case it returns.
\<close>

theorem service_auth_blocks_iff:
  assumes "service_reachable s"
  shows "svc_HandleAuth s = Blocked \<longleftrightarrow>
     NeedsEapol s \<and> \<not> initialized s \<and> current (EapolState s) \<in> {StateCreated, StateResponseSuccessReceived, StateAuthFailed}"
proof -
  have ok: "service_ok s" by (rule service_reachable_ok[OF assms])
  then have tr: "transitions (EapolState s) = transitions new_eapol" by (simp add: service_ok_def)
  have "svc_HandleAuth s = Blocked"
    if "NeedsEapol s" "\<not> initialized s" "current (EapolState s) \<in> {StateCreated, StateResponseSuccessReceived, StateAuthFailed}"
    using that tr service_send_ok(2)[OF ok]
    by (auto simp: svc_HandleAuth_def eapol_Event_def fsm_Event_def eapol_next eapol_callbacks_def)
  moreover have "svc_HandleAuth s \<noteq> Blocked"
    if "\<not> (NeedsEapol s \<and> \<not> initialized s \<and> current (EapolState s) \<in> {StateCreated, StateResponseSuccessReceived, StateAuthFailed})"
    using that eapol_Event_total[OF ok, of EventStartAuth] by (auto simp: svc_HandleAuth_def)
  ultimately show ?thesis by blast
qed

theorem service_auth_blocks_iff_witness:
  "svc_HandleAuth (NewService sample_service_config) = Blocked"
  using service_auth_blocks_iff[OF service_reachable.new, of sample_service_config]
  by (simp add: NewService_def sample_service_config_def new_service_state_def new_eapol_def NewFSM_def)

text \<open>
  The retry timer hangs after a disable. If a service is disabled while its authentication timer
  runs and retries are configured, the timer blocks for ever inside the event of the EAPOL machine,
  from every reachable initialised state.
\<close>

theorem eapol_retry_blocks_after_disable:
  assumes "service_reachable s" "initialized s"
  shows "\<exists>s'. svc_Disable s = Ret s' \<and> eapol_timeout True s' = Blocked"
proof -
  obtain s' where s': "svc_Disable s = Ret s'" "service_ok s'" "\<not> initialized s'" "current (EapolState s') = StateCreated"
    using svc_Disable_ok[OF service_reachable_ok[OF assms(1)]] assms(2) by auto
  have "transitions (EapolState s') = transitions new_eapol"
    using s'(2) by (simp add: service_ok_def)
  then have "eapol_timeout True s' = Blocked"
    using s'(3,4) service_send_ok(2)[OF s'(2)]
    by (simp add: eapol_timeout_def eapol_Event_def fsm_Event_def eapol_next eapol_callbacks_def)
  with s'(1) show ?thesis by blast
qed

theorem eapol_retry_blocks_after_disable_witness:
  "\<exists>s s'. svc_Initialize reliable (NewService sample_service_config) = Ret s
     \<and> svc_Disable s = Ret s' \<and> eapol_timeout True s' = Blocked"
proof -
  obtain s where s: "svc_Initialize reliable (NewService sample_service_config) = Ret s" "initialized s"
    using svc_Initialize_ok[OF service_ok_New] by blast
  have "service_reachable s"
    by (rule service_reachable.step[OF service_reachable.new, of "OpInitialize reliable" sample_service_config])
       (simp add: service_exec_def s(1))
  from eapol_retry_blocks_after_disable[OF this s(2)] s(1) show ?thesis by blast
qed

end
