(* ===== verification/OmciCodec.thy ===== *)
theory OmciCodec
  imports Packets
begin

unbundle bit_operations_syntax

text \<open>
  Byte-level encodings of the OMCI channel: entity ids (\<open>internal/common/omci/onu_mib_db.go\<close>), the
  hexadecimal encoding in which VOLTHA exchanges OMCI packets and the checks that
  \<open>ParseOpenOltOmciPacket\<close> makes before it decodes one (\<open>omci_base.go\<close>). Decoding itself is
  \<open>omci-lib-go\<close>'s and is the argument \<open>decode\<close>.
\<close>

section \<open>Entity ids\<close>

type_synonym EntityId = "byte list"

definition ToUint16 :: "EntityId \<Rightarrow> uint16 go" where
  "ToUint16 e = (case e of a # b # _ \<Rightarrow> Ret (from_be16 a b) | _ \<Rightarrow> Panic IndexOutOfRange)"

definition FromUint16 :: "uint16 \<Rightarrow> EntityId" where
  "FromUint16 i = be16 i"

definition ToUint32 :: "EntityId \<Rightarrow> uint32 go" where
  "ToUint32 e = (case e of
     a # b # c # d # _ \<Rightarrow> Ret (push_bit 24 (ucast a) OR push_bit 16 (ucast b) OR push_bit 8 (ucast c) OR ucast d)
   | _ \<Rightarrow> Panic IndexOutOfRange)"

definition EntityId_Equals :: "EntityId \<Rightarrow> EntityId \<Rightarrow> bool" where
  "EntityId_Equals e i \<longleftrightarrow> e = i"

definition cardHolderSlotID :: byte where
  "cardHolderSlotID = 0x01"

definition GenerateUniPortEntityId :: "uint32 \<Rightarrow> EntityId" where
  "GenerateUniPortEntityId i = [cardHolderSlotID, ucast i]"

section \<open>Hexadecimal encoding\<close>

definition hex_nibble :: "byte \<Rightarrow> byte" where
  "hex_nibble c = (c AND 15) + drop_bit 6 c * 9"

fun HexDecode :: "byte list \<Rightarrow> byte list go" where
  "HexDecode [] = Ret []"
| "HexDecode [c] = Panic IndexOutOfRange"
| "HexDecode (c # d # pkt) =
     go_bind (HexDecode pkt) (\<lambda>p. Ret ((push_bit 4 (hex_nibble c) + hex_nibble d) # p))"

text \<open>\<open>encoding/hex\<close> writes lower-case digits.\<close>

definition hex_digit :: "byte \<Rightarrow> byte" where
  "hex_digit n = (if n < 10 then 0x30 + n else 0x57 + n)"

definition HexEncode :: "byte list \<Rightarrow> byte list" where
  "HexEncode omciPkt = concat (map (\<lambda>b. [hex_digit (drop_bit 4 b), hex_digit (b AND 15)]) omciPkt)"

section \<open>Receiving an OMCI packet\<close>

datatype omci_error = TooSmall | TooSmallForBaseline | WrongExtendedLength | WrongDeviceIdentifier | NotDecoded

definition BaselineIdent :: byte where
  "BaselineIdent = 0x0A"

definition ExtendedIdent :: byte where
  "ExtendedIdent = 0x0B"

text \<open>The trailer length that the baseline format fixes at 40, in bytes 42 and 43.\<close>

definition fix_trailer :: "byte list \<Rightarrow> byte list" where
  "fix_trailer m = (if from_be16 (m ! 42) (m ! 43) \<noteq> 40 then m[42 := 0, 43 := 40] else m)"

definition check_omci :: "byte list \<Rightarrow> omci_error + byte list" where
  "check_omci rxMsg =
     (if length rxMsg < 10 then Inl TooSmall
      else if rxMsg ! 3 = BaselineIdent then
        (if length rxMsg \<ge> 44 then Inr (fix_trailer rxMsg) else Inl TooSmallForBaseline)
      else if rxMsg ! 3 = ExtendedIdent then
        (if length rxMsg > 1980 then Inl WrongExtendedLength else Inr rxMsg)
      else Inl WrongDeviceIdentifier)"

definition ParseOpenOltOmciPacket :: "(byte list \<Rightarrow> 'p option) \<Rightarrow> byte list \<Rightarrow> (omci_error + 'p) go" where
  "ParseOpenOltOmciPacket decode pkt =
     go_bind (HexDecode pkt) (\<lambda>rxMsg.
     Ret (case check_omci rxMsg of Inl e \<Rightarrow> Inl e
          | Inr m \<Rightarrow> (case decode m of None \<Rightarrow> Inl NotDecoded | Some p \<Rightarrow> Inr p)))"

section \<open>Round trips\<close>

lemma EntityId_roundtrip [simp]: "ToUint16 (FromUint16 i) = Ret i"
  by (simp add: ToUint16_def FromUint16_def be16_def)

lemma FromUint16_inj: "FromUint16 i = FromUint16 j \<Longrightarrow> i = j"
  by (metis EntityId_roundtrip go.inject(1))

lemma hex_nibble_table: "list_all (\<lambda>k. hex_nibble (hex_digit (of_nat k)) = of_nat k) [0..<16]"
  by code_simp

lemma hex_nibble_digit:
  assumes "n < 16"
  shows "hex_nibble (hex_digit n) = n"
proof -
  have "unat n \<in> set [0..<16]" using assms by (simp add: word_less_nat_alt)
  with hex_nibble_table have "hex_nibble (hex_digit (of_nat (unat n))) = of_nat (unat n)"
    unfolding list_all_iff by blast
  then show ?thesis by simp
qed

lemma nibbles:
  fixes b :: byte
  shows "drop_bit 4 b < 16" "b AND 15 < 16" "push_bit 4 (drop_bit 4 b) + (b AND 15) = b"
proof -
  have m: "(15 :: byte) = mask 4" by (simp add: mask_eq_exp_minus_1)
  have "push_bit 4 (drop_bit 4 b) + take_bit 4 b = b"
    by (metis add.commute bits_ident)
  then show "push_bit 4 (drop_bit 4 b) + (b AND 15) = b"
    by (simp add: m take_bit_eq_mask del: mask_numeral)
  show "b AND 15 < 16"
    unfolding m take_bit_eq_mask[symmetric]
    by (simp add: word_less_nat_alt unsigned_take_bit_eq take_bit_nat_less_exp[of 4, simplified])
  show "drop_bit 4 b < 16"
    using unsigned_less[of b, where 'a = nat]
    by (simp add: word_less_nat_alt unsigned_drop_bit_eq) (simp add: drop_bit_eq_div take_bit_nat_eq_self)
qed

lemma HexDecode_HexEncode: "HexDecode (HexEncode b) = Ret b"
proof (induction b)
  case Nil
  then show ?case by (simp add: HexEncode_def)
next
  case (Cons x b)
  then show ?case
    by (simp add: HexEncode_def hex_nibble_digit nibbles)
qed

text \<open>
  C32: a baseline OMCI message of at least 44 bytes that arrives in hexadecimal is decoded from its own
  bytes, with the trailer length set to 40 whatever the sender wrote; and every byte but the two of
  that length is the sender's.
\<close>

theorem baseline_omci_received:
  assumes "length m \<ge> 44" "m ! 3 = BaselineIdent" "decode (m[42 := 0, 43 := 40]) = Some p"
  shows "ParseOpenOltOmciPacket decode (HexEncode m) = Ret (Inr p)"
proof -
  have "fix_trailer m = m[42 := 0, 43 := 40]"
  proof (cases "from_be16 (m ! 42) (m ! 43) = 40")
    case True
    then have "be16 40 = [m ! 42, m ! 43]"
      by (metis be16_from_be16)
    then have "m ! 42 = 0" "m ! 43 = 40"
      by (simp_all add: be16_def)
    with True show ?thesis
      by (simp add: fix_trailer_def) (metis list_update_id)
  qed (simp add: fix_trailer_def)
  with assms show ?thesis
    by (simp add: ParseOpenOltOmciPacket_def HexDecode_HexEncode check_omci_def)
qed

theorem baseline_omci_received_witness:
  "ParseOpenOltOmciPacket Some (HexEncode (replicate 3 0 @ [0x0A] @ replicate 40 7)) =
     Ret (Inr ((replicate 3 0 @ [0x0A] @ replicate 40 7)[42 := 0, 43 := 40]))"
  by (rule baseline_omci_received) (simp_all add: BaselineIdent_def nth_append)

end
