(* ===== verification/OmciMsgs.thy ===== *)
theory OmciMsgs
  imports OmciCodec Types
begin

unbundle bit_operations_syntax

text \<open>
  OMCI requests and responses (\<open>internal/common/omci\<close>: \<open>mibpackets.go\<close>, \<open>get.go\<close>, \<open>set.go\<close>,
  \<open>create.go\<close>, \<open>delete.go\<close>, \<open>reboot.go\<close>, \<open>sync_time.go\<close>, \<open>test.go\<close>, \<open>image.go\<close>, \<open>alarms.go\<close>).

  A request is the message type together with the layer that \<open>omci-lib-go\<close> decoded for it; the layer is
  an option because every \<open>Parse\<close> function fails when it is missing. A response is a value of
  \<open>omci_response\<close>; turning it into bytes is \<open>omci-lib-go\<close>'s and is the argument \<open>ser\<close>, which may
  fail. Attributes that are constants or random numbers are not part of the response value.
\<close>

section \<open>Requests\<close>

type_synonym ClassID = uint16

text \<open>\<open>omci.MeBasePacket\<close>.\<close>

record me_base =
  EntityClass :: ClassID
  EntityInstance :: uint16

record SetRequest =
  set_base :: me_base
  AdministrativeState :: "uint8 option"
  TCont_AllocId :: "uint16 option"
  ManagedEntityId :: "uint16 option"

record StartSoftwareDownload =
  ssd_base :: me_base
  ssd_Extended :: bool
  WindowSize :: uint8
  ssd_ImageSize :: uint32

record DownloadSection =
  dls_base :: me_base
  SectionNumber :: uint8
  SectionData :: "byte list"

record EndSoftwareDownload =
  esd_base :: me_base
  CRC32 :: uint32
  esd_ImageSize :: uint32

datatype omci_request =
    MibResetRequest
  | MibUploadRequest
  | MibUploadNextRequest "uint16 option"
  | GetRequest "(me_base \<times> uint16) option"
  | SetRequestMsg "SetRequest option"
  | CreateRequest "me_base option"
  | DeleteRequest "me_base option"
  | RebootRequest "me_base option"
  | TestRequest "me_base option"
  | SynchronizeTimeRequest "me_base option"
  | StartSoftwareDownloadRequest "StartSoftwareDownload option"
  | DownloadSectionRequest "DownloadSection option"
  | DownloadSectionRequestWithResponse "DownloadSection option"
  | EndSoftwareDownloadRequest "EndSoftwareDownload option"
  | ActivateSoftwareRequest "me_base option"
  | CommitSoftwareRequest "me_base option"
  | GetAllAlarmsRequest
  | GetAllAlarmsNextRequest "uint16 option"
  | UnsupportedRequest

record OMCI =
  TransactionID :: uint16
  IsExtended :: bool
  Request :: omci_request

section \<open>Responses\<close>

datatype Results = Success | ProcessingError | ParameterError | AttributeFailure

datatype get_attributes =
    SoftwareImageAttributes string nat nat
  | OnuDataAttributes uint8
  | StateAttributes nat nat
  | OnuGAttributes "byte list"
  | ConstantAttributes

record OnuAlarmInfoMapKey =
  MeInstance :: uint16
  MeClassID :: ClassID

record OnuAlarmInfo =
  SequenceNo :: uint8
  AlarmBitMap :: "byte list"

type_synonym alarm_table = "(OnuAlarmInfoMapKey, OnuAlarmInfo) gomap"

text \<open>\<open>me.AttributeValueMap\<close>: attribute names with numbers or octet strings.\<close>

datatype attr_value = AttrNum nat | AttrOctets "byte list"

type_synonym attr_map = "(string \<times> attr_value) list"

datatype omci_response =
    MibResetResponse
  | MibUploadResponse uint16
  | MibUploadNextResponse ClassID uint16 attr_map
  | GetResponse ClassID uint16 uint16 get_attributes
  | SetResponse ClassID uint16 Results
  | CreateResponse ClassID uint16 Results
  | DeleteResponse ClassID uint16
  | RebootResponse ClassID uint16
  | TestResponse ClassID uint16
  | TestResult ClassID uint16
  | SynchronizeTimeResponse ClassID uint16
  | StartSoftwareDownloadResponse ClassID uint16 uint8
  | DownloadSectionResponse ClassID uint16 uint8
  | EndSoftwareDownloadResponse ClassID uint16 Results
  | ActivateSoftwareResponse ClassID uint16
  | CommitSoftwareResponse ClassID uint16
  | GetAllAlarmsResponse uint16
  | GetAllAlarmsNextResponse ClassID uint16 "byte list" "(uint16 \<times> byte list) list"
  | AlarmNotification ClassID uint16 uint8 "byte list"

text \<open>The bytes of a response with its transaction id, in baseline or extended format.\<close>

type_synonym omci_serializer = "uint16 \<Rightarrow> bool \<Rightarrow> omci_response \<Rightarrow> byte list option"

section \<open>Class ids\<close>

definition OnuDataClassID :: ClassID where "OnuDataClassID = 2"
definition SoftwareImageClassID :: ClassID where "SoftwareImageClassID = 7"
definition PptpEthernetUniClassID :: ClassID where "PptpEthernetUniClassID = 11"
definition PptpPotsUniClassID :: ClassID where "PptpPotsUniClassID = 53"
definition OnuGClassID :: ClassID where "OnuGClassID = 256"
definition TContClassID :: ClassID where "TContClassID = 262"
definition AniGClassID :: ClassID where "AniGClassID = 263"
definition UniGClassID :: ClassID where "UniGClassID = 264"
definition GemPortNetworkCtpClassID :: ClassID where "GemPortNetworkCtpClassID = 268"

text \<open>
  The classes whose answer to a get request has constant or random attributes: ONU2-G, IP host
  configuration, VoIP configuration, ANI-G, and the performance-monitoring classes.
\<close>

definition constant_classes :: "ClassID list" where
  "constant_classes = [257, 134, 138, 263, 322, 321, 24, 312, 341, 334, 425]"

lemmas class_ids =
  OnuDataClassID_def SoftwareImageClassID_def PptpEthernetUniClassID_def PptpPotsUniClassID_def OnuGClassID_def
  TContClassID_def AniGClassID_def UniGClassID_def GemPortNetworkCtpClassID_def

section \<open>Get\<close>

definition createSoftwareImageResponse ::
  "uint16 \<Rightarrow> uint16 \<Rightarrow> uint16 \<Rightarrow> uint16 \<Rightarrow> string \<Rightarrow> string \<Rightarrow> string \<Rightarrow> omci_response" where
  "createSoftwareImageResponse attributeMask entityInstance activeImageEntityId committedImageEntityId
     standbyImageVersion activeImageVersion committedImageVersion =
     (let active = (if entityInstance = activeImageEntityId then 1 else 0);
          committed = (if entityInstance = committedImageEntityId then 1 else 0);
          version = (if entityInstance = committedImageEntityId then committedImageVersion
                     else if entityInstance = activeImageEntityId then activeImageVersion else standbyImageVersion)
      in GetResponse SoftwareImageClassID entityInstance attributeMask (SoftwareImageAttributes version committed active))"

definition createStateResponse :: "ClassID \<Rightarrow> uint16 \<Rightarrow> uint16 \<Rightarrow> bool \<Rightarrow> omci_response" where
  "createStateResponse cls attributeMask entityID onuDown =
     (let admin = (if \<not> onuDown then 0 else 1) in
      GetResponse cls entityID attributeMask (StateAttributes admin (if cls = UniGClassID then 0 else admin)))"

definition createOnuDataResponse :: "uint16 \<Rightarrow> uint16 \<Rightarrow> uint8 \<Rightarrow> omci_response" where
  "createOnuDataResponse attributeMask entityID mds =
     GetResponse OnuDataClassID entityID attributeMask (OnuDataAttributes mds)"

definition createOnugResponse :: "uint16 \<Rightarrow> uint16 \<Rightarrow> SerialNumber \<Rightarrow> omci_response" where
  "createOnugResponse attributeMask entityID onuSn =
     GetResponse OnuGClassID entityID attributeMask (OnuGAttributes (VendorId onuSn @ VendorSpecific onuSn))"

text \<open>The images of an ONU as \<open>CreateGetResponse\<close> is told of them.\<close>

record images =
  im_active :: uint16
  im_committed :: uint16
  im_standbyVersion :: string
  im_activeVersion :: string
  im_committedVersion :: string

definition CreateGetResponse ::
  "omci_serializer \<Rightarrow> OMCI \<Rightarrow> (me_base \<times> uint16) option \<Rightarrow> SerialNumber \<Rightarrow> uint8 \<Rightarrow> images \<Rightarrow> bool \<Rightarrow> byte list option" where
  "CreateGetResponse ser m req onuSn mds im onuDown =
     (case req of None \<Rightarrow> None
      | Some (b, attrMask) \<Rightarrow>
          let cls = EntityClass b; inst = EntityInstance b in
          if cls = OnuGClassID then ser (TransactionID m) (IsExtended m) (createOnugResponse attrMask inst onuSn)
          else if cls = SoftwareImageClassID then
            ser (TransactionID m) (IsExtended m) (createSoftwareImageResponse attrMask inst (im_active im) (im_committed im)
              (im_standbyVersion im) (im_activeVersion im) (im_committedVersion im))
          else if cls \<in> {UniGClassID, PptpEthernetUniClassID, PptpPotsUniClassID} then
            ser (TransactionID m) (IsExtended m) (createStateResponse cls attrMask inst onuDown)
          else if cls = OnuDataClassID then ser (TransactionID m) (IsExtended m) (createOnuDataResponse attrMask inst mds)
          else if cls \<in> set constant_classes then
            ser (TransactionID m) (IsExtended m) (GetResponse cls inst attrMask ConstantAttributes)
          else None)"

section \<open>Set, create, delete, reboot, time and test\<close>

definition CreateMibResetResponse :: "omci_serializer \<Rightarrow> uint16 \<Rightarrow> byte list option" where
  "CreateMibResetResponse ser tid = ser tid False MibResetResponse"

definition CreateSetResponse :: "omci_serializer \<Rightarrow> OMCI \<Rightarrow> SetRequest option \<Rightarrow> Results \<Rightarrow> byte list option" where
  "CreateSetResponse ser m req result =
     (case req of None \<Rightarrow> None
      | Some r \<Rightarrow> ser (TransactionID m) False (SetResponse (EntityClass (set_base r)) (EntityInstance (set_base r)) result))"

definition CreateCreateResponse :: "omci_serializer \<Rightarrow> OMCI \<Rightarrow> me_base option \<Rightarrow> Results \<Rightarrow> byte list option" where
  "CreateCreateResponse ser m req result =
     (case req of None \<Rightarrow> None
      | Some b \<Rightarrow> ser (TransactionID m) False (CreateResponse (EntityClass b) (EntityInstance b) result))"

definition CreateDeleteResponse :: "omci_serializer \<Rightarrow> OMCI \<Rightarrow> me_base option \<Rightarrow> byte list option" where
  "CreateDeleteResponse ser m req =
     (case req of None \<Rightarrow> None
      | Some b \<Rightarrow> ser (TransactionID m) False (DeleteResponse (EntityClass b) (EntityInstance b)))"

definition CreateRebootResponse :: "omci_serializer \<Rightarrow> OMCI \<Rightarrow> me_base option \<Rightarrow> byte list option" where
  "CreateRebootResponse ser m req =
     (case req of None \<Rightarrow> None
      | Some b \<Rightarrow> ser (TransactionID m) False (RebootResponse (EntityClass b) (EntityInstance b)))"

definition CreateSyncTimeResponse :: "omci_serializer \<Rightarrow> OMCI \<Rightarrow> me_base option \<Rightarrow> byte list option" where
  "CreateSyncTimeResponse ser m req =
     (case req of None \<Rightarrow> None
      | Some b \<Rightarrow> ser (TransactionID m) False (SynchronizeTimeResponse (EntityClass b) (EntityInstance b)))"

definition CreateTestResponse :: "omci_serializer \<Rightarrow> OMCI \<Rightarrow> me_base option \<Rightarrow> byte list option" where
  "CreateTestResponse ser m req =
     (case req of None \<Rightarrow> None
      | Some b \<Rightarrow> ser (TransactionID m) False (TestResponse (EntityClass b) (EntityInstance b)))"

definition CreateTestResult :: "omci_serializer \<Rightarrow> ClassID \<Rightarrow> uint16 \<Rightarrow> uint16 \<Rightarrow> byte list option" where
  "CreateTestResult ser classID instID tid =
     (if classID = AniGClassID then ser tid False (TestResult classID instID) else None)"

section \<open>Software download\<close>

text \<open>
  \<open>CreateStartSoftwareDownloadResponse\<close> and \<open>ComputeDownloadSectionsCount\<close> go on with a nil message
  when the layer is missing.
\<close>

definition CreateStartSoftwareDownloadResponse ::
  "omci_serializer \<Rightarrow> OMCI \<Rightarrow> StartSoftwareDownload option \<Rightarrow> byte list option go" where
  "CreateStartSoftwareDownloadResponse ser m req =
     (case req of None \<Rightarrow> Panic NilDereference
      | Some r \<Rightarrow> Ret (ser (TransactionID m) (IsExtended m)
          (StartSoftwareDownloadResponse (EntityClass (ssd_base r)) (EntityInstance (ssd_base r)) (WindowSize r))))"

definition ComputeDownloadSectionsCount :: "StartSoftwareDownload option \<Rightarrow> uint32 go" where
  "ComputeDownloadSectionsCount req =
     (case req of None \<Rightarrow> Panic NilDereference
      | Some r \<Rightarrow>
          let size = (if ssd_Extended r then 1965 else 31);
              n = ssd_ImageSize r div size
          in Ret (if ssd_ImageSize r mod size > 0 then n + 1 else n))"

definition CreateDownloadSectionResponse :: "omci_serializer \<Rightarrow> OMCI \<Rightarrow> DownloadSection option \<Rightarrow> byte list option" where
  "CreateDownloadSectionResponse ser m req =
     (case req of None \<Rightarrow> None
      | Some r \<Rightarrow> ser (TransactionID m) (IsExtended m)
          (DownloadSectionResponse (EntityClass (dls_base r)) (EntityInstance (dls_base r)) (SectionNumber r)))"

definition CreateEndSoftwareDownloadResponse ::
  "omci_serializer \<Rightarrow> OMCI \<Rightarrow> EndSoftwareDownload option \<Rightarrow> Results \<Rightarrow> byte list option" where
  "CreateEndSoftwareDownloadResponse ser m req status =
     (case req of None \<Rightarrow> None
      | Some r \<Rightarrow> ser (TransactionID m) (IsExtended m)
          (EndSoftwareDownloadResponse (EntityClass (esd_base r)) (EntityInstance (esd_base r)) status))"

definition CreateActivateSoftwareResponse :: "omci_serializer \<Rightarrow> OMCI \<Rightarrow> me_base option \<Rightarrow> byte list option" where
  "CreateActivateSoftwareResponse ser m req =
     (case req of None \<Rightarrow> None
      | Some b \<Rightarrow> ser (TransactionID m) (IsExtended m) (ActivateSoftwareResponse (EntityClass b) (EntityInstance b)))"

definition CreateCommitSoftwareResponse :: "omci_serializer \<Rightarrow> OMCI \<Rightarrow> me_base option \<Rightarrow> byte list option" where
  "CreateCommitSoftwareResponse ser m req =
     (case req of None \<Rightarrow> None
      | Some b \<Rightarrow> ser (TransactionID m) (IsExtended m) (CommitSoftwareResponse (EntityClass b) (EntityInstance b)))"

section \<open>Alarms\<close>

text \<open>
  \<open>CreateUniStatusAlarm\<close>: alarm 0 of the PPTP class is the most significant bit of the first octet.
  When the notification cannot be serialised the result is nil and an empty bitmap.
\<close>

definition CreateUniStatusAlarm ::
  "omci_serializer \<Rightarrow> bool \<Rightarrow> uint16 \<Rightarrow> uint8 \<Rightarrow> byte list option \<times> byte list" where
  "CreateUniStatusAlarm ser raiseAlarm entityId sequenceNo =
     (let bitmap = (if raiseAlarm then 0x80 else 0) # replicate 27 0 in
      case ser 0 False (AlarmNotification PptpEthernetUniClassID entityId sequenceNo bitmap) of
        None \<Rightarrow> (None, replicate 28 0) | Some pkt \<Rightarrow> (Some pkt, bitmap))"

definition pptp_key :: "uint16 \<Rightarrow> OnuAlarmInfoMapKey" where
  "pptp_key i = \<lparr>MeInstance = i, MeClassID = PptpEthernetUniClassID\<rparr>"

text \<open>The instances 257 to 260 of the loops over \<open>i\<close>.\<close>

definition count_alarms :: "alarm_table \<Rightarrow> uint16" where
  "count_alarms alarms = of_nat (length (filter (\<lambda>i. map_of alarms (pptp_key i) \<noteq> None) [257, 258, 259, 260]))"

definition CreateGetAllAlarmsResponse :: "omci_serializer \<Rightarrow> OMCI \<Rightarrow> alarm_table \<Rightarrow> byte list option" where
  "CreateGetAllAlarmsResponse ser m alarms =
     ser (TransactionID m) (IsExtended m) (GetAllAlarmsResponse (count_alarms alarms))"

definition additional_alarms :: "alarm_table \<Rightarrow> (uint16 \<times> byte list) list" where
  "additional_alarms alarms =
     List.map_filter (\<lambda>i. map_option (\<lambda>a. (i, AlarmBitMap a)) (map_of alarms (pptp_key i))) [258, 259, 260]"

definition CreateGetAllAlarmsNextResponse ::
  "omci_serializer \<Rightarrow> OMCI \<Rightarrow> uint16 option \<Rightarrow> alarm_table \<Rightarrow> byte list option" where
  "CreateGetAllAlarmsNextResponse ser m req alarms =
     (case req of None \<Rightarrow> None
      | Some sq \<Rightarrow>
          if sq > 4 then None
          else case map_of alarms (pptp_key (257 + sq)) of None \<Rightarrow> None
          | Some info \<Rightarrow>
              ser (TransactionID m) (IsExtended m)
                (GetAllAlarmsNextResponse PptpEthernetUniClassID (257 + sq) (AlarmBitMap info)
                   (if IsExtended m \<and> sq = 0 then additional_alarms alarms else [])))"

section \<open>MIB upload\<close>

record MibDbEntry =
  classId :: ClassID
  entityId :: EntityId
  params :: attr_map
  packet :: "byte list option"

record MibDb =
  NumberOfBaselineCommands :: uint16
  NumberOfExtendedCommands :: uint16
  baselineItems :: "MibDbEntry list"
  extendedResponses :: "byte list list"

definition SetTxIdInEncodedPacket :: "byte list \<Rightarrow> uint16 \<Rightarrow> byte list go" where
  "SetTxIdInEncodedPacket pkt txId = (if length pkt < 2 then Panic IndexOutOfRange else Ret (be16 txId @ drop 2 pkt))"

definition CreateMibUploadResponse :: "omci_serializer \<Rightarrow> OMCI \<Rightarrow> MibDb \<Rightarrow> byte list option" where
  "CreateMibUploadResponse ser m db =
     ser (TransactionID m) (IsExtended m)
       (MibUploadResponse (if IsExtended m then NumberOfExtendedCommands db else NumberOfBaselineCommands db))"

definition CreateMibUploadNextResponse ::
  "omci_serializer \<Rightarrow> OMCI \<Rightarrow> uint16 option \<Rightarrow> MibDb \<Rightarrow> byte list option go" where
  "CreateMibUploadNextResponse ser m req db =
     (case req of None \<Rightarrow> Ret None
      | Some sq \<Rightarrow>
          if sq > (if IsExtended m then NumberOfExtendedCommands db else NumberOfBaselineCommands db) then Ret None
          else if IsExtended m then
            (if unat sq < length (extendedResponses db)
             then go_bind (SetTxIdInEncodedPacket (extendedResponses db ! unat sq) (TransactionID m)) (\<lambda>p. Ret (Some p))
             else Panic IndexOutOfRange)
          else
            (if unat sq < length (baselineItems db) then
               (let e = baselineItems db ! unat sq in
                case packet e of
                  Some pkt \<Rightarrow> go_bind (SetTxIdInEncodedPacket pkt (TransactionID m)) (\<lambda>p. Ret (Some p))
                | None \<Rightarrow>
                    go_bind (ToUint16 (entityId e)) (\<lambda>i.
                    case ser (TransactionID m) False (MibUploadNextResponse (classId e) i (params e)) of
                      None \<Rightarrow> Panic FatalLog | Some p \<Rightarrow> Ret (Some p)))
             else Panic IndexOutOfRange))"

section \<open>Properties\<close>

definition ceil_div :: "nat \<Rightarrow> nat \<Rightarrow> nat" where
  "ceil_div x s = (if x mod s > 0 then x div s + 1 else x div s)"

lemma ceil_div_enough:
  assumes "s > 0"
  shows "x \<le> ceil_div x s * s"
proof -
  obtain q m where qm: "q = x div s" "m = x mod s" "q * s + m = x" "m < s"
    using assms by (metis div_mult_mod_eq mod_less_divisor)
  then show ?thesis
    unfolding ceil_div_def qm(1,2)[symmetric] by (cases "m > 0") (auto simp: add_mult_distrib)
qed

lemma ceil_div_least:
  assumes "s > 0" "x \<le> k * s"
  shows "ceil_div x s \<le> k"
proof (rule ccontr)
  assume "\<not> ceil_div x s \<le> k"
  then have "k \<le> x div s" "x mod s = 0 \<longrightarrow> k < x div s" by (auto simp: ceil_div_def split: if_splits)
  then have "k * s + x mod s < x div s * s + x mod s \<or> (k * s \<le> x div s * s \<and> x mod s > 0)"
    using assms(1) by (cases "x mod s = 0") simp_all
  with assms(2) div_mult_mod_eq[of x s] show False by linarith
qed

text \<open>
  C31: the ONU expects exactly as many sections as the image needs: the smallest number whose sections
  (31 bytes in baseline, 1965 in extended format) hold the announced image, for every 32-bit size.
\<close>

theorem download_sections_exact:
  "\<exists>n. ComputeDownloadSectionsCount (Some r) = Ret n
     \<and> unat (ssd_ImageSize r) \<le> unat n * (if ssd_Extended r then 1965 else 31)
     \<and> (\<forall>k. unat (ssd_ImageSize r) \<le> k * (if ssd_Extended r then 1965 else 31) \<longrightarrow> unat n \<le> k)"
proof -
  define w :: uint32 where "w = (if ssd_Extended r then 1965 else 31)"
  define x where "x = ssd_ImageSize r"
  have w: "unat w = (if ssd_Extended r then 1965 else 31)" "unat w > 1" by (auto simp: w_def)
  define n where "n = (if x mod w > 0 then x div w + 1 else x div w)"
  have "unat x < 2 ^ 32" using unsigned_less[of x, where 'a = nat] by simp
  then have "unat x div 2 < 2 ^ 31" by simp
  moreover have "unat x div unat w \<le> unat x div 2" using w(2) by (intro div_le_mono2) auto
  ultimately have "unat x div unat w + 1 < 2 ^ 32" by simp
  then have "unat (x div w + 1) = unat x div unat w + 1"
    by (subst unat_add_lem[THEN iffD1]) (simp_all add: unat_div)
  moreover have "x mod w > 0 \<longleftrightarrow> unat x mod unat w > 0"
    by (simp add: word_less_nat_alt unat_mod)
  ultimately have "unat n = ceil_div (unat x) (unat w)"
    by (simp add: n_def ceil_div_def unat_div)
  moreover have "ComputeDownloadSectionsCount (Some r) = Ret n"
    by (simp add: ComputeDownloadSectionsCount_def Let_def n_def x_def w_def)
  ultimately show ?thesis
    using ceil_div_enough[of "unat w" "unat x"] ceil_div_least[of "unat w" "unat x"] w
    by (auto simp: x_def)
qed

theorem download_sections_exact_witness:
  "\<exists>n. ComputeDownloadSectionsCount (Some \<lparr>ssd_base = \<lparr>EntityClass = 7, EntityInstance = 1\<rparr>, ssd_Extended = False,
        WindowSize = 31, ssd_ImageSize = 63\<rparr>) = Ret n \<and> unat n \<le> 3 \<and> 63 \<le> unat n * 31"
  using download_sections_exact[of "\<lparr>ssd_base = \<lparr>EntityClass = 7, EntityInstance = 1\<rparr>, ssd_Extended = False,
        WindowSize = 31, ssd_ImageSize = 63\<rparr>"] by auto

end
