(* ===== verification/Options.thy ===== *)
theory Options
  imports GoPrelude
begin

text \<open>
  The part of the configuration that the devices are built from (\<open>internal/common/options.go\<close>): tag
  allocation, the description of the services of a UNI, and the resource ranges of the PON ports with
  their validation. The YAML and command-line readers are not modelled; the values they produce are
  the arguments here.
\<close>

section \<open>Services\<close>

definition tagAllocationValues :: "string list" where
  "tagAllocationValues = [''unknown'', ''shared'', ''unique'']"

definition TagAllocationUnique :: string where
  "TagAllocationUnique = ''unique''"

definition is_space :: "char \<Rightarrow> bool" where
  "is_space c \<longleftrightarrow> c \<in> {CHR 0x09, CHR 0x0A, CHR 0x0B, CHR 0x0C, CHR 0x0D, CHR '' ''}"

definition TrimSpace :: "string \<Rightarrow> string" where
  "TrimSpace s = rev (dropWhile is_space (rev (dropWhile is_space s)))"

definition tagAllocationFromString :: "string \<Rightarrow> nat option" where
  "tagAllocationFromString s = find_idx (\<lambda>v. v = TrimSpace s) tagAllocationValues"

record ServiceYaml =
  sy_Name :: string
  sy_CTag :: int
  sy_STag :: int
  sy_NeedsEapol :: bool
  sy_NeedsDhcp :: bool
  sy_NeedsIgmp :: bool
  sy_NeedsPPPoE :: bool
  sy_CTagAllocation :: string
  sy_STagAllocation :: string
  sy_TechnologyProfileID :: int
  sy_UniTagMatch :: int
  sy_ConfigureMacAddress :: bool
  sy_EnableMacLearning :: bool
  sy_UsPonCTagPriority :: uint8
  sy_UsPonSTagPriority :: uint8
  sy_DsPonCTagPriority :: uint8
  sy_DsPonSTagPriority :: uint8

text \<open>\<open>loadBBSimServices\<close> on the services that the YAML parser read.\<close>

definition check_service :: "ServiceYaml \<Rightarrow> unit \<Rightarrow> unit go" where
  "check_service s _ =
     (if sy_CTagAllocation s = [] \<or> sy_STagAllocation s = [] then Panic FatalLog
      else if tagAllocationFromString (sy_CTagAllocation s) = None then Panic FatalLog
      else Ret ())"

definition loadBBSimServices :: "ServiceYaml list \<Rightarrow> ServiceYaml list go" where
  "loadBBSimServices services = go_bind (go_fold check_service services ()) (\<lambda>_. Ret services)"

section \<open>PON ranges\<close>

datatype PonTechnology = GPON | XGSPON

definition PonTechnologyFromString :: "string \<Rightarrow> PonTechnology option" where
  "PonTechnologyFromString s = (if s = ''GPON'' then Some GPON else if s = ''XGS-PON'' then Some XGSPON else None)"

record IdRange =
  StartId :: uint32
  EndId :: uint32

record PonRangeConfig =
  PonRange :: IdRange
  Technology :: string
  OnuRange :: IdRange
  AllocIdRange :: IdRange
  GemportRange :: IdRange

record PonPortsConfig =
  Number :: uint32
  Ranges :: "PonRangeConfig list"

definition in_range :: "uint32 \<Rightarrow> IdRange \<Rightarrow> bool" where
  "in_range i r \<longleftrightarrow> i \<ge> StartId r \<and> i \<le> EndId r"

definition GetPonConfigById :: "PonPortsConfig option \<Rightarrow> uint32 \<Rightarrow> PonRangeConfig option" where
  "GetPonConfigById cfg i =
     (case cfg of None \<Rightarrow> None | Some c \<Rightarrow> find (\<lambda>r. in_range i (PonRange r)) (Ranges c))"

definition getDefaultPonsConfig :: "uint32 \<Rightarrow> uint32 \<Rightarrow> uint32 \<Rightarrow> nat \<Rightarrow> PonPortsConfig" where
  "getDefaultPonsConfig PonPorts OnusPonPort UniPorts services =
     (let allocIdPerOnu = UniPorts * of_nat services in
      \<lparr>Number = PonPorts,
       Ranges = [\<lparr>PonRange = \<lparr>StartId = 0, EndId = PonPorts - 1\<rparr>, Technology = ''XGS-PON'',
                  OnuRange = \<lparr>StartId = 1, EndId = 1 + (OnusPonPort - 1)\<rparr>,
                  AllocIdRange = \<lparr>StartId = 1024, EndId = 1024 + OnusPonPort * allocIdPerOnu\<rparr>,
                  GemportRange = \<lparr>StartId = 1024, EndId = 1024 + OnusPonPort * allocIdPerOnu * 8\<rparr>\<rparr>]\<rparr>)"

datatype pons_error =
    NoPonPorts
  | InvalidTechnology string
  | InvalidPonLimits nat
  | PonPortOutOfRange uint32 nat
  | DuplicatePonPort uint32 nat
  | InvalidOnuLimits nat
  | InvalidAllocIdLimits nat
  | InvalidGemportLimits nat
  | PonPortNotDefined nat

text \<open>
  The inner loop of \<open>validatePonsConfig\<close>, over the ports of one range. Its counter is a \<open>uint32\<close>, so
  \<open>p++\<close> wraps; the loop ends because every iteration that continues defines a port that was not.
\<close>

function mark_ports :: "nat \<Rightarrow> uint32 \<Rightarrow> uint32 \<Rightarrow> nat list \<Rightarrow> (pons_error + nat list) go" where
  "mark_ports rIndex p endId definedPorts =
     (if p > endId then Ret (Inr definedPorts)
      else if p > of_int (int (length definedPorts) - 1) then Ret (Inl (PonPortOutOfRange p rIndex))
      else if unat p \<ge> length definedPorts then Panic IndexOutOfRange
      else if definedPorts ! unat p + 1 > 1 then Ret (Inl (DuplicatePonPort p rIndex))
      else mark_ports rIndex (p + 1) endId (definedPorts[unat p := definedPorts ! unat p + 1]))"
  by pat_completeness auto

lemma count_zero_update:
  "i < length d \<Longrightarrow> d ! i = (0 :: nat) \<Longrightarrow> length (filter (\<lambda>n. n = 0) (d[i := Suc 0])) < length (filter (\<lambda>n. n = 0) d)"
proof (induction d arbitrary: i)
  case Nil
  then show ?case by simp
next
  case (Cons a d)
  then show ?case by (cases i) auto
qed

termination mark_ports
  by (relation "measure (\<lambda>(r, p, e, d). length (filter (\<lambda>n. n = 0) d))") (auto intro: count_zero_update)

declare mark_ports.simps [simp del]

definition check_limits :: "nat \<Rightarrow> PonRangeConfig \<Rightarrow> pons_error option" where
  "check_limits rIndex r =
     (if EndId (OnuRange r) < StartId (OnuRange r) then Some (InvalidOnuLimits rIndex)
      else if EndId (AllocIdRange r) < StartId (AllocIdRange r) then Some (InvalidAllocIdLimits rIndex)
      else if EndId (GemportRange r) < StartId (GemportRange r) then Some (InvalidGemportLimits rIndex)
      else None)"

fun check_ranges :: "nat \<Rightarrow> PonRangeConfig list \<Rightarrow> nat list \<Rightarrow> (pons_error + nat list) go" where
  "check_ranges rIndex [] d = Ret (Inr d)"
| "check_ranges rIndex (r # rs) d =
     (if PonTechnologyFromString (Technology r) = None then Ret (Inl (InvalidTechnology (Technology r)))
      else if EndId (PonRange r) < StartId (PonRange r) then Ret (Inl (InvalidPonLimits rIndex))
      else go_bind (mark_ports rIndex (StartId (PonRange r)) (EndId (PonRange r)) d) (\<lambda>res. case res of
          Inl e \<Rightarrow> Ret (Inl e)
        | Inr d' \<Rightarrow> (case check_limits rIndex r of
              Some e \<Rightarrow> Ret (Inl e)
            | None \<Rightarrow> check_ranges (Suc rIndex) rs d')))"

definition validatePonsConfig :: "PonPortsConfig \<Rightarrow> pons_error option go" where
  "validatePonsConfig pons =
     (if Number pons = 0 then Ret (Some NoPonPorts)
      else go_bind (check_ranges 0 (Ranges pons) (replicate (unat (Number pons)) 0)) (\<lambda>res. case res of
          Inl e \<Rightarrow> Ret (Some e)
        | Inr d \<Rightarrow> Ret (map_option PonPortNotDefined (find_idx (\<lambda>num. num < 1) d))))"

section \<open>Correctness of the validation\<close>

text \<open>One iteration of the inner loop, on a slice of ports that fits the counter.\<close>

lemma last_port:
  assumes "d \<noteq> []" "length d < 2 ^ 32"
  shows "p > of_int (int (length d) - 1) \<longleftrightarrow> unat (p :: uint32) \<ge> length d"
proof -
  have "(of_int (int (length d) - 1) :: uint32) = of_nat (length d - 1)"
    using assms(1) by (cases d) auto
  moreover have "unat (of_nat (length d - 1) :: uint32) = length d - 1"
    using assms(2) by (simp add: unat_of_nat)
  ultimately show ?thesis
    using assms(1) by (cases d) (auto simp: word_less_nat_alt)
qed

lemma mark_ports_step:
  assumes "p \<le> e" "d \<noteq> []" "length d < 2 ^ 32"
  shows "mark_ports k p e d =
     (if unat p \<ge> length d then Ret (Inl (PonPortOutOfRange p k))
      else if d ! unat p > 0 then Ret (Inl (DuplicatePonPort p k))
      else mark_ports k (p + 1) e (d[unat p := 1]))"
  using assms(1) unfolding mark_ports.simps[of k p e d] last_port[OF assms(2,3)] by (auto simp: not_less)

definition fresh_ports :: "uint32 \<Rightarrow> uint32 \<Rightarrow> nat list \<Rightarrow> bool" where
  "fresh_ports p e d \<longleftrightarrow> (p \<le> e \<longrightarrow> unat e < length d \<and> (\<forall>i. unat p \<le> i \<and> i \<le> unat e \<longrightarrow> d ! i = 0))"

lemma fresh_ports_nat:
  assumes "n \<le> m" "n < length d" "d ! n = (0 :: nat)"
  shows "(Suc n \<le> m \<longrightarrow> m < length d \<and> (\<forall>i. Suc n \<le> i \<and> i \<le> m \<longrightarrow> d[n := 1] ! i = 0))
     \<longleftrightarrow> m < length d \<and> (\<forall>i. n \<le> i \<and> i \<le> m \<longrightarrow> d ! i = 0)"
proof (cases "n = m")
  case False
  have "(\<forall>i. n \<le> i \<and> i \<le> m \<longrightarrow> d ! i = 0) \<longleftrightarrow> (\<forall>i. Suc n \<le> i \<and> i \<le> m \<longrightarrow> d ! i = 0)"
    using assms(3) by (metis Suc_leD not_less_eq_eq order_antisym)
  moreover have "d[n := 1] ! i = d ! i" if "Suc n \<le> i" for i
    using that by simp
  ultimately show ?thesis using False assms(1) by simp
qed (use assms in auto)

lemma fresh_ports_step:
  assumes "p \<le> e" "unat p < length d" "d ! unat p = 0" "length d < 2 ^ 32"
  shows "unat (p + 1) = Suc (unat p)"
    and "fresh_ports (p + 1) e (d[unat p := 1]) \<longleftrightarrow> fresh_ports p e d"
proof -
  have "unat p < 2 ^ 32 - 1" using assms by simp
  then show s: "unat (p + 1) = Suc (unat p)" by (simp add: unat_word_ariths)
  show "fresh_ports (p + 1) e (d[unat p := 1]) \<longleftrightarrow> fresh_ports p e d"
    using fresh_ports_nat[of "unat p" "unat e" d] assms(1,2,3)
    unfolding fresh_ports_def word_le_nat_alt s length_list_update by simp
qed

lemma mark_ports_result:
  assumes "d \<noteq> []" "length d < 2 ^ 32"
  shows "if fresh_ports p e d
         then \<exists>d'. mark_ports k p e d = Ret (Inr d') \<and> length d' = length d
                 \<and> (\<forall>i < length d. d' ! i = d ! i + of_bool (unat p \<le> i \<and> i \<le> unat e))
         else \<exists>err. mark_ports k p e d = Ret (Inl err)"
  using assms
proof (induction k p e d rule: mark_ports.induct)
  case (1 k p e d)
  consider (past) "p > e" | (out) "p \<le> e" "unat p \<ge> length d" | (dup) "p \<le> e" "unat p < length d" "d ! unat p > 0"
    | (free) "p \<le> e" "unat p < length d" "d ! unat p = 0"
    by fastforce
  then show ?case
  proof cases
    case past
    then show ?thesis by (auto simp: mark_ports.simps fresh_ports_def word_less_nat_alt word_le_nat_alt)
  next
    case out
    with 1 show ?thesis by (auto simp: mark_ports_step fresh_ports_def word_le_nat_alt)
  next
    case dup
    with 1 show ?thesis by (auto simp: mark_ports_step fresh_ports_def word_le_nat_alt)
  next
    case free
    have inc: "d ! unat p + 1 = 1" using free(3) by simp
    have ih: "if fresh_ports (p + 1) e (d[unat p := 1])
         then \<exists>d'. mark_ports k (p + 1) e (d[unat p := 1]) = Ret (Inr d') \<and> length d' = length d
                 \<and> (\<forall>i < length d. d' ! i = d[unat p := 1] ! i + of_bool (unat (p + 1) \<le> i \<and> i \<le> unat e))
         else \<exists>err. mark_ports k (p + 1) e (d[unat p := 1]) = Ret (Inl err)"
      by (rule "1.IH"[unfolded inc last_port[OF "1.prems"] length_list_update]) (use free "1.prems" in auto)
    have "unat p \<le> unat e" using free(1) by (simp add: word_le_nat_alt)
    then have acc: "d[unat p := 1] ! i + of_bool (Suc (unat p) \<le> i \<and> i \<le> unat e)
        = d ! i + of_bool (unat p \<le> i \<and> i \<le> unat e)" for i
      using free(2,3) by (cases "i = unat p") (auto simp: Suc_le_eq le_less)
    have step: "mark_ports k p e d = mark_ports k (p + 1) e (d[unat p := 1])"
      using mark_ports_step[OF free(1) "1.prems"] free by simp
    show ?thesis
      using ih unfolding step fresh_ports_step[OF free "1.prems"(2)] acc .
  qed
qed

text \<open>What a valid range is, and how often the ranges define a port.\<close>

definition range_valid :: "nat \<Rightarrow> PonRangeConfig \<Rightarrow> bool" where
  "range_valid n r \<longleftrightarrow> PonTechnologyFromString (Technology r) \<noteq> None
     \<and> StartId (PonRange r) \<le> EndId (PonRange r) \<and> unat (EndId (PonRange r)) < n
     \<and> StartId (OnuRange r) \<le> EndId (OnuRange r) \<and> StartId (AllocIdRange r) \<le> EndId (AllocIdRange r)
     \<and> StartId (GemportRange r) \<le> EndId (GemportRange r)"

definition defined_times :: "nat \<Rightarrow> PonRangeConfig list \<Rightarrow> nat" where
  "defined_times i rs = length (filter (\<lambda>r. unat (StartId (PonRange r)) \<le> i \<and> i \<le> unat (EndId (PonRange r))) rs)"

lemma defined_times_simps [simp]:
  "defined_times i [] = 0"
  "defined_times i (r # rs) =
     of_bool (unat (StartId (PonRange r)) \<le> i \<and> i \<le> unat (EndId (PonRange r))) + defined_times i rs"
  by (simp_all add: defined_times_def)

lemma check_limits_None:
  "check_limits k r = None \<longleftrightarrow> StartId (OnuRange r) \<le> EndId (OnuRange r)
     \<and> StartId (AllocIdRange r) \<le> EndId (AllocIdRange r) \<and> StartId (GemportRange r) \<le> EndId (GemportRange r)"
  by (auto simp: check_limits_def not_less)

lemma fresh_range:
  assumes "StartId (PonRange r) \<le> EndId (PonRange r)"
  shows "fresh_ports (StartId (PonRange r)) (EndId (PonRange r)) d \<longleftrightarrow> unat (EndId (PonRange r)) < length d
    \<and> (\<forall>i. unat (StartId (PonRange r)) \<le> i \<and> i \<le> unat (EndId (PonRange r)) \<longrightarrow> d ! i = 0)"
  using assms by (auto simp: fresh_ports_def)

lemma check_ranges_result:
  assumes "d \<noteq> []" "length d < 2 ^ 32" "\<forall>i < length d. d ! i \<le> 1"
  shows "if (\<forall>r \<in> set rs. range_valid (length d) r) \<and> (\<forall>i < length d. d ! i + defined_times i rs \<le> 1)
         then \<exists>d'. check_ranges k rs d = Ret (Inr d') \<and> length d' = length d
                 \<and> (\<forall>i < length d. d' ! i = d ! i + defined_times i rs)
         else \<exists>err. check_ranges k rs d = Ret (Inl err)"
  using assms
proof (induction rs arbitrary: k d)
  case Nil
  then show ?case by simp
next
  case (Cons r rs)
  let ?s = "StartId (PonRange r)" and ?e = "EndId (PonRange r)"
  let ?hit = "\<lambda>i. of_bool (unat ?s \<le> i \<and> i \<le> unat ?e) :: nat"
  show ?case
  proof (cases "PonTechnologyFromString (Technology r) \<noteq> None \<and> ?s \<le> ?e \<and> fresh_ports ?s ?e d \<and> check_limits k r = None")
    case True
    then obtain d1 where d1: "mark_ports k ?s ?e d = Ret (Inr d1)" "length d1 = length d"
      "\<forall>i < length d. d1 ! i = d ! i + ?hit i"
      using mark_ports_result[OF Cons.prems(1,2), of ?s ?e k] by auto
    have fr: "unat ?e < length d" "\<forall>i. unat ?s \<le> i \<and> i \<le> unat ?e \<longrightarrow> d ! i = 0"
      using True fresh_range[of r d] by auto
    then have le: "\<forall>i < length d1. d1 ! i \<le> 1"
      using d1(2,3) Cons.prems(3) by (auto simp: of_bool_def)
    have step: "check_ranges k (r # rs) d = check_ranges (Suc k) rs d1"
      using True d1(1) by (auto simp: not_less)
    have valid: "(\<forall>r' \<in> set rs. range_valid (length d) r') \<longleftrightarrow> (\<forall>r' \<in> set (r # rs). range_valid (length d) r')"
      using True fr(1) d1(2) by (auto simp: range_valid_def check_limits_None)
    have acc: "d1 ! i + defined_times i rs = d ! i + defined_times i (r # rs)" if "i < length d" for i
      using that d1(3) by simp
    have once: "(\<forall>i < length d. d1 ! i + defined_times i rs \<le> 1) \<longleftrightarrow> (\<forall>i < length d. d ! i + defined_times i (r # rs) \<le> 1)"
      and total: "(\<forall>i < length d. d' ! i = d1 ! i + defined_times i rs)
        \<longleftrightarrow> (\<forall>i < length d. d' ! i = d ! i + defined_times i (r # rs))" for d'
      using acc by (simp_all del: defined_times_simps)
    have "d1 \<noteq> []" "length d1 < 2 ^ 32" using Cons.prems d1(2) by auto
    from Cons.IH[OF this le, of "Suc k"] show ?thesis
      unfolding step d1(2) valid once total .
  next
    case False
    have err: "\<exists>err. check_ranges k (r # rs) d = Ret (Inl err)"
      using False mark_ports_result[OF Cons.prems(1,2), of ?s ?e k]
      by (auto simp: not_less split: if_splits option.splits)
    have "False" if v: "\<forall>r' \<in> set (r # rs). range_valid (length d) r'"
      and once: "\<forall>i < length d. d ! i + defined_times i (r # rs) \<le> 1"
    proof -
      have e: "unat ?e < length d" using v by (simp add: range_valid_def)
      have "d ! i = 0" if "unat ?s \<le> i \<and> i \<le> unat ?e" for i
        using once[rule_format, of i] e that by simp
      then show False
        using False v fresh_range[of r d] e by (simp add: range_valid_def check_limits_None)
    qed
    then have "\<not> ((\<forall>r' \<in> set (r # rs). range_valid (length d) r') \<and> (\<forall>i < length d. d ! i + defined_times i (r # rs) \<le> 1))"
      by blast
    with err show ?thesis by (simp only: if_False)
  qed
qed

lemma GetPonConfigById_found:
  "(\<exists>r. GetPonConfigById (Some c) i = Some r \<and> in_range i (PonRange r)) \<longleftrightarrow> defined_times (unat i) (Ranges c) > 0"
proof -
  have "(\<exists>r. find (\<lambda>r. in_range i (PonRange r)) rs = Some r \<and> in_range i (PonRange r)) \<longleftrightarrow> defined_times (unat i) rs > 0" for rs
    by (induction rs) (auto simp: in_range_def word_le_nat_alt)
  then show ?thesis by (simp add: GetPonConfigById_def)
qed

text \<open>Accepted configurations.\<close>

definition pons_config_ok :: "PonPortsConfig \<Rightarrow> bool" where
  "pons_config_ok c \<longleftrightarrow> Number c \<noteq> 0 \<and> (\<forall>r \<in> set (Ranges c). range_valid (unat (Number c)) r)
     \<and> (\<forall>i < unat (Number c). defined_times i (Ranges c) = 1)"

lemma validatePonsConfig_result: "\<exists>res. validatePonsConfig c = Ret res \<and> (res = None \<longleftrightarrow> pons_config_ok c)"
proof (cases "Number c = 0")
  let ?n = "unat (Number c)" and ?d = "replicate (unat (Number c)) (0 :: nat)"
  case False
  then have d: "?d \<noteq> []" "length ?d < 2 ^ 32" "\<forall>i < length ?d. ?d ! i \<le> 1"
    using unsigned_less[of "Number c", where ?'a = nat] by (auto simp: unsigned_eq_0_iff)
  show ?thesis
  proof (cases "(\<forall>r \<in> set (Ranges c). range_valid ?n r) \<and> (\<forall>i < ?n. defined_times i (Ranges c) \<le> 1)")
    case True
    then obtain d' where "check_ranges 0 (Ranges c) ?d = Ret (Inr d')" "length d' = ?n" "\<forall>i < ?n. d' ! i = defined_times i (Ranges c)"
      using check_ranges_result[OF d, of "Ranges c" 0] by auto
    moreover have "defined_times i (Ranges c) = 1 \<longleftrightarrow> defined_times i (Ranges c) > 0" if "i < ?n" for i
      using True that by (auto simp: le_Suc_eq)
    ultimately show ?thesis
      using True False by (simp add: validatePonsConfig_def pons_config_ok_def all_set_conv_all_nth)
  next
    case no: False
    then have "\<not> ((\<forall>r \<in> set (Ranges c). range_valid (length ?d) r) \<and> (\<forall>i < length ?d. ?d ! i + defined_times i (Ranges c) \<le> 1))"
      by auto
    with check_ranges_result[OF d, of "Ranges c" 0]
    obtain err where "check_ranges 0 (Ranges c) ?d = Ret (Inl err)" by (simp only: if_False) blast
    with no False show ?thesis by (auto simp: validatePonsConfig_def pons_config_ok_def)
  qed
qed (simp add: validatePonsConfig_def pons_config_ok_def)

text \<open>
  C28: \<open>validatePonsConfig\<close> returns on every configuration, and accepts it exactly when there is a port,
  every range is well formed and every port below \<open>Number\<close> is in exactly one range. For an accepted
  configuration \<open>GetPonConfigById\<close> finds a range for exactly the ports that exist.
\<close>

theorem pons_config_validated:
  "(\<exists>res. validatePonsConfig c = Ret res \<and>
     (res = None \<longleftrightarrow> Number c \<noteq> 0 \<and> (\<forall>r \<in> set (Ranges c). range_valid (unat (Number c)) r)
        \<and> (\<forall>i < unat (Number c). defined_times i (Ranges c) = 1)))
   \<and> (validatePonsConfig c = Ret None \<longrightarrow>
        (\<forall>i. i < Number c \<longleftrightarrow> (\<exists>r. GetPonConfigById (Some c) i = Some r \<and> in_range i (PonRange r))))"
proof -
  let ?n = "unat (Number c)"
  let ?ok = "Number c \<noteq> 0 \<and> (\<forall>r \<in> set (Ranges c). range_valid ?n r) \<and> (\<forall>i < ?n. defined_times i (Ranges c) = 1)"
  have res: "\<exists>res. validatePonsConfig c = Ret res \<and> (res = None \<longleftrightarrow> ?ok)"
    using validatePonsConfig_result[of c] unfolding pons_config_ok_def .
  have "i < Number c \<longleftrightarrow> (\<exists>r. GetPonConfigById (Some c) i = Some r \<and> in_range i (PonRange r))" if ok: ?ok for i
  proof -
    have "defined_times (unat i) rs > 0 \<Longrightarrow> \<forall>r \<in> set rs. range_valid ?n r \<Longrightarrow> unat i < ?n" for rs
      by (induction rs) (auto simp: range_valid_def split: if_splits)
    from this[of "Ranges c"] ok show ?thesis
      unfolding GetPonConfigById_found by (auto simp: word_less_nat_alt)
  qed
  with res show ?thesis by fastforce
qed

theorem pons_config_validated_witness:
  "validatePonsConfig (getDefaultPonsConfig 2 1 1 1) = Ret None
   \<and> (\<exists>r. GetPonConfigById (Some (getDefaultPonsConfig 2 1 1 1)) 1 = Some r)
   \<and> \<not> (\<exists>r. GetPonConfigById (Some (getDefaultPonsConfig 2 1 1 1)) 2 = Some r \<and> in_range 2 (PonRange r))"
proof -
  have "\<forall>i < 2. defined_times i (Ranges (getDefaultPonsConfig 2 1 1 1)) = 1"
    by (auto simp: getDefaultPonsConfig_def Let_def)
  then have "validatePonsConfig (getDefaultPonsConfig 2 1 1 1) = Ret None"
    using pons_config_validated[of "getDefaultPonsConfig 2 1 1 1"]
    by (auto simp: getDefaultPonsConfig_def Let_def range_valid_def PonTechnologyFromString_def)
  with pons_config_validated[of "getDefaultPonsConfig 2 1 1 1"] show ?thesis
    by (auto simp: getDefaultPonsConfig_def Let_def)
qed

text \<open>The number of ids of a range, whose two ends belong to it.\<close>

definition range_size :: "IdRange \<Rightarrow> nat" where
  "range_size r = Suc (unat (EndId r)) - unat (StartId r)"

text \<open>
  Unless the resources overflow 32 bits, the default configuration is one range that covers
  exactly the PON ports, with as many ONU ids as ONUs. Its ranges of alloc-ids and GEM ports hold one
  id more than the one per service, UNI and ONU (eight for GEM ports) that the comments promise.
\<close>

theorem default_pons_config:
  assumes "0 < pons" "0 < onus"
    and "1024 + unat onus * (unat unis * services) * 8 < 2 ^ 32"
  defines "c \<equiv> getDefaultPonsConfig pons onus unis services"
  shows "\<exists>r. Ranges c = [r] \<and> (\<forall>i. GetPonConfigById (Some c) i = (if i < pons then Some r else None))
     \<and> range_valid (unat pons) r
     \<and> range_size (OnuRange r) = unat onus
     \<and> range_size (AllocIdRange r) = unat onus * (unat unis * services) + 1
     \<and> range_size (GemportRange r) = unat onus * (unat unis * services) * 8 + 1"
proof -
  let ?k = "unat onus * (unat unis * services)"
  define r where "r = hd (Ranges c)"
  have w: "onus * (unis * of_nat services) = (of_nat ?k :: uint32)" by simp
  have k: "?k < 2 ^ 32" "1024 + ?k < 2 ^ 32" using assms(3) by linarith+
  have p: "unat (pons - 1) = unat pons - 1" using assms(1) by (simp add: unat_minus_one word_gt_0)
  have o: "1 + (onus - 1) = onus" by simp
  have a: "unat (1024 + (of_nat ?k :: uint32)) = 1024 + ?k"
    using k by (simp add: unat_word_ariths unat_of_nat del: of_nat_mult)
  have g: "unat (1024 + (of_nat ?k :: uint32) * 8) = 1024 + ?k * 8"
    using assms(3) k by (simp add: unat_word_ariths unat_of_nat del: of_nat_mult)
  have r: "Ranges c = [r]" "PonRange r = \<lparr>StartId = 0, EndId = pons - 1\<rparr>" "OnuRange r = \<lparr>StartId = 1, EndId = onus\<rparr>"
    "AllocIdRange r = \<lparr>StartId = 1024, EndId = 1024 + of_nat ?k\<rparr>" "GemportRange r = \<lparr>StartId = 1024, EndId = 1024 + of_nat ?k * 8\<rparr>"
    "Technology r = ''XGS-PON''"
    by (simp_all add: r_def c_def getDefaultPonsConfig_def Let_def)
  have "i \<le> pons - 1 \<longleftrightarrow> i < pons" for i
    using assms(1) p by (auto simp: word_le_nat_alt word_less_nat_alt)
  then have "GetPonConfigById (Some c) i = (if i < pons then Some r else None)" for i
    using r(1,2) by (simp add: GetPonConfigById_def in_range_def)
  moreover have "range_valid (unat pons) r"
    using assms(1,2) p a g by (simp add: range_valid_def r PonTechnologyFromString_def word_le_nat_alt word_less_nat_alt)
  moreover have "range_size (OnuRange r) = unat onus"
    "range_size (AllocIdRange r) = ?k + 1" "range_size (GemportRange r) = ?k * 8 + 1"
    using a g by (simp_all add: range_size_def r)
  ultimately show ?thesis using r(1) by blast
qed

theorem default_pons_config_witness:
  "\<exists>r. Ranges (getDefaultPonsConfig 16 32 4 3) = [r] \<and> GetPonConfigById (Some (getDefaultPonsConfig 16 32 4 3)) 15 = Some r
     \<and> range_size (OnuRange r) = 32 \<and> range_size (AllocIdRange r) = 385 \<and> range_size (GemportRange r) = 3073"
  using default_pons_config[of 16 32 4 3] by auto

end
