(* ===== verification/Ports.thy ===== *)
theory Ports
  imports Service OmciMsgs Options
begin

text \<open>
  The messages on the ONU and OLT channels (\<open>internal/bbsim/types\<close>) and the two kinds of port of an
  ONU: Ethernet UNIs with their services (\<open>internal/bbsim/devices/uni_port.go\<close>) and POTS ports
  (\<open>pots_port.go\<close>). A port announces a change of its operational state on the channel of its ONU, so
  \<open>Enable\<close> and \<open>Disable\<close> work on the port and that channel.
\<close>

section \<open>Messages\<close>

record UniStatusAlarmMessage =
  ua_OnuSN :: SerialNumber
  ua_OnuID :: uint32
  ua_AdminState :: uint8
  ua_EntityID :: uint16
  RaiseOMCIAlarm :: bool

datatype onu_message =
    OnuDiscIndication OperState
  | OnuIndication OperState
  | OmciMessage OMCI "byte list"
  | UniStatusAlarm UniStatusAlarmMessage
  | FlowAddMsg Flow
  | FlowRemovedMsg Flow
  | OnuPacketOut OnuPacketMessage
  | SendEapolFlow
  | SendDhcpFlow

datatype olt_message =
    OltIndicationMsg OperState
  | NniIndicationMsg OperState uint32
  | PonIndicationMsg OperState uint32
  | AlarmIndicationMsg AlarmIndication

section \<open>Operational state machine\<close>

text \<open>\<open>getOperStateFSM\<close>, and the machines of the ports with the same table.\<close>

datatype oper_state = oper_down | oper_up

datatype oper_event = tx_enable | tx_disable

definition oper_events :: "(oper_event, oper_state) EventDesc list" where
  "oper_events =
     [\<lparr>Name = tx_enable, Src = [oper_down], Dst = oper_up\<rparr>,
      \<lparr>Name = tx_disable, Src = [oper_up], Dst = oper_down\<rparr>]"

definition new_oper_state :: "(oper_event, oper_state) FSM" where
  "new_oper_state = NewFSM oper_down oper_events"

lemma oper_next:
  "map_of (transitions new_oper_state) (e, s) =
     (case e of tx_enable \<Rightarrow> if s = oper_down then Some oper_up else None
      | tx_disable \<Rightarrow> if s = oper_up then Some oper_down else None)"
  by (cases e; cases s) (simp_all add: new_oper_state_def NewFSM_def oper_events_def)

section \<open>UNI ports\<close>

text \<open>\<open>uni_listening\<close>: a goroutine runs \<open>HandlePackets\<close>, which the first enable starts and nothing stops.\<close>

record UniPort =
  uni_ID :: uint32
  uni_MeId :: EntityId
  uni_PortNo :: uint32
  uni_OperState :: "(oper_event, oper_state) FSM"
  Services :: "Service list"
  uni_PacketCh :: "OnuPacketMessage chan"
  uni_listening :: bool

text \<open>What a port reads of its ONU and OLT: serial number, ONU id and the stream of the OLT.\<close>

record port_env =
  pe_sn :: SerialNumber
  pe_onuId :: uint32
  pe_stream :: stream

definition status_alarm :: "port_env \<Rightarrow> uint16 \<Rightarrow> bool \<Rightarrow> onu_message" where
  "status_alarm env i up =
     UniStatusAlarm \<lparr>ua_OnuSN = pe_sn env, ua_OnuID = pe_onuId env, ua_AdminState = (if up then 0 else 1),
       ua_EntityID = i, RaiseOMCIAlarm = \<not> up\<rparr>"

definition send_status :: "port_env \<Rightarrow> EntityId \<Rightarrow> bool \<Rightarrow> onu_message chan \<Rightarrow> onu_message chan go" where
  "send_status env me up c = go_bind (ToUint16 me) (\<lambda>i. chan_send c (status_alarm env i up))"

type_synonym uni_world = "UniPort \<times> onu_message chan"

definition enter_uni_up :: "port_env \<Rightarrow> uni_world \<Rightarrow> uni_world go" where
  "enter_uni_up env w =
     (let (u, c) = w in
      go_bind (send_status env (uni_MeId u) True c) (\<lambda>c'.
      go_bind (go_map (svc_Initialize (pe_stream env)) (Services u)) (\<lambda>ss.
      Ret (u\<lparr>Services := ss, uni_listening := True\<rparr>, c'))))"

definition enter_uni_down :: "port_env \<Rightarrow> uni_world \<Rightarrow> uni_world go" where
  "enter_uni_down env w =
     (let (u, c) = w in
      go_bind (send_status env (uni_MeId u) False c) (\<lambda>c'.
      go_bind (go_map svc_Disable (Services u)) (\<lambda>ss.
      Ret (u\<lparr>Services := ss\<rparr>, c'))))"

definition uni_callbacks :: "port_env \<Rightarrow> (oper_event, oper_state, uni_world) callbacks" where
  "uni_callbacks env = enter_callbacks (\<lambda>ev w. case ev_Dst ev of
       oper_up \<Rightarrow> enter_uni_up env w | oper_down \<Rightarrow> enter_uni_down env w)"

definition uni_put :: "(oper_event, oper_state) FSM \<Rightarrow> uni_world \<Rightarrow> uni_world" where
  "uni_put f w = ((fst w)\<lparr>uni_OperState := f\<rparr>, snd w)"

definition uni_Event ::
  "port_env \<Rightarrow> oper_event \<Rightarrow> uni_world \<Rightarrow> ((oper_event, oper_state) fsm_error option \<times> uni_world) go" where
  "uni_Event env = fsm_Event (uni_OperState \<circ> fst) uni_put (uni_callbacks env)"

definition uni_Enable ::
  "port_env \<Rightarrow> uni_world \<Rightarrow> ((oper_event, oper_state) fsm_error option \<times> uni_world) go" where
  "uni_Enable env w = uni_Event env tx_enable w"

definition uni_Disable ::
  "port_env \<Rightarrow> uni_world \<Rightarrow> ((oper_event, oper_state) fsm_error option \<times> uni_world) go" where
  "uni_Disable env w =
     (if fsm_Is (uni_OperState (fst w)) oper_down then Ret (None, w) else uni_Event env tx_disable w)"

section \<open>Creation of a UNI\<close>

definition maxUniPorts :: uint32 where
  "maxUniPorts = 4"

text \<open>
  The next tag of a service: the configured one the first time, then the previous one, incremented if
  the allocation is unique. The counter of each service is shared by all UNIs of the OLT.
\<close>

definition next_tag :: "string \<Rightarrow> int \<Rightarrow> string \<Rightarrow> (string, int) gomap \<Rightarrow> (int \<times> (string, int) gomap) go" where
  "next_tag name configured allocation tags =
     (case map_of tags name of
        None \<Rightarrow> Ret (configured, AList.update name configured tags)
      | Some t \<Rightarrow>
          if allocation = TagAllocationUnique then
            (if t + 1 > 4096 then Panic FatalLog else Ret (t + 1, AList.update name (t + 1) tags))
          else Ret (t, tags))"

record tag_state =
  nextCtag :: "(string, int) gomap"
  nextStag :: "(string, int) gomap"

text \<open>Where a UNI is, for the hardware addresses of its services.\<close>

definition service_mac :: "place \<Rightarrow> nat \<Rightarrow> byte list" where
  "service_mac pl k = [0x2e, of_int (pl_oltId pl), ucast (pl_ponPortId pl), ucast (pl_onuId pl), ucast (pl_uniId pl), of_nat k]"

definition new_uni_service :: "place \<Rightarrow> nat \<Rightarrow> ServiceYaml \<Rightarrow> tag_state \<Rightarrow> (Service \<times> tag_state) go" where
  "new_uni_service pl k s t =
     go_bind (next_tag (sy_Name s) (sy_CTag s) (sy_CTagAllocation s) (nextCtag t)) (\<lambda>(ctag, ct).
     go_bind (next_tag (sy_Name s) (sy_STag s) (sy_STagAllocation s) (nextStag t)) (\<lambda>(stag, st).
     Ret (NewService \<lparr>sc_Id = of_nat k, sc_Name = sy_Name s, sc_HwAddress = service_mac pl k, sc_CTag = ctag, sc_STag = stag,
            sc_NeedsEapol = sy_NeedsEapol s, sc_NeedsDhcp = sy_NeedsDhcp s, sc_NeedsIgmp = sy_NeedsIgmp s,
            sc_NeedsPPPoE = sy_NeedsPPPoE s, sc_TpId = sy_TechnologyProfileID s, sc_UniTagMatch = sy_UniTagMatch s,
            sc_ConfigureMac = sy_ConfigureMacAddress s, sc_MacLearning = sy_EnableMacLearning s,
            sc_UsPonCTagPriority = sy_UsPonCTagPriority s, sc_UsPonSTagPriority = sy_UsPonSTagPriority s,
            sc_DsPonCTagPriority = sy_DsPonCTagPriority s, sc_DsPonSTagPriority = sy_DsPonSTagPriority s\<rparr>,
          \<lparr>nextCtag = ct, nextStag = st\<rparr>)))"

fun new_uni_services :: "place \<Rightarrow> nat \<Rightarrow> ServiceYaml list \<Rightarrow> tag_state \<Rightarrow> (Service list \<times> tag_state) go" where
  "new_uni_services pl k [] t = Ret ([], t)"
| "new_uni_services pl k (s # ss) t =
     go_bind (new_uni_service pl k s t) (\<lambda>(x, t1).
     go_bind (new_uni_services pl (Suc k) ss t1) (\<lambda>(xs, t2). Ret (x # xs, t2)))"

text \<open>\<open>None\<close> is the error for an id beyond the last supported UNI.\<close>

definition NewUniPort :: "ServiceYaml list \<Rightarrow> place \<Rightarrow> tag_state \<Rightarrow> (UniPort \<times> tag_state) option go" where
  "NewUniPort services pl t =
     (if pl_uniId pl > maxUniPorts - 1 then Ret None
      else go_bind (new_uni_services pl 0 services t) (\<lambda>(ss, t').
        Ret (Some (\<lparr>uni_ID = pl_uniId pl, uni_MeId = GenerateUniPortEntityId (pl_uniId pl + 1), uni_PortNo = 0,
                    uni_OperState = new_oper_state, Services = ss, uni_PacketCh = make_chan None, uni_listening = False\<rparr>, t'))))"

text \<open>The loop of \<open>CreateONU\<close> over its UNIs; an error of \<open>NewUniPort\<close> ends the process.\<close>

fun new_unis :: "ServiceYaml list \<Rightarrow> place list \<Rightarrow> tag_state \<Rightarrow> (UniPort list \<times> tag_state) go" where
  "new_unis services [] t = Ret ([], t)"
| "new_unis services (pl # pls) t =
     go_bind (NewUniPort services pl t) (\<lambda>res. case res of None \<Rightarrow> Panic FatalLog
      | Some (u, t1) \<Rightarrow> go_bind (new_unis services pls t1) (\<lambda>(us, t2). Ret (u # us, t2)))"

section \<open>Operations of a UNI\<close>

definition StorePortNo :: "uint32 \<Rightarrow> UniPort \<Rightarrow> UniPort" where
  "StorePortNo portNo u = u\<lparr>uni_PortNo := portNo\<rparr>"

definition uni_UpdateStream :: "stream \<Rightarrow> UniPort \<Rightarrow> UniPort" where
  "uni_UpdateStream st u = u\<lparr>Services := map (UpdateStream st) (Services u)\<rparr>"

text \<open>The loops over the services stop where a service blocks.\<close>

definition uni_HandleAuth :: "UniPort \<Rightarrow> UniPort go" where
  "uni_HandleAuth u = go_bind (go_map svc_HandleAuth (Services u)) (\<lambda>ss. Ret (u\<lparr>Services := ss\<rparr>))"

definition uni_HandleDhcp :: "uint8 \<Rightarrow> int \<Rightarrow> UniPort \<Rightarrow> UniPort go" where
  "uni_HandleDhcp oPbit oVid u = go_bind (go_map (svc_HandleDhcp oPbit oVid) (Services u)) (\<lambda>ss. Ret (u\<lparr>Services := ss\<rparr>))"

definition service_matches_flow :: "uint32 \<Rightarrow> uint32 \<Rightarrow> uint32 \<Rightarrow> Service \<Rightarrow> bool" where
  "service_matches_flow ethType oVlan iVlan s \<longleftrightarrow>
     (ethType = 0x888e \<and> NeedsEapol s)
   \<or> (ethType = 0x0800 \<and> NeedsDhcp s \<and> CTag s = uint oVlan)
   \<or> (CTag s = uint iVlan \<and> STag s = uint oVlan)"

definition addGemPortToService :: "uint32 \<Rightarrow> uint32 \<Rightarrow> uint32 \<Rightarrow> uint32 \<Rightarrow> UniPort \<Rightarrow> UniPort" where
  "addGemPortToService gemport ethType oVlan iVlan u =
     u\<lparr>Services := map (\<lambda>s. if service_matches_flow ethType oVlan iVlan s then s\<lparr>GemPort := gemport\<rparr> else s) (Services u)\<rparr>"

definition uni_findServiceByMacAddress :: "byte list \<Rightarrow> Service list \<Rightarrow> nat option" where
  "uni_findServiceByMacAddress mac ss = find_idx (\<lambda>s. HwAddress s = mac) ss"

text \<open>\<open>uni.PacketCh <- msg\<close>: without a reader the send on the unbuffered channel waits for ever.\<close>

definition uni_receive :: "OnuPacketMessage \<Rightarrow> UniPort \<Rightarrow> UniPort go" where
  "uni_receive msg u =
     (if \<not> uni_listening u then Blocked
      else go_bind (chan_send (uni_PacketCh u) msg) (\<lambda>c. Ret (u\<lparr>uni_PacketCh := c\<rparr>)))"

text \<open>One iteration of \<open>HandlePackets\<close>: the packet goes to the channel of its service.\<close>

definition service_deliver :: "OnuPacketMessage \<Rightarrow> Service \<Rightarrow> Service go" where
  "service_deliver msg s = go_bind (chan_send (PacketCh s) msg) (\<lambda>c. Ret (s\<lparr>PacketCh := c\<rparr>))"

definition uni_HandlePacket :: "OnuPacketMessage \<Rightarrow> UniPort \<Rightarrow> UniPort go" where
  "uni_HandlePacket msg u =
     (if pm_Type msg = EAPOL \<or> pm_Type msg = DHCP then
        (case uni_findServiceByMacAddress (pm_MacAddress msg) (Services u) of None \<Rightarrow> Ret u
         | Some i \<Rightarrow> go_bind (service_deliver msg (Services u ! i)) (\<lambda>s. Ret (u\<lparr>Services := (Services u)[i := s]\<rparr>)))
      else if pm_Type msg = IGMP then
        go_bind (go_map (\<lambda>s. if NeedsIgmp s then service_deliver msg s else Ret s) (Services u)) (\<lambda>ss. Ret (u\<lparr>Services := ss\<rparr>))
      else Ret u)"

text \<open>The loop itself, which runs from the first time the UNI is enabled on.\<close>

definition uni_HandlePackets_step :: "UniPort \<Rightarrow> UniPort go" where
  "uni_HandlePackets_step u =
     (if \<not> uni_listening u then Ret u
      else go_bind (chan_recv (uni_PacketCh u)) (\<lambda>(m, c).
        case m of None \<Rightarrow> Ret u | Some msg \<Rightarrow> uni_HandlePacket msg (u\<lparr>uni_PacketCh := c\<rparr>)))"

section \<open>POTS ports\<close>

record PotsPort =
  pots_ID :: uint32
  pots_MeId :: EntityId
  pots_PortNo :: uint32
  pots_OperState :: "(oper_event, oper_state) FSM"

type_synonym pots_world = "PotsPort \<times> onu_message chan"

definition enter_pots :: "port_env \<Rightarrow> bool \<Rightarrow> pots_world \<Rightarrow> pots_world go" where
  "enter_pots env up w =
     (let (p, c) = w in
      go_bind (send_status env (pots_MeId p) up c) (\<lambda>c'. Ret (p, c')))"

definition pots_callbacks :: "port_env \<Rightarrow> (oper_event, oper_state, pots_world) callbacks" where
  "pots_callbacks env = enter_callbacks (\<lambda>ev w. enter_pots env (ev_Dst ev = oper_up) w)"

definition pots_put :: "(oper_event, oper_state) FSM \<Rightarrow> pots_world \<Rightarrow> pots_world" where
  "pots_put f w = ((fst w)\<lparr>pots_OperState := f\<rparr>, snd w)"

definition pots_Event ::
  "port_env \<Rightarrow> oper_event \<Rightarrow> pots_world \<Rightarrow> ((oper_event, oper_state) fsm_error option \<times> pots_world) go" where
  "pots_Event env = fsm_Event (pots_OperState \<circ> fst) pots_put (pots_callbacks env)"

definition pots_Enable ::
  "port_env \<Rightarrow> pots_world \<Rightarrow> ((oper_event, oper_state) fsm_error option \<times> pots_world) go" where
  "pots_Enable env w = pots_Event env tx_enable w"

definition pots_Disable ::
  "port_env \<Rightarrow> pots_world \<Rightarrow> ((oper_event, oper_state) fsm_error option \<times> pots_world) go" where
  "pots_Disable env w =
     (if fsm_Is (pots_OperState (fst w)) oper_down then Ret (None, w) else pots_Event env tx_disable w)"

definition NewPotsPort :: "uint32 \<Rightarrow> PotsPort" where
  "NewPotsPort i = \<lparr>pots_ID = i, pots_MeId = GenerateUniPortEntityId (i + 1), pots_PortNo = 0, pots_OperState = new_oper_state\<rparr>"

section \<open>Tags of the services\<close>

text \<open>The tag of a service in the \<open>n\<close>-th UNI of the OLT.\<close>

definition tag_at :: "int \<Rightarrow> string \<Rightarrow> nat \<Rightarrow> int" where
  "tag_at configured allocation n = (if allocation = TagAllocationUnique then configured + int n else configured)"

definition tag_fits :: "int \<Rightarrow> string \<Rightarrow> nat \<Rightarrow> bool" where
  "tag_fits configured allocation n \<longleftrightarrow> n = 0 \<or> allocation \<noteq> TagAllocationUnique \<or> configured + int n \<le> 4096"

definition prev_tag :: "int \<Rightarrow> string \<Rightarrow> nat \<Rightarrow> int option" where
  "prev_tag configured allocation n = (case n of 0 \<Rightarrow> None | Suc m \<Rightarrow> Some (tag_at configured allocation m))"

lemma next_tag_at:
  assumes "map_of tags name = prev_tag c al n" "tag_fits c al n"
  shows "\<exists>tags'. next_tag name c al tags = Ret (tag_at c al n, tags') \<and> map_of tags' = (map_of tags)(name \<mapsto> tag_at c al n)"
  using assms
  by (cases n) (auto simp: next_tag_def prev_tag_def tag_at_def tag_fits_def go_maps fun_eq_iff)

lemma next_tag_full:
  assumes "map_of tags name = prev_tag c al n" "\<not> tag_fits c al n"
  shows "next_tag name c al tags = Panic FatalLog"
  using assms by (cases n) (auto simp: next_tag_def prev_tag_def tag_at_def tag_fits_def)

text \<open>What the counters hold before the \<open>n\<close>-th UNI, and what its services are.\<close>

definition counters_at :: "ServiceYaml list \<Rightarrow> nat \<Rightarrow> tag_state \<Rightarrow> bool" where
  "counters_at ss n t \<longleftrightarrow> (\<forall>s \<in> set ss. map_of (nextCtag t) (sy_Name s) = prev_tag (sy_CTag s) (sy_CTagAllocation s) n
     \<and> map_of (nextStag t) (sy_Name s) = prev_tag (sy_STag s) (sy_STagAllocation s) n)"

definition tags_fit :: "ServiceYaml list \<Rightarrow> nat \<Rightarrow> bool" where
  "tags_fit ss n \<longleftrightarrow> (\<forall>s \<in> set ss. tag_fits (sy_CTag s) (sy_CTagAllocation s) n \<and> tag_fits (sy_STag s) (sy_STagAllocation s) n)"

definition tagged :: "nat \<Rightarrow> ServiceYaml \<Rightarrow> Service \<Rightarrow> bool" where
  "tagged n s x \<longleftrightarrow> svc_Name x = sy_Name s \<and> CTag x = tag_at (sy_CTag s) (sy_CTagAllocation s) n
     \<and> STag x = tag_at (sy_STag s) (sy_STagAllocation s) n \<and> service_ok x \<and> \<not> initialized x"

lemma NewService_tagged:
  "sc_Name c = sy_Name s \<Longrightarrow> sc_CTag c = tag_at (sy_CTag s) (sy_CTagAllocation s) n \<Longrightarrow>
   sc_STag c = tag_at (sy_STag s) (sy_STagAllocation s) n \<Longrightarrow> tagged n s (NewService c)"
  using service_ok_New[of c] by (simp add: tagged_def NewService_def new_service_state_def NewFSM_def)

lemma new_uni_service_at:
  assumes "counters_at [s] n t" "tags_fit [s] n"
  shows "\<exists>x t'. new_uni_service pl k s t = Ret (x, t') \<and> tagged n s x \<and> HwAddress x = service_mac pl k
     \<and> map_of (nextCtag t') = (map_of (nextCtag t))(sy_Name s \<mapsto> tag_at (sy_CTag s) (sy_CTagAllocation s) n)
     \<and> map_of (nextStag t') = (map_of (nextStag t))(sy_Name s \<mapsto> tag_at (sy_STag s) (sy_STagAllocation s) n)"
proof -
  obtain ct where "next_tag (sy_Name s) (sy_CTag s) (sy_CTagAllocation s) (nextCtag t) = Ret (tag_at (sy_CTag s) (sy_CTagAllocation s) n, ct)"
    "map_of ct = (map_of (nextCtag t))(sy_Name s \<mapsto> tag_at (sy_CTag s) (sy_CTagAllocation s) n)"
    using next_tag_at assms unfolding counters_at_def tags_fit_def by (metis list.set_intros(1))
  moreover obtain st where "next_tag (sy_Name s) (sy_STag s) (sy_STagAllocation s) (nextStag t) = Ret (tag_at (sy_STag s) (sy_STagAllocation s) n, st)"
    "map_of st = (map_of (nextStag t))(sy_Name s \<mapsto> tag_at (sy_STag s) (sy_STagAllocation s) n)"
    using next_tag_at assms unfolding counters_at_def tags_fit_def by (metis list.set_intros(1))
  ultimately show ?thesis
    by (simp add: new_uni_service_def NewService_tagged) (simp add: NewService_def)
qed

lemma new_uni_service_full:
  assumes "counters_at [s] n t" "\<not> tags_fit [s] n"
  shows "new_uni_service pl k s t = Panic FatalLog"
proof (cases "tag_fits (sy_CTag s) (sy_CTagAllocation s) n")
  case True
  with assms next_tag_at[of "nextCtag t" "sy_Name s" "sy_CTag s" "sy_CTagAllocation s" n]
    next_tag_full[of "nextStag t" "sy_Name s" "sy_STag s" "sy_STagAllocation s" n] show ?thesis
    by (auto simp: new_uni_service_def counters_at_def tags_fit_def)
next
  case False
  with assms next_tag_full[of "nextCtag t" "sy_Name s" "sy_CTag s" "sy_CTagAllocation s" n] show ?thesis
    by (auto simp: new_uni_service_def counters_at_def)
qed

lemma counters_at_Suc:
  assumes "map_of (nextCtag t') = (map_of (nextCtag t))(sy_Name s \<mapsto> tag_at (sy_CTag s) (sy_CTagAllocation s) n)"
    "map_of (nextStag t') = (map_of (nextStag t))(sy_Name s \<mapsto> tag_at (sy_STag s) (sy_STagAllocation s) n)"
    "\<forall>s' \<in> set ss. sy_Name s' \<noteq> sy_Name s"
  shows "counters_at [s] (Suc n) t'" "counters_at ss m t' \<longleftrightarrow> counters_at ss m t"
  using assms by (auto simp: counters_at_def prev_tag_def)

lemma new_uni_services_at:
  assumes "distinct (map sy_Name ss)" "counters_at ss n t"
  shows "if tags_fit ss n
         then \<exists>xs t'. new_uni_services pl k ss t = Ret (xs, t') \<and> list_all2 (tagged n) ss xs \<and> counters_at ss (Suc n) t'
                 \<and> (\<forall>x. x \<notin> sy_Name ` set ss \<longrightarrow> map_of (nextCtag t') x = map_of (nextCtag t) x \<and> map_of (nextStag t') x = map_of (nextStag t) x)
         else new_uni_services pl k ss t = Panic FatalLog"
  using assms
proof (induction ss arbitrary: k t)
  case Nil
  then show ?case by (simp add: tags_fit_def counters_at_def)
next
  case (Cons s ss)
  have s: "counters_at [s] n t" and ss: "counters_at ss n t" and d: "distinct (map sy_Name ss)" "\<forall>s' \<in> set ss. sy_Name s' \<noteq> sy_Name s"
    using Cons.prems by (auto simp: counters_at_def image_iff)
  have split: "tags_fit (s # ss) n \<longleftrightarrow> tags_fit [s] n \<and> tags_fit ss n" by (auto simp: tags_fit_def)
  show ?case
  proof (cases "tags_fit [s] n")
    case True
    then obtain x t1 where x: "new_uni_service pl k s t = Ret (x, t1)" "tagged n s x"
      and t1: "map_of (nextCtag t1) = (map_of (nextCtag t))(sy_Name s \<mapsto> tag_at (sy_CTag s) (sy_CTagAllocation s) n)"
        "map_of (nextStag t1) = (map_of (nextStag t))(sy_Name s \<mapsto> tag_at (sy_STag s) (sy_STagAllocation s) n)"
      using new_uni_service_at[OF s, of pl k] by blast
    note c1 = counters_at_Suc[OF t1 d(2)]
    show ?thesis
    proof (cases "tags_fit ss n")
      case fit: True
      with Cons.IH[OF d(1), of t1 "Suc k"] c1(2) ss obtain xs t2 where xs: "new_uni_services pl (Suc k) ss t1 = Ret (xs, t2)"
        "list_all2 (tagged n) ss xs" "counters_at ss (Suc n) t2"
        "\<forall>x. x \<notin> sy_Name ` set ss \<longrightarrow> map_of (nextCtag t2) x = map_of (nextCtag t1) x \<and> map_of (nextStag t2) x = map_of (nextStag t1) x"
        by auto
      have "sy_Name s \<notin> sy_Name ` set ss" using d(2) by auto
      with c1(1) xs(3,4) have "counters_at (s # ss) (Suc n) t2" by (simp add: counters_at_def)
      with x xs t1 True fit show ?thesis by (auto simp: split)
    next
      case False
      with Cons.IH[OF d(1), of t1 "Suc k"] c1(2) ss x show ?thesis by (simp add: split)
    qed
  next
    case False
    with new_uni_service_full[OF s False] show ?thesis by (simp add: split)
  qed
qed

lemma NewUniPort_at:
  assumes "distinct (map sy_Name services)" "counters_at services n t" "pl_uniId pl < maxUniPorts"
  shows "if tags_fit services n
         then \<exists>u t'. NewUniPort services pl t = Ret (Some (u, t')) \<and> list_all2 (tagged n) services (Services u)
                 \<and> uni_ID u = pl_uniId pl \<and> uni_MeId u = GenerateUniPortEntityId (pl_uniId pl + 1)
                 \<and> uni_OperState u = new_oper_state \<and> counters_at services (Suc n) t'
         else NewUniPort services pl t = Panic FatalLog"
proof -
  have "\<not> pl_uniId pl > maxUniPorts - 1"
    using assms(3) by (simp add: maxUniPorts_def word_less_nat_alt)
  then show ?thesis
    using new_uni_services_at[OF assms(1,2), of pl 0] by (auto simp: NewUniPort_def split: if_splits)
qed

lemma new_unis_at:
  assumes "distinct (map sy_Name services)" "counters_at services n t" "\<forall>pl \<in> set pls. pl_uniId pl < maxUniPorts"
  shows "if \<forall>m < length pls. tags_fit services (n + m)
         then \<exists>us t'. new_unis services pls t = Ret (us, t') \<and> length us = length pls
                 \<and> (\<forall>m < length pls. list_all2 (tagged (n + m)) services (Services (us ! m))) \<and> counters_at services (n + length pls) t'
         else new_unis services pls t = Panic FatalLog"
  using assms
proof (induction pls arbitrary: n t)
  case Nil
  then show ?case by simp
next
  case (Cons pl pls)
  have fits: "(\<forall>m < length (pl # pls). tags_fit services (n + m)) \<longleftrightarrow>
      tags_fit services n \<and> (\<forall>m < length pls. tags_fit services (Suc n + m))"
    by (simp add: All_less_Suc2)
  show ?case
  proof (cases "tags_fit services n")
    case True
    with NewUniPort_at[OF Cons.prems(1,2)] Cons.prems(3) obtain u t1 where u: "NewUniPort services pl t = Ret (Some (u, t1))"
      "list_all2 (tagged n) services (Services u)" "counters_at services (Suc n) t1"
      by force
    show ?thesis
    proof (cases "\<forall>m < length pls. tags_fit services (Suc n + m)")
      case fit: True
      with Cons.IH[OF Cons.prems(1) u(3)] Cons.prems(3) obtain us t2 where us: "new_unis services pls t1 = Ret (us, t2)" "length us = length pls"
        "\<forall>m < length pls. list_all2 (tagged (Suc n + m)) services (Services (us ! m))" "counters_at services (Suc n + length pls) t2"
        by auto
      have "list_all2 (tagged (n + m)) services (Services ((u # us) ! m))" if "m < Suc (length pls)" for m
        using that u(2) us(3) by (cases m) auto
      with us u fit True show ?thesis unfolding fits by simp
    next
      case False
      then have "new_unis services pls t1 = Panic FatalLog"
        using Cons.IH[OF Cons.prems(1) u(3)] Cons.prems(3) by (simp split: if_splits)
      with False u show ?thesis unfolding fits by simp
    qed
  next
    case False
    with NewUniPort_at[OF Cons.prems(1,2), of pl] Cons.prems(3) show ?thesis unfolding fits by simp
  qed
qed

text \<open>
  C27: tags of the UNIs of an OLT. The services have distinct names and the UNIs are created one after
  the other with empty counters. If no unique tag exceeds 4096 the creation returns, and in the
  \<open>n\<close>-th UNI a service has its configured tags, plus \<open>n\<close> where the allocation is unique, so that no
  two UNIs share a unique tag; otherwise the process stops with the fatal error.
\<close>

theorem unique_tags:
  assumes "distinct (map sy_Name services)" "\<forall>pl \<in> set pls. pl_uniId pl < maxUniPorts"
  shows "if \<forall>n < length pls. tags_fit services n
     then \<exists>us t. new_unis services pls \<lparr>nextCtag = [], nextStag = []\<rparr> = Ret (us, t) \<and> length us = length pls
        \<and> (\<forall>n < length us. list_all2 (tagged n) services (Services (us ! n)))
        \<and> (\<forall>k < length services. sy_CTagAllocation (services ! k) = TagAllocationUnique \<longrightarrow>
             distinct (map (\<lambda>u. CTag (Services u ! k)) us))
     else new_unis services pls \<lparr>nextCtag = [], nextStag = []\<rparr> = Panic FatalLog"
proof (cases "\<forall>n < length pls. tags_fit services n")
  case True
  have "counters_at services 0 \<lparr>nextCtag = [], nextStag = []\<rparr>" by (simp add: counters_at_def prev_tag_def)
  from new_unis_at[OF assms(1) this assms(2)] True obtain us t
    where us: "new_unis services pls \<lparr>nextCtag = [], nextStag = []\<rparr> = Ret (us, t)" "length us = length pls"
      "\<forall>n < length us. list_all2 (tagged n) services (Services (us ! n))"
    by auto
  have "CTag (Services (us ! n) ! k) = tag_at (sy_CTag (services ! k)) (sy_CTagAllocation (services ! k)) n"
    if "k < length services" "n < length us" for k n
    using us(3) that by (auto simp: list_all2_conv_all_nth tagged_def)
  then have "distinct (map (\<lambda>u. CTag (Services u ! k)) us)"
    if "k < length services" "sy_CTagAllocation (services ! k) = TagAllocationUnique" for k
    using that by (auto simp: distinct_conv_nth tag_at_def)
  with us True show ?thesis by auto
next
  case False
  have "counters_at services 0 \<lparr>nextCtag = [], nextStag = []\<rparr>" by (simp add: counters_at_def prev_tag_def)
  from new_unis_at[OF assms(1) this assms(2)] False show ?thesis by (auto split: if_splits)
qed

definition sample_services :: "ServiceYaml list" where
  "sample_services = [\<lparr>sy_Name = ''hsia'', sy_CTag = 900, sy_STag = 900, sy_NeedsEapol = True, sy_NeedsDhcp = True,
     sy_NeedsIgmp = False, sy_NeedsPPPoE = False, sy_CTagAllocation = ''unique'', sy_STagAllocation = ''shared'',
     sy_TechnologyProfileID = 64, sy_UniTagMatch = 0, sy_ConfigureMacAddress = False, sy_EnableMacLearning = True,
     sy_UsPonCTagPriority = 0, sy_UsPonSTagPriority = 0, sy_DsPonCTagPriority = 0, sy_DsPonSTagPriority = 0\<rparr>]"

definition sample_place :: "uint32 \<Rightarrow> place" where
  "sample_place i = \<lparr>pl_onuId = 1, pl_ponPortId = 0, pl_portNo = 0, pl_uniId = i, pl_oltId = 0\<rparr>"

theorem unique_tags_witness:
  "\<exists>us t. new_unis sample_services [sample_place 0, sample_place 1, sample_place 2] \<lparr>nextCtag = [], nextStag = []\<rparr> = Ret (us, t)
     \<and> map (\<lambda>u. CTag (Services u ! 0)) us \<in> {[a, b, c] | a b c. distinct [a, b, c]}"
proof -
  let ?pls = "[sample_place 0, sample_place 1, sample_place 2]"
  have "distinct (map sy_Name sample_services)" "\<forall>pl \<in> set ?pls. pl_uniId pl < maxUniPorts" "\<forall>n < length ?pls. tags_fit sample_services n"
    by (simp_all add: sample_services_def sample_place_def maxUniPorts_def tags_fit_def tag_fits_def)
  with unique_tags[of sample_services ?pls] obtain us t
    where us: "new_unis sample_services ?pls \<lparr>nextCtag = [], nextStag = []\<rparr> = Ret (us, t)" "length us = 3"
      "distinct (map (\<lambda>u. CTag (Services u ! 0)) us)"
    by (auto simp: sample_services_def TagAllocationUnique_def)
  from us(2) obtain a b c where "us = [a, b, c]" by (auto simp: numeral_3_eq_3 length_Suc_conv)
  with us show ?thesis by auto
qed

section \<open>The contract of a port\<close>

definition me_num :: "EntityId \<Rightarrow> uint16" where
  "me_num e = from_be16 (e ! 0) (e ! 1)"

lemma ToUint16_me [simp]: "2 \<le> length e \<Longrightarrow> ToUint16 e = Ret (me_num e)"
  by (auto simp: ToUint16_def me_num_def split: list.splits)

lemma length_GenerateUniPortEntityId [simp]: "length (GenerateUniPortEntityId i) = 2"
  by (simp add: GenerateUniPortEntityId_def)

text \<open>\<open>for _, p := range ports { p.Disable() }\<close>, with the errors only logged.\<close>

definition disable_ports ::
  "('p \<times> onu_message chan \<Rightarrow> ('e \<times> 'p \<times> onu_message chan) go) \<Rightarrow> 'p list \<Rightarrow> onu_message chan \<Rightarrow> ('p list \<times> onu_message chan) go" where
  "disable_ports disable = go_each (\<lambda>p c. go_bind (disable (p, c)) (\<lambda>(_, w). Ret w))"

text \<open>
  What the ONU relies on, for UNIs and POTS ports alike: disabling a port that is down does nothing;
  disabling one that is up sends the alarm that its operational state calls for, blocks if and only
  if that send does, and leaves the port down; enabling is the mirror image.
\<close>

locale oper_port =
  fixes is_up :: "'p \<Rightarrow> bool"
    and ok :: "'p \<Rightarrow> bool"
    and alarm :: "'p \<Rightarrow> bool \<Rightarrow> onu_message"
    and enable disable :: "'p \<times> onu_message chan \<Rightarrow> ((oper_event, oper_state) fsm_error option \<times> 'p \<times> onu_message chan) go"
  assumes disable_down: "ok p \<Longrightarrow> \<not> is_up p \<Longrightarrow> disable (p, c) = Ret (None, p, c)"
    and disable_up: "ok p \<Longrightarrow> is_up p \<Longrightarrow> \<exists>p'. ok p' \<and> \<not> is_up p' \<and>
      (\<forall>c. disable (p, c) = go_bind (chan_send c (alarm p False)) (\<lambda>c'. Ret (None, p', c')))"
    and enable_down: "ok p \<Longrightarrow> \<not> is_up p \<Longrightarrow> \<exists>p'. ok p' \<and> is_up p' \<and>
      (\<forall>c. enable (p, c) = go_bind (chan_send c (alarm p True)) (\<lambda>c'. Ret (None, p', c')))"
    and enable_up: "ok p \<Longrightarrow> is_up p \<Longrightarrow> \<exists>e. enable (p, c) = Ret (Some e, p, c)"
begin

lemma disable_step:
  assumes "ok p" "chan_room c (n + of_bool (is_up p))"
  shows "\<exists>p' c'. disable (p, c) = Ret (None, p', c') \<and> ok p' \<and> \<not> is_up p' \<and> chan_room c' n \<and> chan_cap c' = chan_cap c
     \<and> chan_msgs c' = chan_msgs c @ (if is_up p then [alarm p False] else [])"
proof (cases "is_up p")
  case True
  obtain p' where p': "ok p'" "\<not> is_up p'" "disable (p, c) = go_bind (chan_send c (alarm p False)) (\<lambda>c'. Ret (None, p', c'))"
    using disable_up[OF assms(1) True] by blast
  obtain c' where "chan_send c (alarm p False) = Ret c'" "chan_room c' n" "chan_msgs c' = chan_msgs c @ [alarm p False]" "chan_cap c' = chan_cap c"
    using chan_send_room[of c n "alarm p False"] assms(2) True by auto
  with p' True show ?thesis by simp
next
  case False
  with disable_down[OF assms(1) False] assms show ?thesis by simp
qed

lemma all_disabled:
  assumes "\<forall>p \<in> set ps. ok p" "chan_room c (n + length (filter is_up ps))"
  shows "\<exists>ps' c'. disable_ports disable ps c = Ret (ps', c') \<and> length ps' = length ps
     \<and> (\<forall>p \<in> set ps'. ok p \<and> \<not> is_up p) \<and> chan_room c' n \<and> chan_cap c' = chan_cap c
     \<and> chan_msgs c' = chan_msgs c @ map (\<lambda>p. alarm p False) (filter is_up ps)"
  using assms
proof (induction ps arbitrary: c)
  case Nil
  then show ?case by (simp add: disable_ports_def)
next
  case (Cons p ps)
  obtain p' c1 where p': "disable (p, c) = Ret (None, p', c1)" "ok p'" "\<not> is_up p'" "chan_room c1 (n + length (filter is_up ps))"
    "chan_cap c1 = chan_cap c" "chan_msgs c1 = chan_msgs c @ (if is_up p then [alarm p False] else [])"
    using disable_step[of p c "n + length (filter is_up ps)"] Cons.prems by (cases "is_up p") auto
  from Cons.IH[OF _ p'(4)] Cons.prems(1) obtain ps' c' where "disable_ports disable ps c1 = Ret (ps', c')" "length ps' = length ps"
     "\<forall>p \<in> set ps'. ok p \<and> \<not> is_up p" "chan_room c' n" "chan_cap c' = chan_cap c1"
     "chan_msgs c' = chan_msgs c1 @ map (\<lambda>p. alarm p False) (filter is_up ps)"
    by auto
  with p' show ?case by (simp add: disable_ports_def)
qed

lemma all_disabled_Ret:
  assumes "\<forall>p \<in> set ps. ok p" "disable_ports disable ps (Chan k q False) = Ret (ps', c')"
  shows "(\<forall>p \<in> set ps'. ok p \<and> \<not> is_up p) \<and> (\<exists>q'. c' = Chan k q' False)"
  using assms
proof (induction ps arbitrary: q ps')
  case Nil
  then show ?case by (auto simp: disable_ports_def)
next
  case (Cons p ps)
  obtain e p1 c1 ps1 where d: "disable (p, Chan k q False) = Ret (e, p1, c1)" "disable_ports disable ps c1 = Ret (ps1, c')" "ps' = p1 # ps1"
    using Cons.prems(2) by (auto simp: disable_ports_def go_simps)
  have p1: "ok p1 \<and> \<not> is_up p1 \<and> (\<exists>q1. c1 = Chan k q1 False)"
  proof (cases "is_up p")
    case True
    then obtain p2 where "ok p2" "\<not> is_up p2" "disable (p, Chan k q False) = go_bind (chan_send (Chan k q False) (alarm p False)) (\<lambda>c'. Ret (None, p2, c'))"
      using disable_up[of p] Cons.prems(1) by auto
    with d(1) show ?thesis by (auto simp: go_simps)
  next
    case False
    then show ?thesis using disable_down[of p] Cons.prems(1) d(1) by auto
  qed
  then obtain q1 where "c1 = Chan k q1 False" by blast
  with Cons.IH[of q1 ps1] Cons.prems(1) d(2,3) p1 show ?case by auto
qed

text \<open>Locking and unlocking a port.\<close>

lemma set_state:
  assumes "ok p" "chan_room c (Suc n)"
  shows "\<exists>e p' c'. (if lock then disable else enable) (p, c) = Ret (e, p', c') \<and> ok p' \<and> is_up p' = (\<not> lock)
     \<and> chan_room c' n \<and> chan_msgs c' = chan_msgs c @ (if is_up p = lock then [alarm p (\<not> lock)] else [])"
proof (cases "is_up p = lock")
  case True
  obtain p' where p': "ok p'" "is_up p' = (\<not> lock)"
    "(if lock then disable else enable) (p, c) = go_bind (chan_send c (alarm p (\<not> lock))) (\<lambda>c'. Ret (None, p', c'))"
    using disable_up[OF assms(1)] enable_down[OF assms(1)] True by (cases lock) force+
  moreover obtain c' where "chan_send c (alarm p (\<not> lock)) = Ret c'" "chan_room c' n" "chan_msgs c' = chan_msgs c @ [alarm p (\<not> lock)]"
    using chan_send_room[OF assms(2)] by blast
  ultimately show ?thesis using True by auto
next
  case False
  then show ?thesis
    using disable_down[OF assms(1)] enable_up[OF assms(1), of c] assms chan_room_mono[OF assms(2), of n] by (cases lock) auto
qed

lemma set_no_panic:
  assumes "ok p" "chan_open c"
  shows "\<not> panics ((if lock then disable else enable) (p, c))"
proof (cases "is_up p = lock")
  case True
  then obtain q where "(if lock then disable else enable) (p, c) = go_bind (chan_send c (alarm p (\<not> lock))) (\<lambda>c'. Ret (None, q, c'))"
    using disable_up[OF assms(1)] enable_down[OF assms(1)] by (cases lock) force+
  then show ?thesis using chan_send_open[OF assms(2)] by (simp add: panics_bind)
next
  case False
  then obtain e where "(if lock then disable else enable) (p, c) = Ret (e, p, c)"
    using disable_down[OF assms(1)] enable_up[OF assms(1), of c] by (cases lock) auto
  then show ?thesis by simp
qed

lemma set_keeps:
  assumes "ok p" "(if lock then disable else enable) (p, c) = Ret (e, p', c')"
  shows "ok p' \<and> (c' = c \<or> (\<exists>m. chan_send c m = Ret c'))"
proof (cases "is_up p = lock")
  case True
  obtain q where "ok q" "(if lock then disable else enable) (p, c) = go_bind (chan_send c (alarm p (\<not> lock))) (\<lambda>c'. Ret (None, q, c'))"
    using disable_up[OF assms(1)] enable_down[OF assms(1)] True by (cases lock) force+
  with assms(2) show ?thesis by (auto simp: go_simps)
next
  case False
  then show ?thesis
    using disable_down[OF assms(1)] enable_up[OF assms(1), of c] assms by (cases lock) auto
qed

end

text \<open>The invariants of the two ports. The services of a UNI are initialised exactly while it is up.\<close>

definition uni_up :: "UniPort \<Rightarrow> bool" where
  "uni_up u \<longleftrightarrow> current (uni_OperState u) = oper_up"

definition uni_ok :: "UniPort \<Rightarrow> bool" where
  "uni_ok u \<longleftrightarrow> transitions (uni_OperState u) = transitions new_oper_state \<and> 2 \<le> length (uni_MeId u)
     \<and> (\<forall>s \<in> set (Services u). service_ok s \<and> (initialized s \<longleftrightarrow> uni_up u))
     \<and> (uni_up u \<longrightarrow> uni_listening u) \<and> (\<exists>q. uni_PacketCh u = Chan None q False)"

definition pots_up :: "PotsPort \<Rightarrow> bool" where
  "pots_up p \<longleftrightarrow> current (pots_OperState p) = oper_up"

definition pots_ok :: "PotsPort \<Rightarrow> bool" where
  "pots_ok p \<longleftrightarrow> transitions (pots_OperState p) = transitions new_oper_state \<and> 2 \<le> length (pots_MeId p)"

lemma oper_not_up [simp]: "(s \<noteq> oper_up) = (s = oper_down)" "(oper_up \<noteq> s) = (s = oper_down)"
  by (cases s; simp)+

lemma services_initialized:
  assumes "\<forall>s \<in> set ss. service_ok s"
  shows "\<exists>ss'. go_map (svc_Initialize st) ss = Ret ss' \<and> (\<forall>s \<in> set ss'. service_ok s \<and> initialized s)"
  using go_map_all[of ss "svc_Initialize st" "\<lambda>s. service_ok s \<and> initialized s"] svc_Initialize_ok assms by blast

lemma services_disabled:
  assumes "\<forall>s \<in> set ss. service_ok s"
  shows "\<exists>ss'. go_map svc_Disable ss = Ret ss' \<and> (\<forall>s \<in> set ss'. service_ok s \<and> \<not> initialized s)"
  using go_map_all[of ss svc_Disable "\<lambda>s. service_ok s \<and> \<not> initialized s"] svc_Disable_ok assms by blast

lemmas uni_event_defs = uni_Event_def fsm_Event_def uni_callbacks_def uni_put_def Let_def send_status_def

lemma uni_Event_down:
  assumes "uni_ok u" "uni_up u"
  shows "\<exists>u'. uni_ok u' \<and> \<not> uni_up u' \<and> (\<forall>c. uni_Event env tx_disable (u, c) =
    go_bind (chan_send c (status_alarm env (me_num (uni_MeId u)) False)) (\<lambda>c'. Ret (None, u', c')))"
proof -
  obtain ss where "go_map svc_Disable (Services u) = Ret ss" "\<forall>s \<in> set ss. service_ok s \<and> \<not> initialized s"
    using services_disabled assms(1) unfolding uni_ok_def by blast
  with assms show ?thesis
    by (intro exI[of _ "u\<lparr>uni_OperState := SetState oper_down (uni_OperState u), Services := ss\<rparr>"])
       (auto simp: uni_event_defs enter_uni_down_def uni_ok_def uni_up_def oper_next go_simps)
qed

lemma uni_Event_up:
  assumes "uni_ok u" "\<not> uni_up u"
  shows "\<exists>u'. uni_ok u' \<and> uni_up u' \<and> (\<forall>c. uni_Event env tx_enable (u, c) =
    go_bind (chan_send c (status_alarm env (me_num (uni_MeId u)) True)) (\<lambda>c'. Ret (None, u', c')))"
proof -
  obtain ss where "go_map (svc_Initialize (pe_stream env)) (Services u) = Ret ss" "\<forall>s \<in> set ss. service_ok s \<and> initialized s"
    using services_initialized assms(1) unfolding uni_ok_def by blast
  with assms show ?thesis
    by (intro exI[of _ "u\<lparr>uni_OperState := SetState oper_up (uni_OperState u), Services := ss, uni_listening := True\<rparr>"])
       (auto simp: uni_event_defs enter_uni_up_def uni_ok_def uni_up_def oper_next go_simps)
qed

interpretation uni_port: oper_port uni_up uni_ok "\<lambda>u. status_alarm env (me_num (uni_MeId u))" "uni_Enable env" "uni_Disable env"
proof unfold_locales
  fix u c
  assume u: "uni_ok u"
  show "\<not> uni_up u \<Longrightarrow> uni_Disable env (u, c) = Ret (None, u, c)"
    by (simp add: uni_Disable_def fsm_Is_def uni_up_def)
  show "uni_up u \<Longrightarrow> \<exists>u'. uni_ok u' \<and> \<not> uni_up u' \<and> (\<forall>c. uni_Disable env (u, c) =
      go_bind (chan_send c (status_alarm env (me_num (uni_MeId u)) False)) (\<lambda>c'. Ret (None, u', c')))"
    using uni_Event_down[OF u] by (simp add: uni_Disable_def fsm_Is_def uni_up_def)
  show "\<not> uni_up u \<Longrightarrow> \<exists>u'. uni_ok u' \<and> uni_up u' \<and> (\<forall>c. uni_Enable env (u, c) =
      go_bind (chan_send c (status_alarm env (me_num (uni_MeId u)) True)) (\<lambda>c'. Ret (None, u', c')))"
    using uni_Event_up[OF u] by (simp add: uni_Enable_def)
  show "uni_up u \<Longrightarrow> \<exists>e. uni_Enable env (u, c) = Ret (Some e, u, c)"
    using u by (simp add: uni_Enable_def uni_event_defs uni_ok_def uni_up_def oper_next)
qed

interpretation pots_port: oper_port pots_up pots_ok "\<lambda>p. status_alarm env (me_num (pots_MeId p))" "pots_Enable env" "pots_Disable env"
proof unfold_locales
  fix p c
  assume p: "pots_ok p"
  note defs = pots_Disable_def pots_Enable_def pots_Event_def fsm_Event_def pots_callbacks_def pots_put_def enter_pots_def
    send_status_def fsm_Is_def pots_ok_def pots_up_def oper_next go_simps Let_def
  show "\<not> pots_up p \<Longrightarrow> pots_Disable env (p, c) = Ret (None, p, c)"
    by (simp add: pots_Disable_def fsm_Is_def pots_up_def)
  show "pots_up p \<Longrightarrow> \<exists>p'. pots_ok p' \<and> \<not> pots_up p' \<and> (\<forall>c. pots_Disable env (p, c) =
      go_bind (chan_send c (status_alarm env (me_num (pots_MeId p)) False)) (\<lambda>c'. Ret (None, p', c')))"
    using p by (intro exI[of _ "p\<lparr>pots_OperState := SetState oper_down (pots_OperState p)\<rparr>"]) (auto simp: defs)
  show "\<not> pots_up p \<Longrightarrow> \<exists>p'. pots_ok p' \<and> pots_up p' \<and> (\<forall>c. pots_Enable env (p, c) =
      go_bind (chan_send c (status_alarm env (me_num (pots_MeId p)) True)) (\<lambda>c'. Ret (None, p', c')))"
    using p by (intro exI[of _ "p\<lparr>pots_OperState := SetState oper_up (pots_OperState p)\<rparr>"]) (auto simp: defs)
  show "pots_up p \<Longrightarrow> \<exists>e. pots_Enable env (p, c) = Ret (Some e, p, c)"
    using p by (simp add: defs)
qed

end
