(* ===== verification/Alarms.thy ===== *)
theory Alarms
  imports Ports
begin

text \<open>
  The alarm simulator (\<open>internal/bbsim/alarmsim/alarmsim.go\<close>, \<open>internal/common/alarms.go\<close>): the names of
  the alarms, the indication built for a request and its way to the channel of the OLT.
\<close>

section \<open>Names\<close>

datatype AlarmType =
    LOS | DYING_GASP | ONU_ALARM | ONU_STARTUP_FAILURE | ONU_SIGNAL_DEGRADE | ONU_DRIFT_OF_WINDOW
  | ONU_LOSS_OF_OMCI_CHANNEL | ONU_SIGNALS_FAILURE | ONU_TRANSMISSION_INTERFERENCE_WARNING
  | ONU_ACTIVATION_FAILURE | ONU_PROCESSING_ERROR | ONU_LOSS_OF_KEY_SYNC_FAILURE | ONU_ITU_PON_STATS
  | ONU_ALARM_LOS | ONU_ALARM_LOB | ONU_ALARM_LOPC_MISS | ONU_ALARM_LOPC_MIC_ERROR | ONU_ALARM_LOFI | ONU_ALARM_LOAMI

definition AlarmType_Types_name :: "(string \<times> AlarmType) list" where
  "AlarmType_Types_name =
     [(''LOS'', LOS), (''DYING_GASP'', DYING_GASP), (''ONU_ALARM'', ONU_ALARM),
      (''ONU_STARTUP_FAILURE'', ONU_STARTUP_FAILURE), (''ONU_SIGNAL_DEGRADE'', ONU_SIGNAL_DEGRADE),
      (''ONU_DRIFT_OF_WINDOW'', ONU_DRIFT_OF_WINDOW), (''ONU_LOSS_OF_OMCI_CHANNEL'', ONU_LOSS_OF_OMCI_CHANNEL),
      (''ONU_SIGNALS_FAILURE'', ONU_SIGNALS_FAILURE),
      (''ONU_TRANSMISSION_INTERFERENCE_WARNING'', ONU_TRANSMISSION_INTERFERENCE_WARNING),
      (''ONU_ACTIVATION_FAILURE'', ONU_ACTIVATION_FAILURE), (''ONU_PROCESSING_ERROR'', ONU_PROCESSING_ERROR),
      (''ONU_LOSS_OF_KEY_SYNC_FAILURE'', ONU_LOSS_OF_KEY_SYNC_FAILURE), (''ONU_ITU_PON_STATS'', ONU_ITU_PON_STATS),
      (''ONU_ALARM_LOS'', ONU_ALARM_LOS), (''ONU_ALARM_LOB'', ONU_ALARM_LOB),
      (''ONU_ALARM_LOPC_MISS'', ONU_ALARM_LOPC_MISS), (''ONU_ALARM_LOPC_MIC_ERROR'', ONU_ALARM_LOPC_MIC_ERROR),
      (''ONU_ALARM_LOFI'', ONU_ALARM_LOFI), (''ONU_ALARM_LOAMI'', ONU_ALARM_LOAMI)]"

definition ONUAlarms :: "(string, AlarmType) gomap" where
  "ONUAlarms = filter (\<lambda>(name, i). i \<noteq> LOS) AlarmType_Types_name"

definition AlarmNameToEnum :: "string \<Rightarrow> AlarmType option" where
  "AlarmNameToEnum name = map_of ONUAlarms name"

section \<open>Requests\<close>

record AlarmParameter =
  Key :: string
  Value :: string

record ONUAlarmRequest =
  ar_AlarmType :: string
  ar_Parameters :: "AlarmParameter list"
  Status :: string

text \<open>\<open>strconv.Atoi\<close>: an optional sign and decimal digits, in the range of a 64-bit \<open>int\<close>.\<close>

definition is_digit :: "char \<Rightarrow> bool" where
  "is_digit c \<longleftrightarrow> 48 \<le> (of_char c :: nat) \<and> (of_char c :: nat) \<le> 57"

definition digit_val :: "char \<Rightarrow> nat" where
  "digit_val c = of_char c - 48"

definition parse_int :: "string \<Rightarrow> int option" where
  "parse_int s =
     (let neg = (case s of c # _ \<Rightarrow> c = CHR ''-'' | [] \<Rightarrow> False);
          ds = (case s of c # cs \<Rightarrow> if c = CHR ''-'' \<or> c = CHR ''+'' then cs else s | [] \<Rightarrow> []);
          v = (if neg then - int (digits_val (map digit_val ds)) else int (digits_val (map digit_val ds)))
      in if ds \<noteq> [] \<and> list_all is_digit ds \<and> - (2 ^ 63) \<le> v \<and> v < 2 ^ 63 then Some v else None)"

fun extractInt :: "AlarmParameter list \<Rightarrow> string \<Rightarrow> int \<Rightarrow> int" where
  "extractInt [] name d = d"
| "extractInt (kv # kvs) name d =
     (if Key kv = name then (case parse_int (Value kv) of Some i \<Rightarrow> i | None \<Rightarrow> extractInt kvs name d)
      else extractInt kvs name d)"

definition no_onu_alarm :: "uint32 \<Rightarrow> uint32 \<Rightarrow> OnuAlarmIndication" where
  "no_onu_alarm ponPortID onuID = \<lparr>oa_IntfId = ponPortID, oa_OnuId = onuID, LosStatus = [], LobStatus = [], LopcMissStatus = [],
     LopcMicErrorStatus = [], LofiStatus = [], LoamiStatus = []\<rparr>"

definition BuildOnuAlarmIndication :: "ONUAlarmRequest \<Rightarrow> uint32 \<Rightarrow> uint32 \<Rightarrow> AlarmIndication option" where
  "BuildOnuAlarmIndication req onuID ponPortID =
     (let ex = (\<lambda>name. extractInt (ar_Parameters req) name 0); a = no_onu_alarm ponPortID onuID; st = Status req in
      case AlarmNameToEnum (ar_AlarmType req) of None \<Rightarrow> None
      | Some t \<Rightarrow> (case t of
          DYING_GASP \<Rightarrow> Some (DyingGaspInd ponPortID onuID st)
        | ONU_STARTUP_FAILURE \<Rightarrow> Some (OnuStartupFailInd ponPortID onuID st)
        | ONU_SIGNAL_DEGRADE \<Rightarrow> Some (OnuSignalDegradeInd ponPortID onuID st (of_int (ex ''InverseBitErrorRate'')))
        | ONU_SIGNALS_FAILURE \<Rightarrow> Some (OnuSignalsFailInd ponPortID onuID st (of_int (ex ''InverseBitErrorRate'')))
        | ONU_DRIFT_OF_WINDOW \<Rightarrow> Some (OnuDriftOfWindowInd ponPortID onuID st (of_int (ex ''Drift'')) (of_int (ex ''NewEqd'')))
        | ONU_LOSS_OF_OMCI_CHANNEL \<Rightarrow> Some (OnuLossOmciInd ponPortID onuID st)
        | ONU_TRANSMISSION_INTERFERENCE_WARNING \<Rightarrow> Some (OnuTiwiInd ponPortID onuID st (of_int (ex ''Drift'')))
        | ONU_ACTIVATION_FAILURE \<Rightarrow> Some (OnuActivationFailInd ponPortID onuID (of_int (ex ''FailReason'')))
        | ONU_PROCESSING_ERROR \<Rightarrow> Some (OnuProcessingErrorInd ponPortID onuID)
        | ONU_LOSS_OF_KEY_SYNC_FAILURE \<Rightarrow> Some (OnuLossOfSyncFailInd ponPortID onuID st)
        | ONU_ITU_PON_STATS \<Rightarrow> Some (OnuItuPonStatsInd ponPortID onuID (of_int (ex ''RdiErrors'')) st)
        | ONU_ALARM_LOS \<Rightarrow> Some (OnuAlarmInd (a\<lparr>LosStatus := st\<rparr>))
        | ONU_ALARM_LOB \<Rightarrow> Some (OnuAlarmInd (a\<lparr>LobStatus := st\<rparr>))
        | ONU_ALARM_LOPC_MISS \<Rightarrow> Some (OnuAlarmInd (a\<lparr>LopcMissStatus := st\<rparr>))
        | ONU_ALARM_LOPC_MIC_ERROR \<Rightarrow> Some (OnuAlarmInd (a\<lparr>LopcMicErrorStatus := st\<rparr>))
        | ONU_ALARM_LOFI \<Rightarrow> Some (OnuAlarmInd (a\<lparr>LofiStatus := st\<rparr>))
        | ONU_ALARM_LOAMI \<Rightarrow> Some (OnuAlarmInd (a\<lparr>LoamiStatus := st\<rparr>))
        | LOS \<Rightarrow> None
        | ONU_ALARM \<Rightarrow> None))"

text \<open>The result is \<open>True\<close> for a nil error.\<close>

definition SimulateOnuAlarm ::
  "ONUAlarmRequest \<Rightarrow> uint32 \<Rightarrow> uint32 \<Rightarrow> olt_message chan \<Rightarrow> (bool \<times> olt_message chan) go" where
  "SimulateOnuAlarm req onuID ponPortID channel =
     (case BuildOnuAlarmIndication req onuID ponPortID of
        None \<Rightarrow> Ret (False, channel)
      | Some alarm \<Rightarrow> go_bind (chan_send channel (AlarmIndicationMsg alarm)) (\<lambda>c. Ret (True, c)))"

section \<open>Correctness\<close>

text \<open>The interface and the ONU that an alarm indication names; \<open>None\<close> for alarms of the OLT.\<close>

definition alarm_source :: "AlarmIndication \<Rightarrow> (uint32 \<times> uint32) option" where
  "alarm_source a = (case a of
      LosInd i _ \<Rightarrow> None
    | DyingGaspInd i onu _ \<Rightarrow> Some (i, onu)
    | OnuStartupFailInd i onu _ \<Rightarrow> Some (i, onu)
    | OnuSignalDegradeInd i onu _ _ \<Rightarrow> Some (i, onu)
    | OnuSignalsFailInd i onu _ _ \<Rightarrow> Some (i, onu)
    | OnuDriftOfWindowInd i onu _ _ _ \<Rightarrow> Some (i, onu)
    | OnuLossOmciInd i onu _ \<Rightarrow> Some (i, onu)
    | OnuTiwiInd i onu _ _ \<Rightarrow> Some (i, onu)
    | OnuActivationFailInd i onu _ \<Rightarrow> Some (i, onu)
    | OnuProcessingErrorInd i onu \<Rightarrow> Some (i, onu)
    | OnuLossOfSyncFailInd i onu _ \<Rightarrow> Some (i, onu)
    | OnuItuPonStatsInd i onu _ _ \<Rightarrow> Some (i, onu)
    | OnuAlarmInd a \<Rightarrow> Some (oa_IntfId a, oa_OnuId a))"

text \<open>The name of the alarm that an indication stands for, with its status where the indication has one.\<close>

definition alarm_report :: "AlarmIndication \<Rightarrow> (string \<times> string) list" where
  "alarm_report a = (case a of
      LosInd i st \<Rightarrow> [(''LOS'', st)]
    | DyingGaspInd _ _ st \<Rightarrow> [(''DYING_GASP'', st)]
    | OnuStartupFailInd _ _ st \<Rightarrow> [(''ONU_STARTUP_FAILURE'', st)]
    | OnuSignalDegradeInd _ _ st _ \<Rightarrow> [(''ONU_SIGNAL_DEGRADE'', st)]
    | OnuSignalsFailInd _ _ st _ \<Rightarrow> [(''ONU_SIGNALS_FAILURE'', st)]
    | OnuDriftOfWindowInd _ _ st _ _ \<Rightarrow> [(''ONU_DRIFT_OF_WINDOW'', st)]
    | OnuLossOmciInd _ _ st \<Rightarrow> [(''ONU_LOSS_OF_OMCI_CHANNEL'', st)]
    | OnuTiwiInd _ _ st _ \<Rightarrow> [(''ONU_TRANSMISSION_INTERFERENCE_WARNING'', st)]
    | OnuActivationFailInd _ _ _ \<Rightarrow> [(''ONU_ACTIVATION_FAILURE'', [])]
    | OnuProcessingErrorInd _ _ \<Rightarrow> [(''ONU_PROCESSING_ERROR'', [])]
    | OnuLossOfSyncFailInd _ _ st \<Rightarrow> [(''ONU_LOSS_OF_KEY_SYNC_FAILURE'', st)]
    | OnuItuPonStatsInd _ _ _ st \<Rightarrow> [(''ONU_ITU_PON_STATS'', st)]
    | OnuAlarmInd x \<Rightarrow> filter (\<lambda>(_, st). st \<noteq> [])
        [(''ONU_ALARM_LOS'', LosStatus x), (''ONU_ALARM_LOB'', LobStatus x), (''ONU_ALARM_LOPC_MISS'', LopcMissStatus x),
         (''ONU_ALARM_LOPC_MIC_ERROR'', LopcMicErrorStatus x), (''ONU_ALARM_LOFI'', LofiStatus x), (''ONU_ALARM_LOAMI'', LoamiStatus x)])"

text \<open>The numbers that an indication carries, with their width, by the name of the parameter they are asked for with.\<close>

definition alarm_values :: "AlarmIndication \<Rightarrow> (string \<times> nat \<times> int) list" where
  "alarm_values a = (case a of
      OnuSignalDegradeInd _ _ _ r \<Rightarrow> [(''InverseBitErrorRate'', 32, uint r)]
    | OnuSignalsFailInd _ _ _ r \<Rightarrow> [(''InverseBitErrorRate'', 32, uint r)]
    | OnuDriftOfWindowInd _ _ _ d e \<Rightarrow> [(''Drift'', 32, uint d), (''NewEqd'', 32, uint e)]
    | OnuTiwiInd _ _ _ d \<Rightarrow> [(''Drift'', 32, uint d)]
    | OnuActivationFailInd _ _ r \<Rightarrow> [(''FailReason'', 32, uint r)]
    | OnuItuPonStatsInd _ _ r _ \<Rightarrow> [(''RdiErrors'', 64, uint r)]
    | _ \<Rightarrow> [])"

definition statusless_alarms :: "string list" where
  "statusless_alarms = [''ONU_ACTIVATION_FAILURE'', ''ONU_PROCESSING_ERROR'']"

definition onu_alarm_names :: "string list" where
  "onu_alarm_names = statusless_alarms @
     [''DYING_GASP'', ''ONU_STARTUP_FAILURE'', ''ONU_SIGNAL_DEGRADE'', ''ONU_DRIFT_OF_WINDOW'', ''ONU_LOSS_OF_OMCI_CHANNEL'',
      ''ONU_SIGNALS_FAILURE'', ''ONU_TRANSMISSION_INTERFERENCE_WARNING'', ''ONU_LOSS_OF_KEY_SYNC_FAILURE'', ''ONU_ITU_PON_STATS'',
      ''ONU_ALARM_LOS'', ''ONU_ALARM_LOB'', ''ONU_ALARM_LOPC_MISS'', ''ONU_ALARM_LOPC_MIC_ERROR'', ''ONU_ALARM_LOFI'', ''ONU_ALARM_LOAMI'']"

lemma AlarmNameToEnum_names:
  "ar_AlarmType req \<in> set onu_alarm_names \<longleftrightarrow> (\<exists>t. AlarmNameToEnum (ar_AlarmType req) = Some t \<and> t \<noteq> ONU_ALARM \<and> t \<noteq> LOS)"
  by (auto simp: AlarmNameToEnum_def ONUAlarms_def AlarmType_Types_name_def onu_alarm_names_def statusless_alarms_def)

lemma build_none: "ar_AlarmType req \<notin> set onu_alarm_names \<Longrightarrow> BuildOnuAlarmIndication req onuID ponPortID = None"
  unfolding AlarmNameToEnum_names by (auto simp: BuildOnuAlarmIndication_def Let_def split: option.split AlarmType.split)

lemma build_some:
  assumes "ar_AlarmType req \<in> set onu_alarm_names" "Status req \<noteq> []"
  shows "\<exists>a. BuildOnuAlarmIndication req onuID ponPortID = Some a \<and> alarm_source a = Some (ponPortID, onuID)
    \<and> alarm_report a = [(ar_AlarmType req, if ar_AlarmType req \<in> set statusless_alarms then [] else Status req)]
    \<and> (\<forall>(k, w, v) \<in> set (alarm_values a). v = extractInt (ar_Parameters req) k 0 mod 2 ^ w)"
  using assms unfolding onu_alarm_names_def statusless_alarms_def set_append list.set Un_iff insert_iff empty_iff
  by (elim disjE) (simp_all add: BuildOnuAlarmIndication_def AlarmNameToEnum_def ONUAlarms_def AlarmType_Types_name_def Let_def
      alarm_source_def alarm_report_def alarm_values_def no_onu_alarm_def uint_word_of_int)

text \<open>
  C40: a request for an ONU alarm, with a status, is simulated for exactly seventeen names, those of the ONU alarms other than
  \<open>ONU_ALARM\<close>, which the table of names accepts and the builder rejects. Then exactly one message goes to the OLT channel: an alarm indication of that ONU and
  interface that reports the alarm asked for and no other, with the status asked for (two of the alarms have none), and whose numbers are
  the request's parameters of that name modulo the width of the field, 0 for a parameter that is missing. For every other name the request fails and the channel is unchanged.
\<close>

theorem onu_alarm_simulated:
  assumes "chan_room c 1" "Status req \<noteq> []"
  shows "if ar_AlarmType req \<in> set onu_alarm_names
     then \<exists>c' a. SimulateOnuAlarm req onuID ponPortID c = Ret (True, c') \<and> chan_msgs c' = chan_msgs c @ [AlarmIndicationMsg a]
       \<and> alarm_source a = Some (ponPortID, onuID)
       \<and> alarm_report a = [(ar_AlarmType req, if ar_AlarmType req \<in> set statusless_alarms then [] else Status req)]
       \<and> (\<forall>(k, w, v) \<in> set (alarm_values a). v = extractInt (ar_Parameters req) k 0 mod 2 ^ w)
     else SimulateOnuAlarm req onuID ponPortID c = Ret (False, c)"
proof (cases "ar_AlarmType req \<in> set onu_alarm_names")
  case True
  obtain a where a: "BuildOnuAlarmIndication req onuID ponPortID = Some a" "alarm_source a = Some (ponPortID, onuID)"
    "alarm_report a = [(ar_AlarmType req, if ar_AlarmType req \<in> set statusless_alarms then [] else Status req)]"
    "\<forall>(k, w, v) \<in> set (alarm_values a). v = extractInt (ar_Parameters req) k 0 mod 2 ^ w"
    using build_some[OF True assms(2)] by blast
  obtain c' where "chan_send c (AlarmIndicationMsg a) = Ret c'" "chan_msgs c' = chan_msgs c @ [AlarmIndicationMsg a]"
    using chan_send_room[of c 0] assms(1) by auto
  with True a show ?thesis by (auto simp: SimulateOnuAlarm_def)
next
  case False
  with build_none[OF False] show ?thesis by (simp add: SimulateOnuAlarm_def)
qed

definition sample_alarm :: ONUAlarmRequest where
  "sample_alarm = \<lparr>ar_AlarmType = ''ONU_DRIFT_OF_WINDOW'', ar_Parameters = [\<lparr>Key = ''Drift'', Value = ''12''\<rparr>], Status = ''on''\<rparr>"

theorem onu_alarm_simulated_witness:
  "\<exists>c' a. SimulateOnuAlarm sample_alarm 3 1 (make_chan None) = Ret (True, c') \<and> chan_msgs c' = [AlarmIndicationMsg a]
     \<and> alarm_source a = Some (1, 3) \<and> alarm_report a = [(''ONU_DRIFT_OF_WINDOW'', ''on'')]"
proof -
  have "chan_room (make_chan None) 1" "Status sample_alarm \<noteq> []" by (simp_all add: make_chan_def sample_alarm_def)
  moreover have "ar_AlarmType sample_alarm \<in> set onu_alarm_names" "ar_AlarmType sample_alarm \<notin> set statusless_alarms"
    by (simp_all add: sample_alarm_def onu_alarm_names_def statusless_alarms_def)
  ultimately show ?thesis using onu_alarm_simulated[of "make_chan None" sample_alarm 3 1]
    by (auto simp: sample_alarm_def)
qed

end
