(* ===== verification/MibDatabase.thy ===== *)
theory MibDatabase
  imports OmciMsgs Options
begin

text \<open>
  The MIB database of an ONU (\<open>GenerateMibDatabase\<close> and \<open>AppendAdditionalMEs\<close> in
  \<open>internal/common/omci/onu_mib_db.go\<close>): the baseline entries one by one, the packets with unknown
  entities and attributes, and the packing of the entries into extended responses. The serialisation
  of an extended response is that of the OMCI library, a function of the entities it reports.
\<close>

section \<open>Entries\<close>

definition ToOctets :: "string \<Rightarrow> nat \<Rightarrow> byte list" where
  "ToOctets str n = map of_char str @ replicate (n - length str) 0"

definition mib_entry :: "ClassID \<Rightarrow> EntityId \<Rightarrow> attr_map \<Rightarrow> MibDbEntry" where
  "mib_entry cls eid ps = \<lparr>classId = cls, entityId = eid, params = ps, packet = None\<rparr>"

definition custom_entry :: "ClassID \<Rightarrow> byte list \<Rightarrow> MibDbEntry" where
  "custom_entry cls pkt = \<lparr>classId = cls, entityId = [], params = [], packet = Some pkt\<rparr>"

definition ethernetUnitType :: byte where "ethernetUnitType = 0x2f"
definition xgsPonUnitType :: byte where "xgsPonUnitType = 0xee"
definition gPonUnitType :: byte where "gPonUnitType = 0xf5"
definition potsUnitType :: byte where "potsUnitType = 0x20"
definition tcontSlotId :: byte where "tcontSlotId = 0x80"
definition aniGId :: byte where "aniGId = 0x01"

definition CircuitPackClassID :: ClassID where "CircuitPackClassID = 6"
definition PriorityQueueClassID :: ClassID where "PriorityQueueClassID = 277"
definition TrafficSchedulerClassID :: ClassID where "TrafficSchedulerClassID = 278"
definition Onu2GClassID :: ClassID where "Onu2GClassID = 257"

definition circuitPackEntityID :: EntityId where
  "circuitPackEntityID = [0x01, cardHolderSlotID]"

text \<open>A circuit pack is too big for one message and is reported in four.\<close>

definition circuitPack :: "byte \<Rightarrow> nat \<Rightarrow> string \<Rightarrow> nat \<Rightarrow> MibDbEntry list" where
  "circuitPack unit ports serial schedulers =
     map (mib_entry CircuitPackClassID circuitPackEntityID)
       [[(''Type'', AttrNum (unat unit)), (''NumberOfPorts'', AttrNum ports),
         (''SerialNumber'', AttrOctets (ToOctets serial 20)), (''Version'', AttrOctets (ToOctets ''v0.0.1'' 20))],
        [(''VendorId'', AttrOctets (ToOctets ''ONF'' 4)), (''AdministrativeState'', AttrNum 0),
         (''OperationalState'', AttrNum 0), (''BridgedOrIpInd'', AttrNum 0)],
        [(''EquipmentId'', AttrOctets (ToOctets ''BBSM-Circuit-Pack'' 20)), (''CardConfiguration'', AttrNum 0),
         (''TotalTContBufferNumber'', AttrNum 8), (''TotalPriorityQueueNumber'', AttrNum 8),
         (''TotalTrafficSchedulerNumber'', AttrNum schedulers)],
        [(''PowerShedOverride'', AttrNum 0)]]"

definition aniG :: MibDbEntry where
  "aniG = mib_entry AniGClassID [tcontSlotId, aniGId]
     [(''Arc'', AttrNum 0), (''ArcInterval'', AttrNum 0), (''Deprecated'', AttrNum 0), (''GemBlockLength'', AttrNum 48),
      (''LowerOpticalThreshold'', AttrNum 255), (''LowerTransmitPowerThreshold'', AttrNum 129), (''OnuResponseTime'', AttrNum 0),
      (''OpticalSignalLevel'', AttrNum 57428), (''PiggybackDbaReporting'', AttrNum 0), (''SignalDegradeThreshold'', AttrNum 9),
      (''SignalFailThreshold'', AttrNum 5), (''SrIndication'', AttrNum 1), (''TotalTcontNumber'', AttrNum 8),
      (''TransmitOpticalLevel'', AttrNum 3171), (''UpperOpticalThreshold'', AttrNum 255), (''UpperTransmitPowerThreshold'', AttrNum 129)]"

definition pptpEthernet :: "EntityId \<Rightarrow> MibDbEntry" where
  "pptpEthernet uniEntityId = mib_entry PptpEthernetUniClassID uniEntityId
     [(''ExpectedType'', AttrNum 0), (''SensedType'', AttrNum (unat ethernetUnitType)), (''AutoDetectionConfiguration'', AttrNum 0),
      (''EthernetLoopbackConfiguration'', AttrNum 0), (''AdministrativeState'', AttrNum 0), (''OperationalState'', AttrNum 0),
      (''ConfigurationInd'', AttrNum 3), (''MaxFrameSize'', AttrNum 1518), (''DteOrDceInd'', AttrNum 0), (''PauseTime'', AttrNum 0),
      (''BridgedOrIpInd'', AttrNum 2), (''Arc'', AttrNum 0), (''ArcInterval'', AttrNum 0), (''PppoeFilter'', AttrNum 0), (''PowerControl'', AttrNum 0)]"

definition pptpPots :: "EntityId \<Rightarrow> MibDbEntry" where
  "pptpPots uniEntityId = mib_entry PptpPotsUniClassID uniEntityId
     [(''AdministrativeState'', AttrNum 0), (''Deprecated'', AttrNum 0), (''Arc'', AttrNum 0), (''ArcInterval'', AttrNum 0),
      (''Impedance'', AttrNum 0), (''TransmissionPath'', AttrNum 0), (''RxGain'', AttrNum 0), (''TxGain'', AttrNum 0),
      (''OperationalState'', AttrNum 0), (''HookState'', AttrNum 0), (''PotsHoldoverTime'', AttrNum 0),
      (''NominalFeedVoltage'', AttrNum 0), (''LossOfSoftswitch'', AttrNum 0)]"

definition uniG :: "EntityId \<Rightarrow> MibDbEntry" where
  "uniG uniEntityId = mib_entry UniGClassID uniEntityId
     [(''AdministrativeState'', AttrNum 0), (''Deprecated'', AttrNum 0), (''ManagementCapability'', AttrNum 0),
      (''NonOmciManagementIdentifier'', AttrNum 0), (''RelayAgentOptions'', AttrNum 0)]"

text \<open>
  A priority queue is reported without attributes and then with them. Its related port is the entity
  id of the UNI or T-CONT it belongs to followed by the priority.
\<close>

definition related_port :: "EntityId \<Rightarrow> nat \<Rightarrow> nat" where
  "related_port owner j = unat (from_be16 (owner ! 0) (owner ! 1)) * 65536 + unat (of_nat j :: byte)"

definition priorityQueue :: "EntityId \<Rightarrow> EntityId \<Rightarrow> nat \<Rightarrow> nat \<Rightarrow> MibDbEntry list" where
  "priorityQueue queueEntityId owner j scheduler =
     [mib_entry PriorityQueueClassID queueEntityId [],
      mib_entry PriorityQueueClassID queueEntityId
        [(''QueueConfigurationOption'', AttrNum 0), (''MaximumQueueSize'', AttrNum 100), (''AllocatedQueueSize'', AttrNum 100),
         (''DiscardBlockCounterResetInterval'', AttrNum 0), (''ThresholdValueForDiscardedBlocksDueToBufferOverflow'', AttrNum 0),
         (''RelatedPort'', AttrNum (related_port owner j)), (''TrafficSchedulerPointer'', AttrNum scheduler), (''Weight'', AttrNum 1),
         (''BackPressureOperation'', AttrNum 1), (''BackPressureTime'', AttrNum 0), (''BackPressureOccurQueueThreshold'', AttrNum 0),
         (''BackPressureClearQueueThreshold'', AttrNum 0)]]"

text \<open>\<open>byte(i<<4 + j)\<close>.\<close>

definition queue_no :: "nat \<Rightarrow> nat \<Rightarrow> byte" where
  "queue_no i j = of_nat (i * 16 + j)"

definition uni_items :: "nat \<Rightarrow> nat \<Rightarrow> MibDbEntry list" where
  "uni_items ethUniPortCount i =
     (let uniEntityId = GenerateUniPortEntityId (of_nat i) in
      [if i \<le> ethUniPortCount then pptpEthernet uniEntityId else pptpPots uniEntityId, uniG uniEntityId]
      @ concat (map (\<lambda>j. priorityQueue [cardHolderSlotID, queue_no i j] uniEntityId j 0) [0..<8]))"

definition tcont_items :: "nat \<Rightarrow> MibDbEntry list" where
  "tcont_items i =
     (let tcontEntityId = [tcontSlotId, of_nat i]; tsEntityId = [cardHolderSlotID, of_nat i];
          num = (\<lambda>e. unat (from_be16 (e ! 0) (e ! 1))) in
      [mib_entry TContClassID tcontEntityId [(''AllocId'', AttrNum 65535)],
       mib_entry TrafficSchedulerClassID tsEntityId
         [(''TContPointer'', AttrNum (num tcontEntityId)), (''TrafficSchedulerPointer'', AttrNum 0),
          (''Policy'', AttrNum 2), (''PriorityWeight'', AttrNum 0)]]
      @ concat (map (\<lambda>j. priorityQueue [tcontSlotId, queue_no i j] tcontEntityId j (num tsEntityId)) [0..<8]))"

definition onu2g :: MibDbEntry where
  "onu2g = mib_entry Onu2GClassID [0, 0]
     [(''TotalPriorityQueueNumber'', AttrNum 64), (''TotalTrafficSchedulerNumber'', AttrNum 8), (''Deprecated'', AttrNum 1),
      (''TotalGemPortIdNumber'', AttrNum 8), (''Sysuptime'', AttrNum 6), (''ConnectivityCapability'', AttrNum 127),
      (''CurrentConnectivityMode'', AttrNum 7), (''QualityOfServiceQosConfigurationFlexibility'', AttrNum 63),
      (''PriorityQueueScaleFactor'', AttrNum 1)]"

section \<open>Packets with unknown entities\<close>

text \<open>The hexadecimal constants, decoded.\<close>

definition unknownMePktReportedMeHdr :: "byte list" where
  "unknownMePktReportedMeHdr = [0x00, 0x25, 0x00, 0x01, 0x80, 0x00]"

definition unknownMePktAttributes :: "byte list" where
  "unknownMePktAttributes = [0x01, 0x02, 0x03, 0x04, 0x05, 0x06, 0x07, 0x08, 0x09, 0x0A, 0x0B, 0x0C, 0x0D, 0x0E, 0x0F, 0x10,
     0x11, 0x12, 0x13, 0x14, 0x15, 0x16, 0x17, 0x18, 0x19, 0x1A]"

definition unknownAttribPktReportedMeHdr :: "byte list" where
  "unknownAttribPktReportedMeHdr = [0x01, 0x01, 0x00, 0x00, 0x07, 0xFD]"

definition unknownAttribPktAttributes :: "byte list" where
  "unknownAttribPktAttributes = [0x00, 0x40, 0x08, 0x01, 0x00, 0x08, 0x00, 0x00, 0x00, 0x06, 0x00, 0x7F, 0x07, 0x00, 0x3F, 0x00,
     0x01, 0x00, 0x01, 0x00, 0x01, 0x00, 0x01, 0x00, 0x00, 0x00]"

definition custom_packet :: "byte list \<Rightarrow> byte list \<Rightarrow> byte list" where
  "custom_packet hdr attrs = be16 33066 @ [0x2e, BaselineIdent] @ [0x00, 0x02, 0x00, 0x00] @ hdr @ attrs
     @ [0x00, 0x00, 0x00, 0x28, 0x28, 0xce, 0x00, 0xe2]"

record inject_config =
  InjectOmciUnknownMe :: bool
  InjectOmciUnknownAttributes :: bool

section \<open>The database\<close>

definition baseline_items :: "nat \<Rightarrow> nat \<Rightarrow> PonTechnology \<Rightarrow> inject_config \<Rightarrow> MibDbEntry list" where
  "baseline_items ethUniPortCount potsUniPortCount technology cfg =
     [mib_entry OnuDataClassID [0, 0] [(''MibDataSync'', AttrNum 0)]]
     @ circuitPack (case technology of XGSPON \<Rightarrow> xgsPonUnitType | GPON \<Rightarrow> gPonUnitType) 1 ''BBSM-Circuit-Pack-ani'' 0
     @ [aniG]
     @ circuitPack ethernetUnitType ethUniPortCount ''BBSM-Circuit-Pack'' 16
     @ (if potsUniPortCount > 0 then circuitPack potsUnitType potsUniPortCount ''BBSM-Circuit-Pack'' 16 else [])
     @ concat (map (uni_items ethUniPortCount) [1..<Suc (ethUniPortCount + potsUniPortCount)])
     @ concat (map tcont_items [1..<9])
     @ [if InjectOmciUnknownAttributes cfg
        then custom_entry Onu2GClassID (custom_packet unknownAttribPktReportedMeHdr unknownAttribPktAttributes) else onu2g]
     @ (if InjectOmciUnknownMe cfg
        then [custom_entry 37 (custom_packet unknownMePktReportedMeHdr unknownMePktAttributes)] else [])"

text \<open>
  Extended responses. The loop runs over the first \<open>NumberOfBaselineCommands\<close> entries, a 16-bit number: \<open>k\<close> counts the
  entries before that bound, and the list are the entries from the current index on. Entities are added to a response while it is not
  longer than 1980 - 48 bytes; the bytes are those of the last serialisation, so that a response that never got a second entity is
  empty. Entries with a packet of their own are skipped, at the start of a response without a look at the bound; if nothing follows them
  there the index runs past the end.
\<close>

type_synonym ext_serializer = "MibDbEntry list \<Rightarrow> byte list"

fun ext_add ::
  "ext_serializer \<Rightarrow> MibDbEntry list \<Rightarrow> byte list \<Rightarrow> nat \<Rightarrow> MibDbEntry list \<Rightarrow> byte list \<times> nat \<times> MibDbEntry list" where
  "ext_add ser mes outgoingPacket k [] = (outgoingPacket, k, [])"
| "ext_add ser mes outgoingPacket k (e # rest) =
     (if length outgoingPacket > 1980 - 48 \<or> k = 0 then (outgoingPacket, k, e # rest)
      else if packet e \<noteq> None then ext_add ser mes outgoingPacket (k - 1) rest
      else ext_add ser (mes @ [e]) (ser (mes @ [e])) (k - 1) rest)"

lemma ext_add_bound: "fst (snd (ext_add ser mes pkt k rest)) \<le> k"
  by (induction ser mes pkt k rest rule: ext_add.induct) (auto intro: le_trans)

function ext_responses :: "ext_serializer \<Rightarrow> nat \<Rightarrow> MibDbEntry list \<Rightarrow> byte list list go" where
  "ext_responses ser k items =
     (if k = 0 then Ret []
      else case dropWhile (\<lambda>e. packet e \<noteq> None) items of
        [] \<Rightarrow> Panic IndexOutOfRange
      | e # rest \<Rightarrow>
          let r = ext_add ser [e] [] (k - (length items - length rest)) rest in
          go_bind (ext_responses ser (fst (snd r)) (snd (snd r))) (\<lambda>ps. Ret (fst r # ps)))"
  by pat_completeness auto

termination ext_responses
proof (relation "measure (\<lambda>(ser, k, items). k)")
  fix ser :: ext_serializer and k items e rest r
  assume k: "k \<noteq> 0" and d: "dropWhile (\<lambda>e. packet e \<noteq> None) items = e # rest"
    and r: "r = ext_add ser [e] [] (k - (length items - length rest)) rest"
  have "length (e # rest) \<le> length items" unfolding d[symmetric] by (rule length_dropWhile_le)
  then have "fst (snd r) < k"
    using ext_add_bound[of ser "[e]" "[]" "k - (length items - length rest)" rest] r k by simp
  then show "((ser, fst (snd r), snd (snd r)), (ser, k, items)) \<in> measure (\<lambda>(ser, k, items). k)" by (simp add: split_beta)
qed simp

declare ext_responses.simps [simp del]

definition AppendAdditionalMEs :: "byte list \<Rightarrow> byte list \<Rightarrow> byte list \<Rightarrow> byte list" where
  "AppendAdditionalMEs srcSlice reportedMeHdr attribBytes =
     (let data = be16 (of_nat (length attribBytes)) @ reportedMeHdr @ attribBytes;
          dstSlice = srcSlice @ data;
          newLen = from_be16 (dstSlice ! 8) (dstSlice ! 9) + of_nat (length data)
      in take 8 dstSlice @ be16 newLen @ drop 10 dstSlice)"

definition append_to_last :: "bool \<Rightarrow> byte list \<Rightarrow> byte list \<Rightarrow> byte list list \<Rightarrow> byte list list go" where
  "append_to_last b hdr attrs ps =
     (if \<not> b then Ret ps
      else if ps = [] then Panic IndexOutOfRange
      else Ret (ps[length ps - 1 := AppendAdditionalMEs (last ps) hdr attrs]))"

definition GenerateMibDatabase :: "ext_serializer \<Rightarrow> inject_config \<Rightarrow> nat \<Rightarrow> nat \<Rightarrow> PonTechnology \<Rightarrow> MibDb go" where
  "GenerateMibDatabase ser cfg ethUniPortCount potsUniPortCount technology =
     (let items = baseline_items ethUniPortCount potsUniPortCount technology cfg; n = of_nat (length items) in
      go_bind (ext_responses ser (unat n) items) (\<lambda>ps.
      go_bind (append_to_last (InjectOmciUnknownMe cfg) unknownMePktReportedMeHdr unknownMePktAttributes ps) (\<lambda>ps1.
      go_bind (append_to_last (InjectOmciUnknownAttributes cfg) unknownAttribPktReportedMeHdr unknownAttribPktAttributes ps1) (\<lambda>ps2.
      Ret \<lparr>NumberOfBaselineCommands = n, NumberOfExtendedCommands = of_nat (length ps),
           baselineItems = items, extendedResponses = ps2\<rparr>))))"

section \<open>Baseline entries\<close>

lemmas mib_defs = mib_entry_def custom_entry_def circuitPack_def aniG_def pptpEthernet_def pptpPots_def uniG_def
  priorityQueue_def uni_items_def tcont_items_def onu2g_def Let_def

lemma length_mib_parts [simp]:
  "length (circuitPack u n s k) = 4" "length (uni_items n i) = 18" "length (tcont_items i) = 18"
  by (simp_all add: mib_defs upt_rec)

lemma length_baseline_items:
  "length (baseline_items e p t cfg) = 155 + 18 * (e + p) + (if p > 0 then 4 else 0) + (if InjectOmciUnknownMe cfg then 1 else 0)"
  by (simp add: baseline_items_def length_concat comp_def sum_list_triv)

text \<open>Every entry can be reported: it has an entity id, or a packet with a transaction id to replace.\<close>

definition item_ok :: "MibDbEntry \<Rightarrow> bool" where
  "item_ok e \<longleftrightarrow> (case packet e of None \<Rightarrow> length (entityId e) = 2 | Some pkt \<Rightarrow> length pkt = 48)"

lemma item_ok_parts:
  "x \<in> set (circuitPack u n s k) \<Longrightarrow> item_ok x \<and> packet x = None"
  "x \<in> set (uni_items n i) \<Longrightarrow> item_ok x \<and> packet x = None"
  "x \<in> set (tcont_items i) \<Longrightarrow> item_ok x \<and> packet x = None"
  by (auto simp: mib_defs item_ok_def circuitPackEntityID_def GenerateUniPortEntityId_def)

lemma custom_packet_length:
  "length (custom_packet unknownAttribPktReportedMeHdr unknownAttribPktAttributes) = 48"
  "length (custom_packet unknownMePktReportedMeHdr unknownMePktAttributes) = 48"
  by (simp_all add: custom_packet_def unknownAttribPktReportedMeHdr_def unknownAttribPktAttributes_def
      unknownMePktReportedMeHdr_def unknownMePktAttributes_def be16_def)

lemma baseline_items_ok: "x \<in> set (baseline_items e p t cfg) \<Longrightarrow> item_ok x"
  using item_ok_parts custom_packet_length
  by (auto simp: baseline_items_def split: if_splits) (auto simp: item_ok_def mib_entry_def custom_entry_def aniG_def onu2g_def)

lemma baseline_items_plain:
  "x \<in> set (baseline_items e p t cfg) \<Longrightarrow> \<not> InjectOmciUnknownMe cfg \<Longrightarrow> \<not> InjectOmciUnknownAttributes cfg \<Longrightarrow> packet x = None"
  using item_ok_parts by (auto simp: baseline_items_def split: if_splits) (auto simp: mib_entry_def aniG_def onu2g_def)

lemma GenerateMibDatabase_items:
  "GenerateMibDatabase ser cfg e p t = Ret db \<Longrightarrow>
   baselineItems db = baseline_items e p t cfg \<and> NumberOfBaselineCommands db = of_nat (length (baseline_items e p t cfg))"
  by (auto simp: GenerateMibDatabase_def Let_def go_simps)

lemma baseline_upload_answers:
  assumes db: "GenerateMibDatabase eser cfg e p t = Ret db" and small: "e + p \<le> 3000"
    and lib: "\<forall>c i ps. ser (TransactionID m) False (MibUploadNextResponse c i ps) \<noteq> None"
    and base: "\<not> IsExtended m"
  shows "(sq < NumberOfBaselineCommands db \<longrightarrow> (\<exists>pkt. CreateMibUploadNextResponse ser m (Some sq) db = Ret (Some pkt)))
    \<and> (sq = NumberOfBaselineCommands db \<longrightarrow> CreateMibUploadNextResponse ser m (Some sq) db = Panic IndexOutOfRange)
    \<and> (sq > NumberOfBaselineCommands db \<longrightarrow> CreateMibUploadNextResponse ser m (Some sq) db = Ret None)"
proof -
  let ?items = "baseline_items e p t cfg"
  have items: "baselineItems db = ?items" "NumberOfBaselineCommands db = of_nat (length ?items)"
    using GenerateMibDatabase_items[OF db] by auto
  have "length ?items < 65536" using small by (simp add: length_baseline_items)
  then have n: "unat (NumberOfBaselineCommands db) = length ?items" by (simp add: items(2) unat_of_nat)
  have "\<exists>pkt. CreateMibUploadNextResponse ser m (Some sq) db = Ret (Some pkt)" if lt: "sq < NumberOfBaselineCommands db"
  proof -
    have i: "unat sq < length ?items" using lt n by (simp add: word_less_nat_alt)
    then have "item_ok (?items ! unat sq)" using baseline_items_ok nth_mem by blast
    then show ?thesis
    proof (cases "packet (?items ! unat sq)")
      case None
      then obtain j where "ToUint16 (entityId (?items ! unat sq)) = Ret j"
        using \<open>item_ok (?items ! unat sq)\<close> by (auto simp: item_ok_def ToUint16_def length_Suc_conv numeral_2_eq_2)
      moreover obtain pkt where "ser (TransactionID m) False (MibUploadNextResponse (classId (?items ! unat sq)) j (params (?items ! unat sq))) = Some pkt"
        using lib by blast
      ultimately show ?thesis
        using None i lt base by (simp add: CreateMibUploadNextResponse_def items(1) Let_def not_less)
    next
      case (Some pkt)
      then show ?thesis
        using \<open>item_ok (?items ! unat sq)\<close> i lt base
        by (simp add: CreateMibUploadNextResponse_def items(1) Let_def SetTxIdInEncodedPacket_def item_ok_def not_less)
    qed
  qed
  moreover have "CreateMibUploadNextResponse ser m (Some sq) db = Panic IndexOutOfRange" if "sq = NumberOfBaselineCommands db"
    using that n base by (simp add: CreateMibUploadNextResponse_def items(1))
  ultimately show ?thesis
    using n base by (simp add: CreateMibUploadNextResponse_def)
qed

text \<open>
  C30: the baseline MIB upload of an ONU with at most 3000 ports. The upload announces 155 entries,
  18 more per port, 4 more if there is a POTS port and one more for an injected unknown entity. Each
  of them is answered; the sequence number one past the last is not refused but runs past the end of
  the list, and every higher one is refused.
\<close>

theorem mib_upload_baseline:
  assumes db: "GenerateMibDatabase eser cfg e p t = Ret db" and small: "e + p \<le> 3000"
    and lib: "\<forall>c i ps. ser (TransactionID m) False (MibUploadNextResponse c i ps) \<noteq> None"
    and base: "\<not> IsExtended m"
  shows "unat (NumberOfBaselineCommands db) = 155 + 18 * (e + p) + (if p > 0 then 4 else 0) + (if InjectOmciUnknownMe cfg then 1 else 0)
    \<and> (sq < NumberOfBaselineCommands db \<longrightarrow> (\<exists>pkt. CreateMibUploadNextResponse ser m (Some sq) db = Ret (Some pkt)))
    \<and> (sq = NumberOfBaselineCommands db \<longrightarrow> CreateMibUploadNextResponse ser m (Some sq) db = Panic IndexOutOfRange)
    \<and> (sq > NumberOfBaselineCommands db \<longrightarrow> CreateMibUploadNextResponse ser m (Some sq) db = Ret None)"
proof -
  have "length (baseline_items e p t cfg) < 65536" using small by (simp add: length_baseline_items)
  then have "unat (NumberOfBaselineCommands db) = length (baseline_items e p t cfg)"
    using GenerateMibDatabase_items[OF db] by (simp add: unat_of_nat)
  then show ?thesis using baseline_upload_answers[where ser = ser, OF db small lib base, of sq] by (simp add: length_baseline_items)
qed

section \<open>Extended responses\<close>

lemma ext_add_plain:
  assumes "ext_add ser mes pkt k rest = (pkt', k', rest')" "\<forall>e \<in> set rest. packet e = None" "k \<le> length rest"
  shows "\<exists>g. rest = g @ rest' \<and> k = length g + k' \<and> pkt' = (if g = [] then pkt else ser (mes @ g))
     \<and> (k' \<noteq> 0 \<longrightarrow> length pkt' > 1932)"
  using assms
proof (induction ser mes pkt k rest rule: ext_add.induct)
  case (2 ser mes pkt k e rest)
  show ?case
  proof (cases "length pkt > 1932 \<or> k = 0")
    case True
    with "2.prems" show ?thesis by auto
  next
    case False
    then have "\<exists>g. rest = g @ rest' \<and> k - 1 = length g + k' \<and> pkt' = (if g = [] then ser (mes @ [e]) else ser ((mes @ [e]) @ g))
        \<and> (k' \<noteq> 0 \<longrightarrow> length pkt' > 1932)"
      using "2.prems" by (intro "2.IH"(2)) auto
    then obtain g where "rest = g @ rest'" "k - 1 = length g + k'" "pkt' = (if g = [] then ser (mes @ [e]) else ser ((mes @ [e]) @ g))"
      "k' \<noteq> 0 \<longrightarrow> length pkt' > 1932" by (elim exE conjE)
    with False show ?thesis by (intro exI[of _ "e # g"]) auto
  qed
qed simp

definition group_packet :: "ext_serializer \<Rightarrow> MibDbEntry list \<Rightarrow> byte list" where
  "group_packet ser g = (if length g = 1 then [] else ser g)"

lemma ext_responses_plain:
  assumes "\<forall>e \<in> set items. packet e = None" "k \<le> length items"
  shows "\<exists>groups. ext_responses ser k items = Ret (map (group_packet ser) groups) \<and> concat groups = take k items \<and> [] \<notin> set groups
     \<and> (\<forall>g \<in> set (butlast groups). length (group_packet ser g) > 1932)"
  using assms
proof (induction k arbitrary: items rule: less_induct)
  case (less k)
  show ?case
  proof (cases "k = 0")
    case True
    then show ?thesis by (simp add: ext_responses.simps)
  next
    case False
    then obtain e rest where items: "items = e # rest" using less.prems(2) by (cases items) auto
    obtain pkt k' rest' where r: "ext_add ser [e] [] (k - 1) rest = (pkt, k', rest')"
      by (cases "ext_add ser [e] [] (k - 1) rest") auto
    have "\<forall>e \<in> set rest. packet e = None" "k - 1 \<le> length rest" using less.prems items by auto
    from ext_add_plain[OF r this] obtain g where
      g: "rest = g @ rest'" "k - 1 = length g + k'" "pkt = (if g = [] then [] else ser ([e] @ g))" "k' \<noteq> 0 \<longrightarrow> length pkt > 1932"
      by (elim exE conjE)
    have "k' < k" "k' \<le> length rest'" "\<forall>e \<in> set rest'. packet e = None" using g(1,2) less.prems items False by auto
    then obtain gs where gs: "ext_responses ser k' rest' = Ret (map (group_packet ser) gs)" "concat gs = take k' rest'" "[] \<notin> set gs"
      "\<forall>g \<in> set (butlast gs). length (group_packet ser g) > 1932"
      using less.IH[of k' rest'] by blast
    have pkt: "pkt = group_packet ser (e # g)" using g(3) by (simp add: group_packet_def)
    have "ext_responses ser k items = Ret (map (group_packet ser) ((e # g) # gs))"
      using less.prems(1) items False r gs(1) by (simp add: ext_responses.simps[of ser k] pkt)
    moreover have "gs \<noteq> [] \<Longrightarrow> length (group_packet ser (e # g)) > 1932"
      using g(4) gs(2,3) pkt by (cases gs) auto
    moreover have "concat ((e # g) # gs) = take k items" using gs(2) g(1,2) items False by (cases k) auto
    ultimately show ?thesis using gs(3,4) by (intro exI[of _ "(e # g) # gs"]) auto
  qed
qed

lemma GenerateMibDatabase_plain:
  assumes "\<not> InjectOmciUnknownMe cfg" "\<not> InjectOmciUnknownAttributes cfg"
  shows "\<exists>db groups. GenerateMibDatabase ser cfg e p t = Ret db
     \<and> concat groups = take (unat (NumberOfBaselineCommands db)) (baselineItems db) \<and> [] \<notin> set groups
     \<and> NumberOfExtendedCommands db = of_nat (length groups) \<and> extendedResponses db = map (group_packet ser) groups
     \<and> (\<forall>g \<in> set (butlast groups). length (group_packet ser g) > 1932)"
proof -
  let ?items = "baseline_items e p t cfg" and ?n = "of_nat (length (baseline_items e p t cfg)) :: uint16"
  have "unat ?n \<le> length ?items" by (simp add: unat_of_nat)
  then obtain groups where g: "ext_responses ser (unat ?n) ?items = Ret (map (group_packet ser) groups)" "concat groups = take (unat ?n) ?items"
    "[] \<notin> set groups" "\<forall>g \<in> set (butlast groups). length (group_packet ser g) > 1932"
    using ext_responses_plain[of ?items "unat ?n" ser] baseline_items_plain[OF _ assms] by blast
  let ?db = "\<lparr>NumberOfBaselineCommands = ?n, NumberOfExtendedCommands = of_nat (length groups),
      baselineItems = ?items, extendedResponses = map (group_packet ser) groups\<rparr>"
  have "GenerateMibDatabase ser cfg e p t = Ret ?db"
    using assms g(1) by (simp add: GenerateMibDatabase_def Let_def append_to_last_def)
  then show ?thesis using g(2-4) by (intro exI[of _ ?db] exI[of _ groups]) simp
qed

lemma baseline_number:
  assumes "GenerateMibDatabase ser cfg e p t = Ret db" "e + p \<le> 3000"
  shows "unat (NumberOfBaselineCommands db) = length (baselineItems db)"
proof -
  have "length (baseline_items e p t cfg) < 65536" using assms(2) by (simp add: length_baseline_items)
  then show ?thesis using GenerateMibDatabase_items[OF assms(1)] by (simp add: unat_of_nat)
qed

lemma ext_responses_length: "ext_responses ser k items = Ret ps \<Longrightarrow> length ps \<le> k"
proof (induction k arbitrary: items ps rule: less_induct)
  case (less k)
  show ?case
  proof (cases "k = 0")
    case True
    with less.prems show ?thesis by (simp add: ext_responses.simps)
  next
    case False
    note run = less.prems[unfolded ext_responses.simps[of ser k] if_not_P[OF False]]
    obtain e rest where d: "dropWhile (\<lambda>e. packet e \<noteq> None) items = e # rest"
    proof (cases "dropWhile (\<lambda>e. packet e \<noteq> None) items")
      case Nil
      with run show ?thesis unfolding Nil by simp
    qed
    let ?r = "ext_add ser [e] [] (k - (length items - length rest)) rest"
    have "length (e # rest) \<le> length items" unfolding d[symmetric] by (rule length_dropWhile_le)
    then have lt: "fst (snd ?r) < k"
      using ext_add_bound[of ser "[e]" "[]" "k - (length items - length rest)" rest] False by simp
    obtain ps' where "ext_responses ser (fst (snd ?r)) (snd (snd ?r)) = Ret ps'" "ps = fst ?r # ps'"
      using run[unfolded d] by (auto simp: Let_def go_simps)
    with less.IH[OF lt] lt show ?thesis by fastforce
  qed
qed

lemma extended_number:
  assumes "GenerateMibDatabase ser cfg e p t = Ret db" "e + p \<le> 3000"
  shows "length (extendedResponses db) = unat (NumberOfExtendedCommands db)"
proof -
  let ?items = "baseline_items e p t cfg"
  obtain ps where ps: "ext_responses ser (unat (of_nat (length ?items) :: uint16)) ?items = Ret ps" "NumberOfExtendedCommands db = of_nat (length ps)"
    "length (extendedResponses db) = length ps"
    using assms(1) by (auto simp: GenerateMibDatabase_def Let_def go_simps append_to_last_def split: if_split_asm)
  have "unat (of_nat (length ?items) :: uint16) < 65536" by (simp add: unat_of_nat)
  then have "length ps < 65536" using ext_responses_length[OF ps(1)] by simp
  then show ?thesis using ps(2,3) by (simp add: unat_of_nat)
qed


definition sample_inject :: inject_config where
  "sample_inject = \<lparr>InjectOmciUnknownMe = False, InjectOmciUnknownAttributes = False\<rparr>"


theorem mib_upload_baseline_witness:
  "\<exists>db pkt. GenerateMibDatabase (\<lambda>_. []) sample_inject 4 0 XGSPON = Ret db \<and> unat (NumberOfBaselineCommands db) = 227
     \<and> CreateMibUploadNextResponse (\<lambda>_ _ _. Some []) \<lparr>TransactionID = 1, IsExtended = False, Request = MibUploadRequest\<rparr> (Some 226) db
       = Ret (Some pkt)"
proof -
  obtain db where db: "GenerateMibDatabase (\<lambda>_. []) sample_inject 4 0 XGSPON = Ret db"
    using GenerateMibDatabase_plain[of sample_inject "\<lambda>_. []" 4 0 XGSPON] by (auto simp: sample_inject_def)
  let ?m = "\<lparr>TransactionID = 1, IsExtended = False, Request = MibUploadRequest\<rparr>"
  have "unat (NumberOfBaselineCommands db) = 227"
    and "226 < NumberOfBaselineCommands db \<longrightarrow> (\<exists>pkt. CreateMibUploadNextResponse (\<lambda>_ _ _. Some []) ?m (Some 226) db = Ret (Some pkt))"
    using mib_upload_baseline[OF db, where ser = "\<lambda>_ _ _. Some []" and m = ?m and sq = 226] by (simp_all add: sample_inject_def)
  moreover from this(1) have "226 < NumberOfBaselineCommands db" by (simp add: word_less_nat_alt)
  ultimately show ?thesis using db by blast
qed

end
