(* ===== verification/PonResources.thy ===== *)
theory PonResources
  imports Types
begin

text \<open>
  The resources that have to be unique on a PON port (\<open>internal/bbsim/devices/pon.go\<close>): the ONU ids,
  GEM ports and allocation ids in use, each in a map from the resource to its owner, with the
  operations that store, free and look them up. The maps are the part of \<open>PonPort\<close> that an ONU
  reaches through its pointer to the port, so they form a record of their own.
\<close>

record AllocIDVal =
  OnuSn :: SerialNumber
  AllocID :: uint16

record AllocIDKey =
  PonID :: uint32
  OnuID :: uint32
  EntityID :: uint16

record PonTables =
  AllocatedGemPorts :: "(uint16, SerialNumber) gomap"
  AllocatedOnuIds :: "(uint32, SerialNumber) gomap"
  AllocatedAllocIds :: "(AllocIDKey, AllocIDVal) gomap"

definition empty_tables :: PonTables where
  "empty_tables = \<lparr>AllocatedGemPorts = [], AllocatedOnuIds = [], AllocatedAllocIds = []\<rparr>"

section \<open>ONU ids\<close>

definition storeOnuId :: "uint32 \<Rightarrow> SerialNumber \<Rightarrow> PonTables \<Rightarrow> PonTables" where
  "storeOnuId onuId onuSn p = p\<lparr>AllocatedOnuIds := AList.update onuId onuSn (AllocatedOnuIds p)\<rparr>"

definition removeOnuId :: "uint32 \<Rightarrow> PonTables \<Rightarrow> PonTables" where
  "removeOnuId onuId p = p\<lparr>AllocatedOnuIds := AList.delete onuId (AllocatedOnuIds p)\<rparr>"

definition removeAllOnuIds :: "PonTables \<Rightarrow> PonTables" where
  "removeAllOnuIds p = p\<lparr>AllocatedOnuIds := []\<rparr>"

definition isOnuIdAllocated :: "PonTables \<Rightarrow> uint32 \<Rightarrow> bool \<times> SerialNumber option" where
  "isOnuIdAllocated p onuId =
     (case map_of (AllocatedOnuIds p) onuId of Some sn \<Rightarrow> (True, Some sn) | None \<Rightarrow> (False, None))"

section \<open>GEM ports\<close>

definition storeGemPort :: "uint16 \<Rightarrow> SerialNumber \<Rightarrow> PonTables \<Rightarrow> PonTables" where
  "storeGemPort gemPortId onuSn p =
     p\<lparr>AllocatedGemPorts := AList.update gemPortId onuSn (AllocatedGemPorts p)\<rparr>"

definition removeGemPort :: "uint16 \<Rightarrow> PonTables \<Rightarrow> PonTables" where
  "removeGemPort gemPortId p = p\<lparr>AllocatedGemPorts := AList.delete gemPortId (AllocatedGemPorts p)\<rparr>"

definition removeGemPortBySn :: "SerialNumber \<Rightarrow> PonTables \<Rightarrow> PonTables" where
  "removeGemPortBySn onuSn p =
     p\<lparr>AllocatedGemPorts := filter (\<lambda>(gemPort, sn). \<not> same_ref sn onuSn) (AllocatedGemPorts p)\<rparr>"

definition removeAllGemPorts :: "PonTables \<Rightarrow> PonTables" where
  "removeAllGemPorts p = p\<lparr>AllocatedGemPorts := []\<rparr>"

definition isGemPortAllocated :: "PonTables \<Rightarrow> uint16 \<Rightarrow> bool \<times> SerialNumber option" where
  "isGemPortAllocated p gemPortId =
     (case map_of (AllocatedGemPorts p) gemPortId of Some sn \<Rightarrow> (True, Some sn) | None \<Rightarrow> (False, None))"

section \<open>Allocation ids\<close>

definition pon_storeAllocId ::
  "uint32 \<Rightarrow> uint32 \<Rightarrow> uint16 \<Rightarrow> uint16 \<Rightarrow> SerialNumber \<Rightarrow> PonTables \<Rightarrow> PonTables" where
  "pon_storeAllocId ponID onuID entityID allocId onuSn p =
     p\<lparr>AllocatedAllocIds :=
        AList.update \<lparr>PonID = ponID, OnuID = onuID, EntityID = entityID\<rparr>
          \<lparr>OnuSn = onuSn, AllocID = allocId\<rparr> (AllocatedAllocIds p)\<rparr>"

definition removeAllocId :: "uint32 \<Rightarrow> uint32 \<Rightarrow> uint16 \<Rightarrow> PonTables \<Rightarrow> PonTables" where
  "removeAllocId ponID onuID entityID p =
     p\<lparr>AllocatedAllocIds :=
        AList.delete \<lparr>PonID = ponID, OnuID = onuID, EntityID = entityID\<rparr> (AllocatedAllocIds p)\<rparr>"

definition removeAllocIdsForOnuSn :: "SerialNumber \<Rightarrow> PonTables \<Rightarrow> PonTables" where
  "removeAllocIdsForOnuSn onuSn p =
     p\<lparr>AllocatedAllocIds :=
        filter (\<lambda>(k, allocObj). \<not> same_ref onuSn (OnuSn allocObj)) (AllocatedAllocIds p)\<rparr>"

definition removeAllAllocIds :: "PonTables \<Rightarrow> PonTables" where
  "removeAllAllocIds p = p\<lparr>AllocatedAllocIds := []\<rparr>"

definition isAllocIdAllocated ::
  "PonTables \<Rightarrow> uint32 \<Rightarrow> uint32 \<Rightarrow> uint16 \<Rightarrow> bool \<times> AllocIDVal option" where
  "isAllocIdAllocated p ponID onuID entityID =
     (case map_of (AllocatedAllocIds p) \<lparr>PonID = ponID, OnuID = onuID, EntityID = entityID\<rparr> of
        Some v \<Rightarrow> (True, Some v) | None \<Rightarrow> (False, None))"

section \<open>Invariant and contract\<close>

text \<open>The three association lists are maps.\<close>

definition tables_ok :: "PonTables \<Rightarrow> bool" where
  "tables_ok p \<longleftrightarrow> gomap_ok (AllocatedGemPorts p) \<and> gomap_ok (AllocatedOnuIds p)
     \<and> gomap_ok (AllocatedAllocIds p)"

lemmas pon_table_defs =
  storeOnuId_def removeOnuId_def removeAllOnuIds_def isOnuIdAllocated_def
  storeGemPort_def removeGemPort_def removeGemPortBySn_def removeAllGemPorts_def isGemPortAllocated_def
  pon_storeAllocId_def removeAllocId_def removeAllocIdsForOnuSn_def removeAllAllocIds_def
  isAllocIdAllocated_def

lemma tables_ok_ops [simp]:
  "tables_ok empty_tables"
  "tables_ok p \<Longrightarrow> tables_ok (storeOnuId i sn p)"
  "tables_ok p \<Longrightarrow> tables_ok (removeOnuId i p)"
  "tables_ok p \<Longrightarrow> tables_ok (removeAllOnuIds p)"
  "tables_ok p \<Longrightarrow> tables_ok (storeGemPort g sn p)"
  "tables_ok p \<Longrightarrow> tables_ok (removeGemPort g p)"
  "tables_ok p \<Longrightarrow> tables_ok (removeGemPortBySn sn p)"
  "tables_ok p \<Longrightarrow> tables_ok (removeAllGemPorts p)"
  "tables_ok p \<Longrightarrow> tables_ok (pon_storeAllocId x y z a sn p)"
  "tables_ok p \<Longrightarrow> tables_ok (removeAllocId x y z p)"
  "tables_ok p \<Longrightarrow> tables_ok (removeAllocIdsForOnuSn sn p)"
  "tables_ok p \<Longrightarrow> tables_ok (removeAllAllocIds p)"
  by (simp_all add: tables_ok_def empty_tables_def pon_table_defs)

text \<open>
  What a table of unique resources promises: a look-up after a store finds the new owner, a removal
  frees one resource, a reset frees them all, and no operation changes anything else.
\<close>

locale resource_table =
  fixes isAllocated :: "'t \<Rightarrow> 'k \<Rightarrow> bool \<times> 'v option"
    and store :: "'k \<Rightarrow> 'v \<Rightarrow> 't \<Rightarrow> 't"
    and remove :: "'k \<Rightarrow> 't \<Rightarrow> 't"
    and removeAll :: "'t \<Rightarrow> 't"
    and invar :: "'t \<Rightarrow> bool"
  assumes alloc_pair: "fst (isAllocated t k) \<longleftrightarrow> snd (isAllocated t k) \<noteq> None"
    and store_owner: "snd (isAllocated (store k v t) k') = (if k' = k then Some v else snd (isAllocated t k'))"
    and remove_owner: "snd (isAllocated (remove k t) k') = (if k' = k then None else snd (isAllocated t k'))"
    and removeAll_owner: "snd (isAllocated (removeAll t) k') = None"
    and store_invar: "invar t \<Longrightarrow> invar (store k v t)"
    and remove_invar: "invar t \<Longrightarrow> invar (remove k t)"
    and removeAll_invar: "invar t \<Longrightarrow> invar (removeAll t)"
begin

definition owner :: "'t \<Rightarrow> 'k \<Rightarrow> 'v option" where
  "owner t = (\<lambda>k. snd (isAllocated t k))"

lemma owner_store: "owner (store k v t) = (owner t)(k \<mapsto> v)"
  by (rule ext) (simp add: owner_def store_owner)

lemma owner_remove: "owner (remove k t) = (owner t)(k := None)"
  by (rule ext) (simp add: owner_def remove_owner)

lemma owner_removeAll: "owner (removeAll t) = Map.empty"
  by (rule ext) (simp add: owner_def removeAll_owner)

lemma allocated_iff: "fst (isAllocated t k) \<longleftrightarrow> k \<in> dom (owner t)"
  by (auto simp: owner_def alloc_pair)

lemma store_remove: "owner t k = None \<Longrightarrow> owner (remove k (store k v t)) = owner t"
  by (rule ext) (simp add: owner_store owner_remove)

end

text \<open>A table that also frees everything one ONU owns.\<close>

locale owned_table = resource_table isAllocated store remove removeAll invar
  for isAllocated :: "'t \<Rightarrow> 'k \<Rightarrow> bool \<times> 'v option" and store remove removeAll invar +
  fixes removeBySn :: "SerialNumber \<Rightarrow> 't \<Rightarrow> 't"
    and snOf :: "'v \<Rightarrow> SerialNumber"
  assumes removeBySn_owner: "invar t \<Longrightarrow> snd (isAllocated (removeBySn sn t) k) =
      (case snd (isAllocated t k) of None \<Rightarrow> None
       | Some v \<Rightarrow> if same_ref (snOf v) sn then None else Some v)"
    and removeBySn_invar: "invar t \<Longrightarrow> invar (removeBySn sn t)"
begin

definition owned_by :: "'t \<Rightarrow> SerialNumber \<Rightarrow> 'k set" where
  "owned_by t sn = {k. \<exists>v. owner t k = Some v \<and> same_ref (snOf v) sn}"

lemma owned_by_removeBySn: "invar t \<Longrightarrow> owned_by (removeBySn sn t) sn = {}"
  by (auto simp: owned_by_def owner_def removeBySn_owner split: option.splits if_splits)

lemma owned_by_removeBySn_other:
  "invar t \<Longrightarrow> \<not> same_ref sn sn' \<Longrightarrow> owned_by (removeBySn sn t) sn' = owned_by t sn'"
  by (auto simp: owned_by_def owner_def removeBySn_owner same_ref_def split: option.splits if_splits)

end

interpretation onu_ids: resource_table isOnuIdAllocated storeOnuId removeOnuId removeAllOnuIds tables_ok
  by unfold_locales (auto simp: isOnuIdAllocated_def storeOnuId_def removeOnuId_def removeAllOnuIds_def
      tables_ok_def go_maps split: option.splits)

interpretation gem_ports: owned_table isGemPortAllocated storeGemPort removeGemPort removeAllGemPorts
    tables_ok removeGemPortBySn id
  by unfold_locales (auto simp: isGemPortAllocated_def storeGemPort_def removeGemPort_def
      removeAllGemPorts_def removeGemPortBySn_def tables_ok_def go_maps split: option.splits)

lemma AllocIDKey_eq_iff:
  "(k :: AllocIDKey) = k' \<longleftrightarrow> PonID k = PonID k' \<and> OnuID k = OnuID k' \<and> EntityID k = EntityID k'"
  by (cases k; cases k') simp

interpretation alloc_ids: owned_table
    "\<lambda>p (k :: AllocIDKey). isAllocIdAllocated p (PonID k) (OnuID k) (EntityID k)"
    "\<lambda>(k :: AllocIDKey) (v :: AllocIDVal). pon_storeAllocId (PonID k) (OnuID k) (EntityID k) (AllocID v) (OnuSn v)"
    "\<lambda>(k :: AllocIDKey). removeAllocId (PonID k) (OnuID k) (EntityID k)" removeAllAllocIds
    tables_ok removeAllocIdsForOnuSn OnuSn
  by unfold_locales (auto simp: isAllocIdAllocated_def pon_storeAllocId_def removeAllocId_def
      removeAllAllocIds_def removeAllocIdsForOnuSn_def tables_ok_def same_ref_def go_maps
      AllocIDKey_eq_iff split: option.splits)

end
