(* ===== verification/Onu.thy ===== *)
theory Onu
  imports Alarms MibDatabase PonResources
begin

text \<open>
  The ONU (\<open>internal/bbsim/devices/onu.go\<close>): its state, its creation, the callbacks of its state
  machine, power cycling, alarms, look-ups and counters. What an ONU reaches besides its own struct
  is the resource tables of its PON port, the channel of the OLT and the stream, so its operations
  work on the record \<open>onu_world\<close>.
\<close>

section \<open>State\<close>

datatype onu_state =
    OnuStateCreated | OnuStateInitialized | OnuStateDiscovered | OnuStateEnabled | OnuStateDisabled | OnuStatePonDisabled
  | OnuStateImageDownloadStarted | OnuStateImageDownloadInProgress | OnuStateImageDownloadComplete
  | OnuStateImageDownloadError | OnuStateImageActivated | OnuStateImageCommitted
  | BbrOnuStateEapolFlowSent | BbrOnuStateDhcpFlowSent

datatype onu_event =
    OnuTxInitialize | OnuTxDiscover | OnuTxEnable | OnuTxDisable | OnuTxPonDisable
  | OnuTxStartImageDownload | OnuTxProgressImageDownload | OnuTxCompleteImageDownload | OnuTxFailImageDownload
  | OnuTxActivateImage | OnuTxCommitImage | BbrOnuTxSendEapolFlow | BbrOnuTxSendDhcpFlow

text \<open>The addressing fields of a \<open>tech_profile.TrafficSchedulers\<close> message.\<close>

record TrafficSchedulers =
  ts_IntfId :: uint32
  ts_OnuId :: uint32
  ts_UniId :: uint32
  ts_PortNo :: uint32

record Onu =
  onu_ID :: uint32
  onu_PonPortID :: uint32
  onu_InternalState :: "(onu_event, onu_state) FSM"
  UniPorts :: "UniPort list"
  PotsPorts :: "PotsPort list"
  Flows :: "uint64 list"
  FlowIds :: "uint64 list"
  onu_OperState :: "(oper_event, oper_state) FSM"
  onu_SerialNumber :: SerialNumber
  AdminLockState :: uint8
  onu_Channel :: "onu_message chan"
  MibDataSync :: uint8
  ImageSoftwareExpectedSections :: uint32
  ImageSoftwareReceivedSections :: uint32
  ActiveImageEntityId :: uint16
  CommittedImageEntityId :: uint16
  StandbyImageVersion :: string
  ActiveImageVersion :: string
  InDownloadImageVersion :: string
  CommittedImageVersion :: string
  OmciResponseRate :: uint8
  OmciMsgCounter :: uint8
  ImageSectionData :: "byte list"
  onu_tid :: uint16
  onu_hpTid :: uint16
  onu_seqNumber :: uint16
  onu_MibDb :: MibDb
  onu_TrafficSchedulers :: "TrafficSchedulers option"
  onuAlarmsInfo :: alarm_table

record onu_world =
  w_onu :: Onu
  w_pon :: PonTables
  w_olt :: "olt_message chan"
  w_sent :: "Indication list"

definition on_onu :: "(Onu \<Rightarrow> Onu) \<Rightarrow> onu_world \<Rightarrow> onu_world" where
  "on_onu f w = w\<lparr>w_onu := f (w_onu w)\<rparr>"

definition on_pon :: "(PonTables \<Rightarrow> PonTables) \<Rightarrow> onu_world \<Rightarrow> onu_world" where
  "on_pon f w = w\<lparr>w_pon := f (w_pon w)\<rparr>"

definition onu_events :: "(onu_event, onu_state) EventDesc list" where
  "onu_events =
     [\<lparr>Name = OnuTxInitialize, Src = [OnuStateCreated, OnuStateDisabled, OnuStatePonDisabled], Dst = OnuStateInitialized\<rparr>,
      \<lparr>Name = OnuTxDiscover, Src = [OnuStateInitialized], Dst = OnuStateDiscovered\<rparr>,
      \<lparr>Name = OnuTxEnable, Src = [OnuStateDiscovered, OnuStatePonDisabled], Dst = OnuStateEnabled\<rparr>,
      \<lparr>Name = OnuTxDisable, Src = [OnuStateEnabled, OnuStatePonDisabled, OnuStateImageActivated, OnuStateImageDownloadError,
          OnuStateImageCommitted], Dst = OnuStateDisabled\<rparr>,
      \<lparr>Name = OnuTxPonDisable, Src = [OnuStateEnabled, OnuStateImageActivated, OnuStateImageDownloadError,
          OnuStateImageCommitted, OnuStateImageDownloadComplete], Dst = OnuStatePonDisabled\<rparr>,
      \<lparr>Name = OnuTxStartImageDownload, Src = [OnuStateEnabled, OnuStateImageDownloadComplete, OnuStateImageDownloadError,
          OnuStateImageCommitted], Dst = OnuStateImageDownloadStarted\<rparr>,
      \<lparr>Name = OnuTxProgressImageDownload, Src = [OnuStateImageDownloadStarted], Dst = OnuStateImageDownloadInProgress\<rparr>,
      \<lparr>Name = OnuTxCompleteImageDownload, Src = [OnuStateImageDownloadInProgress], Dst = OnuStateImageDownloadComplete\<rparr>,
      \<lparr>Name = OnuTxFailImageDownload, Src = [OnuStateImageDownloadInProgress], Dst = OnuStateImageDownloadError\<rparr>,
      \<lparr>Name = OnuTxActivateImage, Src = [OnuStateImageDownloadComplete], Dst = OnuStateImageActivated\<rparr>,
      \<lparr>Name = OnuTxCommitImage, Src = [OnuStateEnabled], Dst = OnuStateImageCommitted\<rparr>,
      \<lparr>Name = BbrOnuTxSendEapolFlow, Src = [OnuStateInitialized], Dst = BbrOnuStateEapolFlowSent\<rparr>,
      \<lparr>Name = BbrOnuTxSendDhcpFlow, Src = [BbrOnuStateEapolFlowSent], Dst = BbrOnuStateDhcpFlowSent\<rparr>]"

definition new_onu_state :: "(onu_event, onu_state) FSM" where
  "new_onu_state = NewFSM OnuStateCreated onu_events"

section \<open>Creation\<close>

text \<open>A serial number is a fresh pointer; \<open>ref\<close> is its identity.\<close>

definition NewSN :: "nat \<Rightarrow> int \<Rightarrow> uint32 \<Rightarrow> uint32 \<Rightarrow> SerialNumber" where
  "NewSN ref oltid intfid onuid =
     \<lparr>sn_ref = ref, VendorId = map of_char ''BBSM'', VendorSpecific = [0, of_int oltid, ucast intfid, ucast onuid]\<rparr>"

text \<open>What \<open>CreateONU\<close> reads of the OLT, the PON port and the configuration.\<close>

record onu_config =
  oc_oltId :: int
  oc_OmciResponseRate :: uint8
  oc_NumUni :: nat
  oc_NumPots :: nat
  oc_Technology :: PonTechnology
  oc_Services :: "ServiceYaml list"
  oc_inject :: inject_config
  oc_mib_ser :: ext_serializer

definition uni_place :: "onu_config \<Rightarrow> uint32 \<Rightarrow> uint32 \<Rightarrow> nat \<Rightarrow> place" where
  "uni_place c ponId onuId i = \<lparr>pl_onuId = onuId, pl_ponPortId = ponId, pl_portNo = 0, pl_uniId = of_nat i, pl_oltId = oc_oltId c\<rparr>"

definition CreateONU :: "onu_config \<Rightarrow> nat \<Rightarrow> uint32 \<Rightarrow> uint32 \<Rightarrow> tag_state \<Rightarrow> (Onu \<times> tag_state) go" where
  "CreateONU c ref ponId onuId tags =
     go_bind (new_unis (oc_Services c) (map (uni_place c ponId onuId) [0..<oc_NumUni c]) tags) (\<lambda>(unis, tags').
     go_bind (GenerateMibDatabase (oc_mib_ser c) (oc_inject c) (oc_NumUni c) (oc_NumPots c) (oc_Technology c)) (\<lambda>mib.
     Ret (\<lparr>onu_ID = onuId, onu_PonPortID = ponId, onu_InternalState = new_onu_state, UniPorts = unis,
           PotsPorts = map (\<lambda>i. NewPotsPort (of_nat i)) [oc_NumUni c..<oc_NumUni c + oc_NumPots c],
           Flows = [], FlowIds = [], onu_OperState = new_oper_state, onu_SerialNumber = NewSN ref (oc_oltId c) ponId onuId,
           AdminLockState = 0, onu_Channel = NilChan, MibDataSync = 0, ImageSoftwareExpectedSections = 0,
           ImageSoftwareReceivedSections = 0, ActiveImageEntityId = 0, CommittedImageEntityId = 0,
           StandbyImageVersion = ''BBSM_IMG_00000'', ActiveImageVersion = ''BBSM_IMG_00001'', InDownloadImageVersion = [],
           CommittedImageVersion = ''BBSM_IMG_00001'', OmciResponseRate = oc_OmciResponseRate c, OmciMsgCounter = 0,
           ImageSectionData = [], onu_tid = 1, onu_hpTid = 0x8000, onu_seqNumber = 0, onu_MibDb = mib, onu_TrafficSchedulers = None, onuAlarmsInfo = []\<rparr>, tags')))"

section \<open>Callbacks\<close>

definition onu_send :: "onu_message \<Rightarrow> onu_world \<Rightarrow> onu_world go" where
  "onu_send m w = go_bind (chan_send (onu_Channel (w_onu w)) m) (\<lambda>c. Ret (on_onu (\<lambda>o1. o1\<lparr>onu_Channel := c\<rparr>) w))"

definition oper_event_onu :: "oper_event \<Rightarrow> onu_world \<Rightarrow> onu_world" where
  "oper_event_onu e = on_onu (\<lambda>o1. o1\<lparr>onu_OperState := snd (fsm_fire e (onu_OperState o1))\<rparr>)"

definition cleanupOnuState :: "onu_world \<Rightarrow> onu_world" where
  "cleanupOnuState w =
     (let o1 = w_onu w in
      w\<lparr>w_onu := o1\<lparr>Flows := [], onuAlarmsInfo := []\<rparr>,
        w_pon := removeGemPortBySn (onu_SerialNumber o1)
                   (removeAllocIdsForOnuSn (onu_SerialNumber o1) (removeOnuId (onu_ID o1) (w_pon w)))\<rparr>)"

definition enter_onu_initialized :: "onu_world \<Rightarrow> onu_world" where
  "enter_onu_initialized w = oper_event_onu tx_enable (on_onu (\<lambda>o1. o1\<lparr>onu_Channel := make_chan (Some 2048)\<rparr>) w)"

definition enter_onu_enabled :: "onu_world \<Rightarrow> onu_world go" where
  "enter_onu_enabled w =
     (let o1 = w_onu w in
      if fst (isOnuIdAllocated (w_pon w) (onu_ID o1)) then Ret w
      else onu_send (OnuIndication UP) (on_pon (storeOnuId (onu_ID o1) (onu_SerialNumber o1)) w))"

text \<open>The ports read the serial number and id of their ONU; disabling them needs no stream.\<close>

definition onu_port_env :: "stream \<Rightarrow> Onu \<Rightarrow> port_env" where
  "onu_port_env st o1 = \<lparr>pe_sn = onu_SerialNumber o1, pe_onuId = onu_ID o1, pe_stream = st\<rparr>"

definition no_stream :: stream where
  "no_stream _ _ = True"

definition disable_all_ports :: "onu_world \<Rightarrow> onu_world go" where
  "disable_all_ports w =
     (let env = onu_port_env no_stream (w_onu w) in
      go_bind (disable_ports (uni_Disable env) (UniPorts (w_onu w)) (onu_Channel (w_onu w))) (\<lambda>(us, c1).
      go_bind (disable_ports (pots_Disable env) (PotsPorts (w_onu w)) c1) (\<lambda>(ps, c2).
      Ret (on_onu (\<lambda>o1. o1\<lparr>UniPorts := us, PotsPorts := ps, onu_Channel := c2\<rparr>) w))))"

definition close_if_no_flows :: "onu_world \<Rightarrow> onu_world go" where
  "close_if_no_flows w =
     (if FlowIds (w_onu w) = []
      then go_bind (chan_close (onu_Channel (w_onu w))) (\<lambda>c. Ret (on_onu (\<lambda>o1. o1\<lparr>onu_Channel := c\<rparr>) w))
      else Ret w)"

definition enter_onu_disabled :: "onu_world \<Rightarrow> onu_world go" where
  "enter_onu_disabled w =
     go_bind (onu_send (OnuIndication DOWN) (oper_event_onu tx_disable (cleanupOnuState w))) (\<lambda>w1.
     go_bind (disable_all_ports w1) close_if_no_flows)"

definition enter_onu :: "(onu_event, onu_state) Event \<Rightarrow> onu_world \<Rightarrow> onu_world go" where
  "enter_onu ev w =
     (case ev_Dst ev of
        OnuStateInitialized \<Rightarrow> Ret (enter_onu_initialized w)
      | OnuStateDiscovered \<Rightarrow> onu_send (OnuDiscIndication UP) w
      | OnuStateEnabled \<Rightarrow> enter_onu_enabled w
      | OnuStateDisabled \<Rightarrow> enter_onu_disabled w
      | OnuStatePonDisabled \<Rightarrow> Ret (cleanupOnuState w)
      | BbrOnuStateEapolFlowSent \<Rightarrow> onu_send SendEapolFlow w
      | BbrOnuStateDhcpFlowSent \<Rightarrow> onu_send SendDhcpFlow w
      | _ \<Rightarrow> Ret w)"

definition onu_put :: "(onu_event, onu_state) FSM \<Rightarrow> onu_world \<Rightarrow> onu_world" where
  "onu_put f = on_onu (\<lambda>o1. o1\<lparr>onu_InternalState := f\<rparr>)"

definition onu_Event :: "onu_event \<Rightarrow> onu_world \<Rightarrow> ((onu_event, onu_state) fsm_error option \<times> onu_world) go" where
  "onu_Event = fsm_Event (onu_InternalState \<circ> w_onu) onu_put (enter_callbacks enter_onu)"

definition onu_current :: "onu_world \<Rightarrow> onu_state" where
  "onu_current w = current (onu_InternalState (w_onu w))"

section \<open>Power cycling and alarms\<close>

definition onu_alarm :: "string \<Rightarrow> string \<Rightarrow> onu_world \<Rightarrow> (bool \<times> onu_world) go" where
  "onu_alarm alarmType status w =
     go_bind (SimulateOnuAlarm \<lparr>ar_AlarmType = alarmType, ar_Parameters = [], Status = status\<rparr>
        (onu_ID (w_onu w)) (onu_PonPortID (w_onu w)) (w_olt w)) (\<lambda>(ok, c). Ret (ok, w\<lparr>w_olt := c\<rparr>))"

definition SendOMCIAlarmNotificationMsg :: "bool \<Rightarrow> string \<Rightarrow> onu_world \<Rightarrow> onu_world go" where
  "SendOMCIAlarmNotificationMsg raiseOMCIAlarm alarmType w =
     (if alarmType = ''ONU_ALARM_LOS'' then
        onu_send (UniStatusAlarm \<lparr>ua_OnuSN = onu_SerialNumber (w_onu w), ua_OnuID = onu_ID (w_onu w), ua_AdminState = 0,
          ua_EntityID = 257, RaiseOMCIAlarm = raiseOMCIAlarm\<rparr>) w
      else Ret w)"

text \<open>The boolean results are \<open>True\<close> for a nil error.\<close>

definition event_ok :: "onu_event \<Rightarrow> onu_world \<Rightarrow> (bool \<times> onu_world) go" where
  "event_ok e w = go_bind (onu_Event e w) (\<lambda>(err, w'). Ret (err = None, w'))"

definition HandleShutdownONU :: "onu_world \<Rightarrow> (bool \<times> onu_world) go" where
  "HandleShutdownONU w =
     go_bind (onu_alarm ''DYING_GASP'' ''on'' w) (\<lambda>(ok1, w1). if \<not> ok1 then Ret (False, w1) else
     go_bind (onu_alarm ''ONU_ALARM_LOS'' ''on'' w1) (\<lambda>(ok2, w2). if \<not> ok2 then Ret (False, w2) else
     go_bind (if onu_current w2 \<noteq> OnuStateDisabled then SendOMCIAlarmNotificationMsg True ''ONU_ALARM_LOS'' w2 else Ret w2)
       (event_ok OnuTxDisable)))"

definition HandlePowerOnONU :: "bool \<Rightarrow> onu_world \<Rightarrow> (bool \<times> onu_world) go" where
  "HandlePowerOnONU oltDeleted w =
     (let initialState = onu_current w in
      if oltDeleted then Ret (True, w)
      else
        go_bind (if initialState = OnuStateCreated \<or> initialState = OnuStateDisabled then event_ok OnuTxInitialize w else Ret (True, w)) (\<lambda>(ok1, w1).
        if \<not> ok1 then Ret (False, w1) else
        go_bind (onu_alarm ''ONU_ALARM_LOS'' ''off'' w1) (\<lambda>(ok2, w2). if \<not> ok2 then Ret (False, w2) else
        go_bind (SendOMCIAlarmNotificationMsg False ''ONU_ALARM_LOS'' w2) (\<lambda>w3.
        go_bind (event_ok OnuTxDiscover w3) (\<lambda>(ok3, w4). if \<not> ok3 then Ret (False, w4) else
        if initialState = OnuStateDisabled then event_ok OnuTxEnable w4 else Ret (True, w4))))))"

definition onu_SetAlarm :: "string \<Rightarrow> string \<Rightarrow> onu_world \<Rightarrow> (bool \<times> onu_world) go" where
  "onu_SetAlarm alarmType status w =
     go_bind (onu_alarm alarmType status w) (\<lambda>(ok, w1). if \<not> ok then Ret (False, w1) else
     go_bind (SendOMCIAlarmNotificationMsg (status = ''on'') alarmType w1) (\<lambda>w2. Ret (True, w2)))"

text \<open>\<open>Reboot\<close>, with the wait between the two steps left out.\<close>

definition onu_Reboot :: "bool \<Rightarrow> onu_world \<Rightarrow> (bool \<times> onu_world) go" where
  "onu_Reboot oltDeleted w = go_bind (HandleShutdownONU w) (\<lambda>(ok, w1). if \<not> ok then Ret (False, w1) else HandlePowerOnONU oltDeleted w1)"

definition ReDiscoverOnu :: "bool \<Rightarrow> onu_world \<Rightarrow> onu_world go" where
  "ReDiscoverOnu oltDeleted w =
     (if oltDeleted then Ret w
      else if onu_current w \<noteq> OnuStateDiscovered then
        go_bind (onu_Event OnuTxInitialize w) (\<lambda>(_, w1). go_bind (onu_Event OnuTxDiscover w1) (\<lambda>(_, w2). Ret w2))
      else onu_send (OnuDiscIndication UP) w)"

section \<open>Indications\<close>

definition onu_Send :: "stream \<Rightarrow> Indication \<Rightarrow> onu_world \<Rightarrow> bool \<times> onu_world" where
  "onu_Send st ind w = (let (ok, s) = Send st ind (w_sent w) in (ok, w\<lparr>w_sent := s\<rparr>))"

definition sendOnuDiscIndication :: "stream \<Rightarrow> onu_world \<Rightarrow> onu_world" where
  "sendOnuDiscIndication st w = snd (onu_Send st (OnuDiscInd (onu_PonPortID (w_onu w)) (onu_SerialNumber (w_onu w))) w)"

text \<open>The goroutine that repeats the discovery while the ONU is not activated, when its delay is over.\<close>

definition discovery_retry :: "stream \<Rightarrow> onu_world \<Rightarrow> onu_world" where
  "discovery_retry st w = (if onu_current w = OnuStateDiscovered then sendOnuDiscIndication st w else w)"

definition oper_string :: "OperState \<Rightarrow> string" where
  "oper_string s = (case s of UP \<Rightarrow> ''up'' | DOWN \<Rightarrow> ''down'')"

definition oper_state_string :: "oper_state \<Rightarrow> string" where
  "oper_state_string s = (case s of oper_up \<Rightarrow> ''up'' | oper_down \<Rightarrow> ''down'')"

definition sendOnuIndication :: "stream \<Rightarrow> OperState \<Rightarrow> onu_world \<Rightarrow> onu_world" where
  "sendOnuIndication st s w =
     (let o1 = w_onu w in
      snd (onu_Send st (OnuInd \<lparr>oi_IntfId = onu_PonPortID o1, oi_OnuId = onu_ID o1, oi_OperState = oper_string s,
        oi_AdminState = oper_state_string (current (onu_OperState o1)), oi_SerialNumber = onu_SerialNumber o1\<rparr>) w))"

definition sendOmciIndication :: "stream \<Rightarrow> byte list \<Rightarrow> onu_world \<Rightarrow> bool \<times> onu_world" where
  "sendOmciIndication st pkt w = onu_Send st (OmciInd (onu_PonPortID (w_onu w)) (onu_ID (w_onu w)) pkt) w"

section \<open>Look-ups\<close>

definition FindUniById :: "uint32 \<Rightarrow> UniPort list \<Rightarrow> nat option" where
  "FindUniById uniID unis = find_idx (\<lambda>u. uni_ID u = uniID) unis"

definition FindPotsById :: "uint32 \<Rightarrow> PotsPort list \<Rightarrow> nat option" where
  "FindPotsById uniID ports = find_idx (\<lambda>p. pots_ID p = uniID) ports"

definition FindUniByEntityId :: "uint16 \<Rightarrow> UniPort list \<Rightarrow> nat option" where
  "FindUniByEntityId meId unis = find_idx (\<lambda>u. EntityId_Equals (uni_MeId u) (FromUint16 meId)) unis"

definition FindPotsByEntityId :: "uint16 \<Rightarrow> PotsPort list \<Rightarrow> nat option" where
  "FindPotsByEntityId meId ports = find_idx (\<lambda>p. EntityId_Equals (pots_MeId p) (FromUint16 meId)) ports"

definition findUniByPortNo :: "uint32 \<Rightarrow> UniPort list \<Rightarrow> nat option" where
  "findUniByPortNo portNo unis = find_idx (\<lambda>u. uni_PortNo u = portNo) unis"

definition onu_findServiceByMacAddress :: "byte list \<Rightarrow> UniPort list \<Rightarrow> (nat \<times> nat) option" where
  "onu_findServiceByMacAddress mac unis =
     (case find_idx (\<lambda>u. uni_findServiceByMacAddress mac (Services u) \<noteq> None) unis of None \<Rightarrow> None
      | Some i \<Rightarrow> map_option (Pair i) (uni_findServiceByMacAddress mac (Services (unis ! i))))"

text \<open>A UNI is listed once per service with a membership.\<close>

definition findUniWithIgmpMembership :: "UniPort list \<Rightarrow> nat list" where
  "findUniWithIgmpMembership unis =
     concat (map (\<lambda>i. if uni_up (unis ! i)
        then map (\<lambda>_. i) (filter (\<lambda>s. NeedsIgmp s \<and> initialized s \<and> groupAddresses s \<noteq> None \<and> groupAddresses s \<noteq> Some []) (Services (unis ! i)))
        else []) [0..<length unis])"

interpretation uni_by_id: slice_lookup FindUniById "\<lambda>uniID u. uni_ID u = uniID"
  by unfold_locales (simp add: FindUniById_def find_idx_Some)

interpretation pots_by_id: slice_lookup FindPotsById "\<lambda>uniID p. pots_ID p = uniID"
  by unfold_locales (simp add: FindPotsById_def find_idx_Some)

interpretation uni_by_entity: slice_lookup FindUniByEntityId "\<lambda>meId u. EntityId_Equals (uni_MeId u) (FromUint16 meId)"
  by unfold_locales (simp add: FindUniByEntityId_def find_idx_Some)

interpretation pots_by_entity: slice_lookup FindPotsByEntityId "\<lambda>meId p. EntityId_Equals (pots_MeId p) (FromUint16 meId)"
  by unfold_locales (simp add: FindPotsByEntityId_def find_idx_Some)

interpretation uni_by_port: slice_lookup findUniByPortNo "\<lambda>portNo u. uni_PortNo u = portNo"
  by unfold_locales (simp add: findUniByPortNo_def find_idx_Some)

section \<open>Counters\<close>

definition SetID :: "uint32 \<Rightarrow> Onu \<Rightarrow> Onu" where
  "SetID i o1 = o1\<lparr>onu_ID := i\<rparr>"

definition DeleteFlow :: "uint64 \<Rightarrow> Onu \<Rightarrow> Onu" where
  "DeleteFlow key o1 = o1\<lparr>Flows := remove1 key (Flows o1)\<rparr>"

definition getNextTid :: "bool \<Rightarrow> Onu \<Rightarrow> uint16 \<times> Onu" where
  "getNextTid highPriority o1 =
     (if highPriority
      then (let t = onu_hpTid o1 + 1 in (onu_hpTid o1, o1\<lparr>onu_hpTid := (if t < 0x8000 then 0x8000 else t)\<rparr>))
      else (let t = onu_tid o1 + 1 in (onu_tid o1, o1\<lparr>onu_tid := (if t \<ge> 0x8000 then 1 else t)\<rparr>)))"

definition IncrementAlarmSequenceNumber :: "OnuAlarmInfoMapKey \<Rightarrow> Onu \<Rightarrow> uint8 \<times> Onu" where
  "IncrementAlarmSequenceNumber key o1 =
     (case map_of (onuAlarmsInfo o1) key of
        Some alarmInfo \<Rightarrow>
          (let n = (if SequenceNo alarmInfo = 255 then 1 else SequenceNo alarmInfo + 1) in
           (n, o1\<lparr>onuAlarmsInfo := AList.update key (alarmInfo\<lparr>SequenceNo := n\<rparr>) (onuAlarmsInfo o1)\<rparr>))
      | None \<Rightarrow> (1, o1\<lparr>onuAlarmsInfo := AList.update key \<lparr>SequenceNo = 1, AlarmBitMap = replicate 28 0\<rparr> (onuAlarmsInfo o1)\<rparr>))"

text \<open>\<open>r\<close> is the random number from 1 to 10.\<close>

definition InvalidateMibDataSync :: "uint8 \<Rightarrow> Onu \<Rightarrow> Onu" where
  "InvalidateMibDataSync r o1 =
     (let m = MibDataSync o1 + r in o1\<lparr>MibDataSync := (if m = 0 then m + 1 else m)\<rparr>)"

end
