(* ===== verification/OnuLife.thy ===== *)
theory OnuLife
  imports Onu
begin

text \<open>
  Correctness of the life cycle of an ONU: the invariant of its state, what disabling it releases,
  power cycling, and the counters of \<open>Onu\<close>.
\<close>

section \<open>The machine\<close>

lemma onu_world_simps [simp]:
  "w_onu (on_onu f w) = f (w_onu w)" "w_pon (on_onu f w) = w_pon w" "w_olt (on_onu f w) = w_olt w" "w_sent (on_onu f w) = w_sent w"
  "w_onu (on_pon g w) = w_onu w" "w_pon (on_pon g w) = g (w_pon w)" "w_olt (on_pon g w) = w_olt w" "w_sent (on_pon g w) = w_sent w"
  by (simp_all add: on_onu_def on_pon_def)

lemma onu_next:
  "map_of (transitions new_onu_state) (e, s) =
     (case e of
        OnuTxInitialize \<Rightarrow> if s \<in> {OnuStateCreated, OnuStateDisabled, OnuStatePonDisabled} then Some OnuStateInitialized else None
      | OnuTxDiscover \<Rightarrow> if s = OnuStateInitialized then Some OnuStateDiscovered else None
      | OnuTxEnable \<Rightarrow> if s \<in> {OnuStateDiscovered, OnuStatePonDisabled} then Some OnuStateEnabled else None
      | OnuTxDisable \<Rightarrow> if s \<in> {OnuStateEnabled, OnuStatePonDisabled, OnuStateImageActivated, OnuStateImageDownloadError,
                              OnuStateImageCommitted} then Some OnuStateDisabled else None
      | OnuTxPonDisable \<Rightarrow> if s \<in> {OnuStateEnabled, OnuStateImageActivated, OnuStateImageDownloadError, OnuStateImageCommitted,
                              OnuStateImageDownloadComplete} then Some OnuStatePonDisabled else None
      | OnuTxStartImageDownload \<Rightarrow> if s \<in> {OnuStateEnabled, OnuStateImageDownloadComplete, OnuStateImageDownloadError,
                              OnuStateImageCommitted} then Some OnuStateImageDownloadStarted else None
      | OnuTxProgressImageDownload \<Rightarrow> if s = OnuStateImageDownloadStarted then Some OnuStateImageDownloadInProgress else None
      | OnuTxCompleteImageDownload \<Rightarrow> if s = OnuStateImageDownloadInProgress then Some OnuStateImageDownloadComplete else None
      | OnuTxFailImageDownload \<Rightarrow> if s = OnuStateImageDownloadInProgress then Some OnuStateImageDownloadError else None
      | OnuTxActivateImage \<Rightarrow> if s = OnuStateImageDownloadComplete then Some OnuStateImageActivated else None
      | OnuTxCommitImage \<Rightarrow> if s = OnuStateEnabled then Some OnuStateImageCommitted else None
      | BbrOnuTxSendEapolFlow \<Rightarrow> if s = OnuStateInitialized then Some BbrOnuStateEapolFlowSent else None
      | BbrOnuTxSendDhcpFlow \<Rightarrow> if s = BbrOnuStateEapolFlowSent then Some BbrOnuStateDhcpFlowSent else None)"
  by (cases e) (auto simp: new_onu_state_def NewFSM_def onu_events_def)

lemma onu_send_Ret:
  "onu_send m w = Ret w' \<longleftrightarrow> (\<exists>c. chan_send (onu_Channel (w_onu w)) m = Ret c \<and> w' = on_onu (\<lambda>o1. o1\<lparr>onu_Channel := c\<rparr>) w)"
  by (auto simp: onu_send_def go_simps)

lemma disable_all_ports_Ret:
  "disable_all_ports w = Ret w' \<Longrightarrow> \<exists>us ps c. w' = on_onu (\<lambda>o1. o1\<lparr>UniPorts := us, PotsPorts := ps, onu_Channel := c\<rparr>) w"
  by (auto simp: disable_all_ports_def Let_def go_simps)

lemma close_if_no_flows_Ret: "close_if_no_flows w = Ret w' \<Longrightarrow> w' = w \<or> (\<exists>c. w' = on_onu (\<lambda>o1. o1\<lparr>onu_Channel := c\<rparr>) w)"
  by (auto simp: close_if_no_flows_def go_simps split: if_splits)

lemma enter_onu_disabled_keeps:
  assumes "enter_onu_disabled w = Ret w'"
  shows "onu_InternalState (w_onu w') = onu_InternalState (w_onu w)"
proof -
  obtain w1 w2 where w: "onu_send (OnuIndication DOWN) (oper_event_onu tx_disable (cleanupOnuState w)) = Ret w1"
    "disable_all_ports w1 = Ret w2" "close_if_no_flows w2 = Ret w'"
    using assms by (auto simp: enter_onu_disabled_def go_simps)
  then show ?thesis
    using disable_all_ports_Ret[OF w(2)] close_if_no_flows_Ret[OF w(3)]
    by (auto simp: onu_send_Ret oper_event_onu_def cleanupOnuState_def Let_def)
qed

lemma enter_onu_keeps:
  "enter_onu ev w = Ret w' \<Longrightarrow> onu_InternalState (w_onu w') = onu_InternalState (w_onu w)"
  by (cases "ev_Dst ev")
     (auto simp: enter_onu_def onu_send_Ret enter_onu_initialized_def oper_event_onu_def enter_onu_enabled_def Let_def
       cleanupOnuState_def split: if_splits dest: enter_onu_disabled_keeps)

interpretation onu_machine: fsm_field "onu_InternalState \<circ> w_onu" onu_put "enter_callbacks enter_onu"
  by unfold_locales (auto simp: onu_put_def on_onu_def dest: enter_onu_keeps)

text \<open>An event from a state with a transition enters the new state and runs the callback.\<close>

lemma onu_Event_step:
  assumes "transitions (onu_InternalState (w_onu w)) = transitions new_onu_state"
    "map_of (transitions new_onu_state) (e, onu_current w) = Some d" "d \<noteq> onu_current w"
  shows "onu_Event e w = go_bind (enter_onu \<lparr>ev_Event = e, ev_Src = onu_current w, ev_Dst = d\<rparr>
           (onu_put (SetState d (onu_InternalState (w_onu w))) w)) (\<lambda>w'. Ret (None, w'))"
  using assms by (simp add: onu_Event_def fsm_Event_def onu_current_def Let_def)

lemma onu_Event_rejected:
  assumes "transitions (onu_InternalState (w_onu w)) = transitions new_onu_state"
    "map_of (transitions new_onu_state) (e, onu_current w) = None"
  shows "\<exists>err. onu_Event e w = Ret (Some err, w)"
  using assms by (simp add: onu_Event_def fsm_Event_def onu_current_def)

section \<open>Invariant\<close>

text \<open>
  The channel is nil until the first initialisation and open in every state but created and disabled;
  the operational state is up in the same states.
\<close>

definition powered :: "onu_state \<Rightarrow> bool" where
  "powered s \<longleftrightarrow> s \<notin> {OnuStateCreated, OnuStateDisabled}"

definition onu_ok :: "Onu \<Rightarrow> bool" where
  "onu_ok o1 \<longleftrightarrow>
     transitions (onu_InternalState o1) = transitions new_onu_state
   \<and> transitions (onu_OperState o1) = transitions new_oper_state
   \<and> (\<forall>u \<in> set (UniPorts o1). uni_ok u) \<and> (\<forall>p \<in> set (PotsPorts o1). pots_ok p)
   \<and> (current (onu_OperState o1) = oper_up \<longleftrightarrow> powered (current (onu_InternalState o1)))
   \<and> (current (onu_InternalState o1) = OnuStateCreated \<longrightarrow> onu_Channel o1 = NilChan)
   \<and> (current (onu_InternalState o1) = OnuStateDisabled \<longrightarrow> (\<exists>q b. onu_Channel o1 = Chan (Some 2048) q b))
   \<and> (powered (current (onu_InternalState o1)) \<longrightarrow> (\<exists>q. onu_Channel o1 = Chan (Some 2048) q False))
   \<and> gomap_ok (onuAlarmsInfo o1)"

definition world_ok :: "onu_world \<Rightarrow> bool" where
  "world_ok w \<longleftrightarrow> onu_ok (w_onu w) \<and> tables_ok (w_pon w)"

text \<open>The number of ports that are up, which is the number of alarms that disabling the ONU sends.\<close>

definition ports_up :: "Onu \<Rightarrow> nat" where
  "ports_up o1 = length (filter uni_up (UniPorts o1)) + length (filter pots_up (PotsPorts o1))"

definition port_alarms :: "Onu \<Rightarrow> onu_message list" where
  "port_alarms o1 =
     (let env = onu_port_env no_stream o1 in
      map (\<lambda>u. status_alarm env (me_num (uni_MeId u)) False) (filter uni_up (UniPorts o1))
      @ map (\<lambda>p. status_alarm env (me_num (pots_MeId p)) False) (filter pots_up (PotsPorts o1)))"

lemma disable_all_ports_ok:
  assumes "\<forall>u \<in> set (UniPorts (w_onu w)). uni_ok u" "\<forall>p \<in> set (PotsPorts (w_onu w)). pots_ok p"
    "chan_room (onu_Channel (w_onu w)) (n + ports_up (w_onu w))"
  shows "\<exists>us ps c. disable_all_ports w = Ret (on_onu (\<lambda>o1. o1\<lparr>UniPorts := us, PotsPorts := ps, onu_Channel := c\<rparr>) w)
     \<and> (\<forall>u \<in> set us. uni_ok u \<and> \<not> uni_up u) \<and> (\<forall>p \<in> set ps. pots_ok p \<and> \<not> pots_up p)
     \<and> length us = length (UniPorts (w_onu w)) \<and> length ps = length (PotsPorts (w_onu w))
     \<and> chan_room c n \<and> chan_cap c = chan_cap (onu_Channel (w_onu w))
     \<and> chan_msgs c = chan_msgs (onu_Channel (w_onu w)) @ port_alarms (w_onu w)"
proof -
  let ?o = "w_onu w" and ?env = "onu_port_env no_stream (w_onu w)"
  obtain us c1 where u: "disable_ports (uni_Disable ?env) (UniPorts ?o) (onu_Channel ?o) = Ret (us, c1)" "length us = length (UniPorts ?o)"
    "\<forall>u \<in> set us. uni_ok u \<and> \<not> uni_up u" "chan_room c1 (n + length (filter pots_up (PotsPorts ?o)))" "chan_cap c1 = chan_cap (onu_Channel ?o)"
    "chan_msgs c1 = chan_msgs (onu_Channel ?o) @ map (\<lambda>u. status_alarm ?env (me_num (uni_MeId u)) False) (filter uni_up (UniPorts ?o))"
    using uni_port.all_disabled[OF assms(1), of "onu_Channel ?o" "n + length (filter pots_up (PotsPorts ?o))" ?env] assms(3)
    by (auto simp: ports_up_def add_ac)
  obtain ps c2 where "disable_ports (pots_Disable ?env) (PotsPorts ?o) c1 = Ret (ps, c2)" "length ps = length (PotsPorts ?o)"
    "\<forall>p \<in> set ps. pots_ok p \<and> \<not> pots_up p" "chan_room c2 n" "chan_cap c2 = chan_cap c1"
    "chan_msgs c2 = chan_msgs c1 @ map (\<lambda>p. status_alarm ?env (me_num (pots_MeId p)) False) (filter pots_up (PotsPorts ?o))"
    using pots_port.all_disabled[OF assms(2) u(4), of ?env] by blast
  with u show ?thesis
    by (intro exI[of _ us] exI[of _ ps] exI[of _ c2]) (simp add: disable_all_ports_def Let_def port_alarms_def)
qed

section \<open>Disabling\<close>

definition disable_sources :: "onu_state set" where
  "disable_sources = {OnuStateEnabled, OnuStatePonDisabled, OnuStateImageActivated, OnuStateImageDownloadError, OnuStateImageCommitted}"

definition cleaned_tables :: "Onu \<Rightarrow> PonTables \<Rightarrow> PonTables" where
  "cleaned_tables o1 t = removeGemPortBySn (onu_SerialNumber o1) (removeAllocIdsForOnuSn (onu_SerialNumber o1) (removeOnuId (onu_ID o1) t))"

text \<open>The ONU after it is disabled, given its ports and its channel.\<close>

definition disabled_onu :: "Onu \<Rightarrow> UniPort list \<Rightarrow> PotsPort list \<Rightarrow> onu_message chan \<Rightarrow> Onu" where
  "disabled_onu o1 us ps c = o1\<lparr>onu_InternalState := SetState OnuStateDisabled (onu_InternalState o1),
     onu_OperState := SetState oper_down (onu_OperState o1), Flows := [], onuAlarmsInfo := [],
     UniPorts := us, PotsPorts := ps, onu_Channel := c\<rparr>"

lemma oper_fire:
  "transitions f = transitions new_oper_state \<Longrightarrow> snd (fsm_fire tx_disable f) = SetState oper_down f"
  "transitions f = transitions new_oper_state \<Longrightarrow> snd (fsm_fire tx_enable f) = SetState oper_up f"
  by (cases "current f"; simp add: fsm_fire_def oper_next SetState_def)+

lemma onu_okD:
  assumes "onu_ok o1"
  shows "transitions (onu_InternalState o1) = transitions new_onu_state" "transitions (onu_OperState o1) = transitions new_oper_state"
    "\<forall>u \<in> set (UniPorts o1). uni_ok u" "\<forall>p \<in> set (PotsPorts o1). pots_ok p"
    "powered (current (onu_InternalState o1)) \<Longrightarrow> \<exists>q. onu_Channel o1 = Chan (Some 2048) q False"
  using assms by (simp_all add: onu_ok_def)

lemma disabled_onu_ok:
  assumes "onu_ok o1" "\<forall>u \<in> set us. uni_ok u" "\<forall>p \<in> set ps. pots_ok p" "\<exists>q b. c = Chan (Some 2048) q b"
  shows "onu_ok (disabled_onu o1 us ps c)"
  using assms by (simp add: onu_ok_def disabled_onu_def powered_def)

lemma onu_disable_step:
  assumes ok: "world_ok w" and src: "onu_current w \<in> disable_sources"
    and room: "chan_room (onu_Channel (w_onu w)) (Suc (ports_up (w_onu w)))"
  shows "\<exists>us ps q. onu_Event OnuTxDisable w = Ret (None, w\<lparr>w_onu := disabled_onu (w_onu w) us ps
            (Chan (Some 2048) q (FlowIds (w_onu w) = [])), w_pon := cleaned_tables (w_onu w) (w_pon w)\<rparr>)
     \<and> (\<forall>u \<in> set us. uni_ok u \<and> \<not> uni_up u) \<and> (\<forall>p \<in> set ps. pots_ok p \<and> \<not> pots_up p)
     \<and> length us = length (UniPorts (w_onu w)) \<and> length ps = length (PotsPorts (w_onu w))
     \<and> q = chan_msgs (onu_Channel (w_onu w)) @ OnuIndication DOWN # port_alarms (w_onu w)"
proof -
  let ?o = "w_onu w"
  note okd = onu_okD[OF ok[unfolded world_ok_def, THEN conjunct1]]
  have "powered (onu_current w)" using src by (auto simp: disable_sources_def powered_def)
  then obtain q0 where q0: "onu_Channel ?o = Chan (Some 2048) q0 False" using okd(5) by (auto simp: onu_current_def)
  let ?c1 = "Chan (Some 2048) (q0 @ [OnuIndication DOWN]) False"
  have room1: "chan_room ?c1 (0 + ports_up ?o)" and lt: "length q0 < 2048" using room q0 by (auto simp: chan_room_def)
  define w1 where "w1 = w\<lparr>w_onu := ?o\<lparr>onu_InternalState := SetState OnuStateDisabled (onu_InternalState ?o), Flows := [], onuAlarmsInfo := [],
      onu_OperState := SetState oper_down (onu_OperState ?o), onu_Channel := ?c1\<rparr>, w_pon := cleaned_tables ?o (w_pon w)\<rparr>"
  have step: "onu_Event OnuTxDisable w = go_bind (enter_onu_disabled (onu_put (SetState OnuStateDisabled (onu_InternalState ?o)) w)) (\<lambda>w'. Ret (None, w'))"
    using onu_Event_step[OF okd(1), of OnuTxDisable OnuStateDisabled] src by (auto simp: onu_next disable_sources_def enter_onu_def)
  have send: "onu_send (OnuIndication DOWN) (oper_event_onu tx_disable (cleanupOnuState (onu_put (SetState OnuStateDisabled (onu_InternalState ?o)) w))) = Ret w1"
    using q0 lt okd(2) by (simp add: onu_send_def oper_event_onu_def cleanupOnuState_def onu_put_def on_onu_def Let_def w1_def cleaned_tables_def oper_fire)
  have ports: "UniPorts (w_onu w1) = UniPorts ?o" "PotsPorts (w_onu w1) = PotsPorts ?o" "onu_Channel (w_onu w1) = ?c1"
    "port_alarms (w_onu w1) = port_alarms ?o" "ports_up (w_onu w1) = ports_up ?o" "FlowIds (w_onu w1) = FlowIds ?o"
    by (simp_all add: w1_def port_alarms_def ports_up_def onu_port_env_def)
  obtain us ps c where d: "disable_all_ports w1 = Ret (on_onu (\<lambda>o1. o1\<lparr>UniPorts := us, PotsPorts := ps, onu_Channel := c\<rparr>) w1)"
     "\<forall>u \<in> set us. uni_ok u \<and> \<not> uni_up u" "\<forall>p \<in> set ps. pots_ok p \<and> \<not> pots_up p"
     "length us = length (UniPorts ?o)" "length ps = length (PotsPorts ?o)" "chan_room c 0" "chan_cap c = Some 2048"
     "chan_msgs c = q0 @ OnuIndication DOWN # port_alarms ?o"
    using disable_all_ports_ok[of w1 0] okd(3,4) room1 unfolding ports by auto
  then obtain q where q: "c = Chan (Some 2048) q False" by (cases c) (auto simp: chan_room_def)
  have fin: "close_if_no_flows (on_onu (\<lambda>o1. o1\<lparr>UniPorts := us, PotsPorts := ps, onu_Channel := c\<rparr>) w1) =
      Ret (w\<lparr>w_onu := disabled_onu ?o us ps (Chan (Some 2048) q (FlowIds ?o = [])), w_pon := cleaned_tables ?o (w_pon w)\<rparr>)"
    by (simp add: close_if_no_flows_def q on_onu_def w1_def disabled_onu_def)
  have "onu_Event OnuTxDisable w = Ret (None, w\<lparr>w_onu := disabled_onu ?o us ps (Chan (Some 2048) q (FlowIds ?o = [])),
      w_pon := cleaned_tables ?o (w_pon w)\<rparr>)"
    unfolding step enter_onu_disabled_def send by (simp add: d(1) fin)
  moreover have "q = chan_msgs (onu_Channel ?o) @ OnuIndication DOWN # port_alarms ?o" using d(8) q q0 by simp
  ultimately show ?thesis using d(2-5) by blast
qed

lemma tables_ok_cleaned [simp]: "tables_ok t \<Longrightarrow> tables_ok (cleaned_tables o1 t)"
  by (simp add: cleaned_tables_def)

lemma cleaned_tables_maps:
  assumes "tables_ok t"
  shows "map_of (AllocatedGemPorts (cleaned_tables o1 t)) g =
      (case map_of (AllocatedGemPorts t) g of None \<Rightarrow> None | Some sn \<Rightarrow> if same_ref sn (onu_SerialNumber o1) then None else Some sn)"
    and "map_of (AllocatedAllocIds (cleaned_tables o1 t)) k =
      (case map_of (AllocatedAllocIds t) k of None \<Rightarrow> None | Some v \<Rightarrow> if same_ref (OnuSn v) (onu_SerialNumber o1) then None else Some v)"
    and "map_of (AllocatedOnuIds (cleaned_tables o1 t)) i = (if i = onu_ID o1 then None else map_of (AllocatedOnuIds t) i)"
  using assms
  by (auto simp: cleaned_tables_def pon_table_defs tables_ok_def go_maps same_ref_def split: option.splits)

text \<open>
  C2: disabling an ONU releases everything it holds and nothing else. From any well-formed state that
  accepts the event, with room in the channel for one indication and one alarm per port that is up,
  the event returns without error; the ONU is disabled and down; all its UNIs and POTS ports are down
  and their services stopped; no GEM port and no alloc-id of the PON belongs to it any more and its
  id is free, while every resource of another ONU is as before; what it sent is the indication and
  the alarms in order; and its channel is closed exactly if it has no flows.
\<close>

theorem onu_disable_releases:
  assumes "world_ok w" "onu_current w \<in> disable_sources" "chan_room (onu_Channel (w_onu w)) (Suc (ports_up (w_onu w)))"
  shows "\<exists>w'. onu_Event OnuTxDisable w = Ret (None, w') \<and> world_ok w'
     \<and> onu_current w' = OnuStateDisabled \<and> current (onu_OperState (w_onu w')) = oper_down
     \<and> (\<forall>u \<in> set (UniPorts (w_onu w')). \<not> uni_up u \<and> (\<forall>s \<in> set (Services u). \<not> initialized s))
     \<and> (\<forall>p \<in> set (PotsPorts (w_onu w')). \<not> pots_up p)
     \<and> (\<forall>g sn. map_of (AllocatedGemPorts (w_pon w')) g = Some sn \<longleftrightarrow>
          map_of (AllocatedGemPorts (w_pon w)) g = Some sn \<and> \<not> same_ref sn (onu_SerialNumber (w_onu w)))
     \<and> (\<forall>k v. map_of (AllocatedAllocIds (w_pon w')) k = Some v \<longleftrightarrow>
          map_of (AllocatedAllocIds (w_pon w)) k = Some v \<and> \<not> same_ref (OnuSn v) (onu_SerialNumber (w_onu w)))
     \<and> map_of (AllocatedOnuIds (w_pon w')) = (map_of (AllocatedOnuIds (w_pon w)))(onu_ID (w_onu w) := None)
     \<and> chan_msgs (onu_Channel (w_onu w')) = chan_msgs (onu_Channel (w_onu w)) @ OnuIndication DOWN # port_alarms (w_onu w)
     \<and> (chan_open (onu_Channel (w_onu w')) \<longleftrightarrow> FlowIds (w_onu w) \<noteq> [])"
proof -
  have ok: "onu_ok (w_onu w)" "tables_ok (w_pon w)" using assms(1) by (auto simp: world_ok_def)
  obtain us ps q where d: "onu_Event OnuTxDisable w = Ret (None, w\<lparr>w_onu := disabled_onu (w_onu w) us ps
            (Chan (Some 2048) q (FlowIds (w_onu w) = [])), w_pon := cleaned_tables (w_onu w) (w_pon w)\<rparr>)" (is "_ = Ret (None, ?w')")
     and us: "\<forall>u \<in> set us. uni_ok u \<and> \<not> uni_up u" and ps: "\<forall>p \<in> set ps. pots_ok p \<and> \<not> pots_up p"
     and q: "q = chan_msgs (onu_Channel (w_onu w)) @ OnuIndication DOWN # port_alarms (w_onu w)"
    using onu_disable_step[OF assms] by blast
  have "world_ok ?w'" using disabled_onu_ok[OF ok(1), of us ps] us ps ok(2) by (auto simp: world_ok_def)
  moreover have "\<forall>u \<in> set us. \<forall>s \<in> set (Services u). \<not> initialized s" using us by (auto simp: uni_ok_def)
  ultimately show ?thesis
    using us ps by (intro exI[of _ ?w'] conjI)
      (auto simp: d q onu_current_def disabled_onu_def cleaned_tables_maps[OF ok(2)] fun_eq_iff split: option.splits)
qed

text \<open>An enabled ONU with one UNI and one POTS port.\<close>

definition sample_uni :: UniPort where
  "sample_uni = \<lparr>uni_ID = 0, uni_MeId = GenerateUniPortEntityId 1, uni_PortNo = 16, uni_OperState = new_oper_state,
     Services = [NewService sample_service_config], uni_PacketCh = make_chan None, uni_listening = False\<rparr>"

definition sample_onu :: Onu where
  "sample_onu = \<lparr>onu_ID = 1, onu_PonPortID = 0, onu_InternalState = SetState OnuStateEnabled new_onu_state,
     UniPorts = [sample_uni], PotsPorts = [NewPotsPort 1], Flows = [], FlowIds = [],
     onu_OperState = SetState oper_up new_oper_state, onu_SerialNumber = NewSN 1 0 0 1, AdminLockState = 0,
     onu_Channel = make_chan (Some 2048), MibDataSync = 0, ImageSoftwareExpectedSections = 0,
     ImageSoftwareReceivedSections = 0, ActiveImageEntityId = 0, CommittedImageEntityId = 0,
     StandbyImageVersion = ''BBSM_IMG_00000'', ActiveImageVersion = ''BBSM_IMG_00001'', InDownloadImageVersion = [],
     CommittedImageVersion = ''BBSM_IMG_00001'', OmciResponseRate = 10, OmciMsgCounter = 0, ImageSectionData = [],
     onu_tid = 1, onu_hpTid = 0x8000, onu_seqNumber = 0,
     onu_MibDb = \<lparr>NumberOfBaselineCommands = 0, NumberOfExtendedCommands = 0, baselineItems = [], extendedResponses = []\<rparr>,
     onu_TrafficSchedulers = None, onuAlarmsInfo = []\<rparr>"

definition sample_world :: onu_world where
  "sample_world = \<lparr>w_onu = sample_onu, w_pon = storeGemPort 1024 (NewSN 1 0 0 1) (storeOnuId 1 (NewSN 1 0 0 1) empty_tables),
     w_olt = make_chan None, w_sent = []\<rparr>"

lemma new_states [simp]: "current new_oper_state = oper_down" "current new_onu_state = OnuStateCreated"
  by (simp_all add: new_oper_state_def new_onu_state_def NewFSM_def)

lemma sample_uni_ok [simp]: "uni_ok sample_uni" "\<not> uni_up sample_uni"
  using service_ok_New[of sample_service_config]
  by (simp_all add: sample_uni_def uni_ok_def uni_up_def NewService_def new_service_state_def NewFSM_def make_chan_def)

lemma NewPotsPort_ok [simp]: "pots_ok (NewPotsPort i)" "\<not> pots_up (NewPotsPort i)"
  by (simp_all add: NewPotsPort_def pots_ok_def pots_up_def)

lemma sample_world_ok: "world_ok sample_world" "onu_current sample_world = OnuStateEnabled" "ports_up (w_onu sample_world) = 0"
  "onu_Channel (w_onu sample_world) = Chan (Some 2048) [] False" "FlowIds (w_onu sample_world) = []"
  by (simp_all add: sample_world_def sample_onu_def world_ok_def onu_ok_def onu_current_def powered_def make_chan_def ports_up_def)

theorem onu_disable_releases_witness:
  "\<exists>w'. onu_Event OnuTxDisable sample_world = Ret (None, w') \<and> onu_current w' = OnuStateDisabled
     \<and> map_of (AllocatedGemPorts (w_pon w')) 1024 = None \<and> \<not> chan_open (onu_Channel (w_onu w'))"
proof -
  have room: "chan_room (onu_Channel (w_onu sample_world)) (Suc (ports_up (w_onu sample_world)))"
    by (simp add: sample_world_ok chan_room_def)
  have own: "map_of (AllocatedGemPorts (w_pon sample_world)) 1024 = Some (NewSN 1 0 0 1)" "onu_SerialNumber (w_onu sample_world) = NewSN 1 0 0 1"
    by (simp_all add: sample_world_def sample_onu_def storeGemPort_def storeOnuId_def go_maps)
  have "onu_current sample_world \<in> disable_sources" by (simp add: sample_world_ok disable_sources_def)
  from onu_disable_releases[OF sample_world_ok(1) this room] obtain w' where
    w': "onu_Event OnuTxDisable sample_world = Ret (None, w')" "onu_current w' = OnuStateDisabled"
    "chan_open (onu_Channel (w_onu w')) \<longleftrightarrow> FlowIds (w_onu sample_world) \<noteq> []"
    "\<forall>g sn. map_of (AllocatedGemPorts (w_pon w')) g = Some sn \<longleftrightarrow>
       map_of (AllocatedGemPorts (w_pon sample_world)) g = Some sn \<and> \<not> same_ref sn (onu_SerialNumber (w_onu sample_world))"
    by (elim exE conjE) (rule that, assumption+)
  have "map_of (AllocatedGemPorts (w_pon w')) 1024 \<noteq> Some sn" for sn
    using w'(4)[rule_format, of 1024 sn] own by (auto simp: same_ref_def)
  then have "map_of (AllocatedGemPorts (w_pon w')) 1024 = None" by (meson not_None_eq)
  with w' show ?thesis using sample_world_ok(5) by auto
qed

section \<open>Initialising, discovering and enabling\<close>

definition initialized_onu :: "Onu \<Rightarrow> Onu" where
  "initialized_onu o1 = o1\<lparr>onu_InternalState := SetState OnuStateInitialized (onu_InternalState o1),
     onu_Channel := Chan (Some 2048) [] False, onu_OperState := SetState oper_up (onu_OperState o1)\<rparr>"

lemma onu_initialize_step:
  assumes "world_ok w" "onu_current w \<in> {OnuStateCreated, OnuStateDisabled, OnuStatePonDisabled}"
  shows "onu_Event OnuTxInitialize w = Ret (None, w\<lparr>w_onu := initialized_onu (w_onu w)\<rparr>)"
proof -
  note okd = onu_okD[OF assms(1)[unfolded world_ok_def, THEN conjunct1]]
  show ?thesis
    using onu_Event_step[OF okd(1), of OnuTxInitialize OnuStateInitialized] assms(2) okd(2)
    by (auto simp: onu_next enter_onu_def enter_onu_initialized_def oper_event_onu_def onu_put_def on_onu_def
        oper_fire initialized_onu_def make_chan_def)
qed

lemma initialized_onu_ok [simp]: "onu_ok o1 \<Longrightarrow> onu_ok (initialized_onu o1)"
  by (simp add: onu_ok_def initialized_onu_def powered_def)

text \<open>An event that only sends a message.\<close>

lemma onu_send_step:
  assumes "onu_Channel (w_onu w) = Chan (Some k) q False" "length q < k"
  shows "onu_send m w = Ret (on_onu (\<lambda>o1. o1\<lparr>onu_Channel := Chan (Some k) (q @ [m]) False\<rparr>) w)"
  using assms by (simp add: onu_send_def)

lemma onu_discover_step:
  assumes "world_ok w" "onu_current w = OnuStateInitialized" "onu_Channel (w_onu w) = Chan (Some 2048) q False" "length q < 2048"
  shows "onu_Event OnuTxDiscover w = Ret (None, on_onu (\<lambda>o1. o1\<lparr>onu_InternalState := SetState OnuStateDiscovered (onu_InternalState o1),
            onu_Channel := Chan (Some 2048) (q @ [OnuDiscIndication UP]) False\<rparr>) w)"
proof -
  note okd = onu_okD[OF assms(1)[unfolded world_ok_def, THEN conjunct1]]
  show ?thesis
    using onu_Event_step[OF okd(1), of OnuTxDiscover OnuStateDiscovered] assms(2-)
    by (simp add: onu_next enter_onu_def onu_send_def onu_put_def on_onu_def)
qed

lemma onu_enable_step:
  assumes "world_ok w" "onu_current w \<in> {OnuStateDiscovered, OnuStatePonDisabled}" "onu_Channel (w_onu w) = Chan (Some 2048) q False" "length q < 2048"
    "map_of (AllocatedOnuIds (w_pon w)) (onu_ID (w_onu w)) = None"
  shows "onu_Event OnuTxEnable w = Ret (None, on_pon (storeOnuId (onu_ID (w_onu w)) (onu_SerialNumber (w_onu w)))
           (on_onu (\<lambda>o1. o1\<lparr>onu_InternalState := SetState OnuStateEnabled (onu_InternalState o1),
            onu_Channel := Chan (Some 2048) (q @ [OnuIndication UP]) False\<rparr>) w))"
proof -
  note okd = onu_okD[OF assms(1)[unfolded world_ok_def, THEN conjunct1]]
  have "OnuStateEnabled \<noteq> onu_current w" using assms(2) by auto
  then show ?thesis
    using onu_Event_step[OF okd(1), of OnuTxEnable OnuStateEnabled] assms(2-)
    by (auto simp: onu_next enter_onu_def enter_onu_enabled_def isOnuIdAllocated_def onu_send_def onu_put_def on_onu_def on_pon_def Let_def)
qed

section \<open>Power cycling\<close>

definition los_on_ani :: "bool \<Rightarrow> Onu \<Rightarrow> onu_message" where
  "los_on_ani b o1 = UniStatusAlarm \<lparr>ua_OnuSN = onu_SerialNumber o1, ua_OnuID = onu_ID o1, ua_AdminState = 0, ua_EntityID = 257, RaiseOMCIAlarm = b\<rparr>"

definition los_alarm :: "string \<Rightarrow> Onu \<Rightarrow> olt_message" where
  "los_alarm st o1 = AlarmIndicationMsg (OnuAlarmInd ((no_onu_alarm (onu_PonPortID o1) (onu_ID o1))\<lparr>LosStatus := st\<rparr>))"

definition dying_gasp :: "Onu \<Rightarrow> olt_message" where
  "dying_gasp o1 = AlarmIndicationMsg (DyingGaspInd (onu_PonPortID o1) (onu_ID o1) ''on'')"

lemma onu_alarm_step:
  assumes "chan_room (w_olt w) (Suc n)"
  shows "\<exists>c. onu_alarm ''ONU_ALARM_LOS'' st w = Ret (True, w\<lparr>w_olt := c\<rparr>) \<and> chan_room c n
       \<and> chan_msgs c = chan_msgs (w_olt w) @ [los_alarm st (w_onu w)]"
    and "\<exists>c. onu_alarm ''DYING_GASP'' ''on'' w = Ret (True, w\<lparr>w_olt := c\<rparr>) \<and> chan_room c n
       \<and> chan_msgs c = chan_msgs (w_olt w) @ [dying_gasp (w_onu w)]"
  using chan_send_room[OF assms, of "los_alarm st (w_onu w)"] chan_send_room[OF assms, of "dying_gasp (w_onu w)"]
  by (auto simp: onu_alarm_def SimulateOnuAlarm_def BuildOnuAlarmIndication_def AlarmNameToEnum_def ONUAlarms_def
      AlarmType_Types_name_def los_alarm_def dying_gasp_def Let_def)

lemma los_sent:
  "onu_Channel (w_onu w) = Chan (Some k) q False \<Longrightarrow> length q < k \<Longrightarrow>
   SendOMCIAlarmNotificationMsg b ''ONU_ALARM_LOS'' w
     = Ret (on_onu (\<lambda>o1. o1\<lparr>onu_Channel := Chan (Some k) (q @ [los_on_ani b (w_onu w)]) False\<rparr>) w)"
  by (simp add: SendOMCIAlarmNotificationMsg_def onu_send_step los_on_ani_def)

text \<open>The ONU after a power cycle.\<close>

definition restarted_onu :: "Onu \<Rightarrow> Onu" where
  "restarted_onu o1 = o1\<lparr>onu_InternalState := SetState OnuStateEnabled (onu_InternalState o1),
     onu_OperState := SetState oper_up (onu_OperState o1),
     onu_Channel := Chan (Some 2048) [los_on_ani False o1, OnuDiscIndication UP, OnuIndication UP] False\<rparr>"

lemma power_on_disabled:
  assumes "world_ok w" "onu_current w = OnuStateDisabled" "map_of (AllocatedOnuIds (w_pon w)) (onu_ID (w_onu w)) = None"
    "chan_room (w_olt w) (Suc n)"
  shows "\<exists>c. HandlePowerOnONU False w = Ret (True, w\<lparr>w_onu := restarted_onu (w_onu w),
           w_pon := storeOnuId (onu_ID (w_onu w)) (onu_SerialNumber (w_onu w)) (w_pon w), w_olt := c\<rparr>)
     \<and> chan_msgs c = chan_msgs (w_olt w) @ [los_alarm ''off'' (w_onu w)]"
proof -
  let ?o = "w_onu w"
  define w1 where "w1 = w\<lparr>w_onu := initialized_onu ?o\<rparr>"
  have o1: "onu_ID (initialized_onu ?o) = onu_ID ?o" "onu_PonPortID (initialized_onu ?o) = onu_PonPortID ?o"
    "onu_SerialNumber (initialized_onu ?o) = onu_SerialNumber ?o" by (simp_all add: initialized_onu_def)
  obtain c where c: "onu_alarm ''ONU_ALARM_LOS'' ''off'' w1 = Ret (True, w1\<lparr>w_olt := c\<rparr>)"
    "chan_msgs c = chan_msgs (w_olt w) @ [los_alarm ''off'' ?o]"
    using onu_alarm_step(1)[of w1 n "''off''"] assms(4) by (auto simp: w1_def los_alarm_def o1)
  define w3 where "w3 = on_onu (\<lambda>o2. o2\<lparr>onu_Channel := Chan (Some 2048) [los_on_ani False ?o] False\<rparr>) (w1\<lparr>w_olt := c\<rparr>)"
  have s3: "SendOMCIAlarmNotificationMsg False ''ONU_ALARM_LOS'' (w1\<lparr>w_olt := c\<rparr>) = Ret w3"
    using los_sent[of "w1\<lparr>w_olt := c\<rparr>" 2048 "[]" False] by (simp add: w1_def w3_def initialized_onu_def los_on_ani_def)
  have ok3: "world_ok w3" "onu_current w3 = OnuStateInitialized" "onu_Channel (w_onu w3) = Chan (Some 2048) [los_on_ani False ?o] False"
    using assms(1) by (auto simp: world_ok_def w3_def w1_def onu_ok_def initialized_onu_def powered_def onu_current_def on_onu_def)
  define w4 where "w4 = on_onu (\<lambda>o2. o2\<lparr>onu_InternalState := SetState OnuStateDiscovered (onu_InternalState o2),
            onu_Channel := Chan (Some 2048) ([los_on_ani False ?o] @ [OnuDiscIndication UP]) False\<rparr>) w3"
  have s4: "onu_Event OnuTxDiscover w3 = Ret (None, w4)" unfolding w4_def using onu_discover_step[OF ok3] by simp
  have ok4: "world_ok w4" "onu_current w4 \<in> {OnuStateDiscovered, OnuStatePonDisabled}"
    "onu_Channel (w_onu w4) = Chan (Some 2048) [los_on_ani False ?o, OnuDiscIndication UP] False"
    "map_of (AllocatedOnuIds (w_pon w4)) (onu_ID (w_onu w4)) = None"
    using ok3(1) assms(3) by (auto simp: world_ok_def w4_def w3_def w1_def onu_ok_def initialized_onu_def powered_def onu_current_def on_onu_def)
  show ?thesis
    using onu_initialize_step[OF assms(1)] assms(2) c onu_enable_step[OF ok4(1,2,3) _ ok4(4)]
    by (intro exI[of _ c]) (simp add: HandlePowerOnONU_def Let_def event_ok_def s3 s4 flip: w1_def,
        simp add: w4_def w3_def w1_def on_onu_def on_pon_def initialized_onu_def restarted_onu_def SetState_def)
qed

lemma shutdown_alarms:
  assumes "chan_room (w_olt w) (Suc (Suc n))"
  shows "\<exists>c. HandleShutdownONU w = go_bind (if onu_current w \<noteq> OnuStateDisabled
        then SendOMCIAlarmNotificationMsg True ''ONU_ALARM_LOS'' (w\<lparr>w_olt := c\<rparr>) else Ret (w\<lparr>w_olt := c\<rparr>)) (event_ok OnuTxDisable)
     \<and> chan_room c n \<and> chan_msgs c = chan_msgs (w_olt w) @ [dying_gasp (w_onu w), los_alarm ''on'' (w_onu w)]"
proof -
  obtain c1 where c1: "onu_alarm ''DYING_GASP'' ''on'' w = Ret (True, w\<lparr>w_olt := c1\<rparr>)" "chan_room c1 (Suc n)"
    "chan_msgs c1 = chan_msgs (w_olt w) @ [dying_gasp (w_onu w)]"
    using onu_alarm_step(2)[OF assms] by blast
  obtain c2 where "onu_alarm ''ONU_ALARM_LOS'' ''on'' (w\<lparr>w_olt := c1\<rparr>) = Ret (True, w\<lparr>w_olt := c2\<rparr>)" "chan_room c2 n"
    "chan_msgs c2 = chan_msgs c1 @ [los_alarm ''on'' (w_onu w)]"
    using onu_alarm_step(1)[of "w\<lparr>w_olt := c1\<rparr>" n "''on''"] c1(2) by auto
  with c1 show ?thesis by (intro exI[of _ c2]) (simp add: HandleShutdownONU_def onu_current_def)
qed

lemma shutdown_running:
  assumes ok: "world_ok w" and src: "onu_current w \<in> disable_sources"
    and room: "chan_room (onu_Channel (w_onu w)) (Suc (Suc (ports_up (w_onu w))))" "chan_room (w_olt w) (Suc (Suc n))"
  shows "\<exists>us ps q c. HandleShutdownONU w = Ret (True, w\<lparr>w_onu := disabled_onu (w_onu w) us ps (Chan (Some 2048) q (FlowIds (w_onu w) = [])),
            w_pon := cleaned_tables (w_onu w) (w_pon w), w_olt := c\<rparr>)
     \<and> (\<forall>u \<in> set us. uni_ok u \<and> \<not> uni_up u) \<and> (\<forall>p \<in> set ps. pots_ok p \<and> \<not> pots_up p)
     \<and> chan_room c n \<and> chan_msgs c = chan_msgs (w_olt w) @ [dying_gasp (w_onu w), los_alarm ''on'' (w_onu w)]"
proof -
  obtain c where c: "HandleShutdownONU w = go_bind (if onu_current w \<noteq> OnuStateDisabled
        then SendOMCIAlarmNotificationMsg True ''ONU_ALARM_LOS'' (w\<lparr>w_olt := c\<rparr>) else Ret (w\<lparr>w_olt := c\<rparr>)) (event_ok OnuTxDisable)"
     "chan_room c n" "chan_msgs c = chan_msgs (w_olt w) @ [dying_gasp (w_onu w), los_alarm ''on'' (w_onu w)]"
    using shutdown_alarms[OF room(2)] by blast
  have "powered (onu_current w)" using src by (auto simp: disable_sources_def powered_def)
  then obtain q where q: "onu_Channel (w_onu w) = Chan (Some 2048) q False" using onu_okD(5) ok by (auto simp: onu_current_def world_ok_def)
  define w1 where "w1 = on_onu (\<lambda>o1. o1\<lparr>onu_Channel := Chan (Some 2048) (q @ [los_on_ani True (w_onu w)]) False\<rparr>) (w\<lparr>w_olt := c\<rparr>)"
  have s1: "SendOMCIAlarmNotificationMsg True ''ONU_ALARM_LOS'' (w\<lparr>w_olt := c\<rparr>) = Ret w1"
    using los_sent[of "w\<lparr>w_olt := c\<rparr>" 2048 q True] q room(1) by (auto simp: w1_def chan_room_def)
  have "onu_ok (w_onu w1)" using ok \<open>powered (onu_current w)\<close> by (auto simp: w1_def onu_ok_def world_ok_def onu_current_def powered_def)
  then have w1: "world_ok w1" "onu_current w1 \<in> disable_sources" "chan_room (onu_Channel (w_onu w1)) (Suc (ports_up (w_onu w1)))"
    "w_pon w1 = w_pon w" "FlowIds (w_onu w1) = FlowIds (w_onu w)"
    using ok src room(1) q by (auto simp: world_ok_def w1_def onu_current_def ports_up_def chan_room_def)
  obtain us ps q' where d: "onu_Event OnuTxDisable w1 = Ret (None, w1\<lparr>w_onu := disabled_onu (w_onu w1) us ps
            (Chan (Some 2048) q' (FlowIds (w_onu w) = [])), w_pon := cleaned_tables (w_onu w1) (w_pon w)\<rparr>)"
     "\<forall>u \<in> set us. uni_ok u \<and> \<not> uni_up u" "\<forall>p \<in> set ps. pots_ok p \<and> \<not> pots_up p"
    using onu_disable_step[OF w1(1-3)] unfolding w1(4,5) by blast
  have "onu_current w \<noteq> OnuStateDisabled" using src by (auto simp: disable_sources_def)
  then have "HandleShutdownONU w = Ret (True, w\<lparr>w_onu := disabled_onu (w_onu w) us ps (Chan (Some 2048) q' (FlowIds (w_onu w) = [])),
            w_pon := cleaned_tables (w_onu w) (w_pon w), w_olt := c\<rparr>)"
    unfolding c(1) by (simp add: s1 event_ok_def d(1)) (simp add: w1_def on_onu_def disabled_onu_def cleaned_tables_def)
  with d(2,3) c(2,3) show ?thesis by blast
qed

text \<open>
  C12: a reboot brings a running ONU back. From any well-formed state in which the ONU can be shut down, with
  room in the two channels, \<open>Reboot\<close> returns without error; the OLT is told of the dying gasp and of the loss of
  signal going on and off; the ONU is enabled and up with its own id allocated to it again, with every port down,
  with no GEM port and no alloc-id left, and with a fresh channel that holds the end of the alarm, its discovery
  and its indication, so that it is provisioned from the start.
\<close>

theorem onu_power_cycle:
  assumes "world_ok w" "onu_current w \<in> disable_sources"
    and "chan_room (onu_Channel (w_onu w)) (Suc (Suc (ports_up (w_onu w))))" "chan_room (w_olt w) 3"
  shows "\<exists>w'. onu_Reboot False w = Ret (True, w') \<and> world_ok w'
     \<and> onu_current w' = OnuStateEnabled \<and> current (onu_OperState (w_onu w')) = oper_up
     \<and> map_of (AllocatedOnuIds (w_pon w')) (onu_ID (w_onu w)) = Some (onu_SerialNumber (w_onu w))
     \<and> (\<forall>g sn. map_of (AllocatedGemPorts (w_pon w')) g = Some sn \<longrightarrow> \<not> same_ref sn (onu_SerialNumber (w_onu w)))
     \<and> (\<forall>k v. map_of (AllocatedAllocIds (w_pon w')) k = Some v \<longrightarrow> \<not> same_ref (OnuSn v) (onu_SerialNumber (w_onu w)))
     \<and> (\<forall>u \<in> set (UniPorts (w_onu w')). \<not> uni_up u) \<and> (\<forall>p \<in> set (PotsPorts (w_onu w')). \<not> pots_up p)
     \<and> onu_Channel (w_onu w') = Chan (Some 2048) [los_on_ani False (w_onu w), OnuDiscIndication UP, OnuIndication UP] False
     \<and> chan_msgs (w_olt w') = chan_msgs (w_olt w) @ [dying_gasp (w_onu w), los_alarm ''on'' (w_onu w), los_alarm ''off'' (w_onu w)]"
proof -
  let ?o = "w_onu w"
  have ok: "onu_ok ?o" "tables_ok (w_pon w)" using assms(1) by (auto simp: world_ok_def)
  have three: "chan_room (w_olt w) (Suc (Suc 1))" using assms(4) by (simp add: numeral_3_eq_3)
  obtain us ps q c where d: "HandleShutdownONU w = Ret (True, w\<lparr>w_onu := disabled_onu ?o us ps (Chan (Some 2048) q (FlowIds ?o = [])),
            w_pon := cleaned_tables ?o (w_pon w), w_olt := c\<rparr>)"
     and us: "\<forall>u \<in> set us. uni_ok u \<and> \<not> uni_up u" and ps: "\<forall>p \<in> set ps. pots_ok p \<and> \<not> pots_up p"
     and c: "chan_room c (Suc 0)" "chan_msgs c = chan_msgs (w_olt w) @ [dying_gasp ?o, los_alarm ''on'' ?o]"
    using shutdown_running[OF assms(1-3) three] by auto
  define o1 where "o1 = disabled_onu ?o us ps (Chan (Some 2048) q (FlowIds ?o = []))"
  define w1 where "w1 = w\<lparr>w_onu := o1, w_pon := cleaned_tables ?o (w_pon w), w_olt := c\<rparr>"
  have o1: "onu_ID o1 = onu_ID ?o" "onu_SerialNumber o1 = onu_SerialNumber ?o" "onu_PonPortID o1 = onu_PonPortID ?o"
    "UniPorts o1 = us" "PotsPorts o1 = ps" by (simp_all add: o1_def disabled_onu_def)
  have ok1: "onu_ok o1" using disabled_onu_ok[OF ok(1)] us ps by (simp add: o1_def)
  then have w1: "world_ok w1" "onu_current w1 = OnuStateDisabled" "map_of (AllocatedOnuIds (w_pon w1)) (onu_ID (w_onu w1)) = None"
    using ok(2) by (simp_all add: world_ok_def w1_def onu_current_def o1_def disabled_onu_def cleaned_tables_maps(3)[OF ok(2)])
  obtain c' where on: "HandlePowerOnONU False w1 = Ret (True, w1\<lparr>w_onu := restarted_onu o1,
           w_pon := storeOnuId (onu_ID ?o) (onu_SerialNumber ?o) (cleaned_tables ?o (w_pon w)), w_olt := c'\<rparr>)" (is "_ = Ret (True, ?w')")
     "chan_msgs c' = chan_msgs c @ [los_alarm ''off'' o1]"
    using power_on_disabled[OF w1, of 0] c(1) by (auto simp: w1_def o1)
  have "onu_ok (restarted_onu o1)" using ok1 by (simp add: onu_ok_def restarted_onu_def powered_def)
  then have "world_ok ?w'" using ok(2) by (simp add: world_ok_def)
  moreover have "onu_Reboot False w = Ret (True, ?w')" by (simp add: onu_Reboot_def d on flip: o1_def w1_def)
  ultimately show ?thesis
    using us ps ok(2) on(2) c(2) by (intro exI[of _ ?w'] conjI)
      (auto simp: onu_current_def restarted_onu_def o1 los_on_ani_def los_alarm_def storeOnuId_def go_maps cleaned_tables_maps split: option.splits if_splits)
qed

theorem onu_power_cycle_witness:
  "\<exists>w'. onu_Reboot False sample_world = Ret (True, w') \<and> onu_current w' = OnuStateEnabled
     \<and> map_of (AllocatedOnuIds (w_pon w')) 1 = Some (NewSN 1 0 0 1)"
proof -
  have h: "onu_current sample_world \<in> disable_sources" "chan_room (onu_Channel (w_onu sample_world)) (Suc (Suc (ports_up (w_onu sample_world))))"
    "chan_room (w_olt sample_world) 3" and i: "onu_ID (w_onu sample_world) = 1" "onu_SerialNumber (w_onu sample_world) = NewSN 1 0 0 1"
    by (simp_all add: sample_world_ok disable_sources_def chan_room_def) (simp_all add: sample_world_def sample_onu_def make_chan_def chan_room_def)
  from onu_power_cycle[OF sample_world_ok(1) h] show ?thesis unfolding i by blast
qed

text \<open>
  C36: a shutdown that the machine refuses is not free of effects. For an ONU that was never powered on it
  waits for ever on the nil channel, after the alarms have gone to the OLT. For a disabled ONU, and for
  one in a powered state without a transition to disabled, such as one that is downloading an image, it
  returns an error and changes nothing but the two channels: both alarms are raised although the ONU keeps running.
\<close>

theorem onu_shutdown_refused:
  assumes "world_ok w" "onu_current w \<notin> disable_sources" "chan_room (w_olt w) 2"
    and "powered (onu_current w) \<longrightarrow> chan_room (onu_Channel (w_onu w)) 1"
  shows "if onu_current w = OnuStateCreated then HandleShutdownONU w = Blocked
     else \<exists>c c'. HandleShutdownONU w = Ret (False, w\<lparr>w_olt := c, w_onu := (w_onu w)\<lparr>onu_Channel := c'\<rparr>\<rparr>)
        \<and> chan_msgs c = chan_msgs (w_olt w) @ [dying_gasp (w_onu w), los_alarm ''on'' (w_onu w)]
        \<and> chan_msgs c' = chan_msgs (onu_Channel (w_onu w))
            @ (if onu_current w = OnuStateDisabled then [] else [los_on_ani True (w_onu w)])"
proof -
  have tr: "transitions (onu_InternalState (w_onu w)) = transitions new_onu_state" using assms(1) by (simp add: world_ok_def onu_ok_def)
  have none: "map_of (transitions new_onu_state) (OnuTxDisable, onu_current w) = None"
    using assms(2) by (auto simp: onu_next disable_sources_def)
  obtain c where c: "HandleShutdownONU w = go_bind (if onu_current w \<noteq> OnuStateDisabled
        then SendOMCIAlarmNotificationMsg True ''ONU_ALARM_LOS'' (w\<lparr>w_olt := c\<rparr>) else Ret (w\<lparr>w_olt := c\<rparr>)) (event_ok OnuTxDisable)"
     "chan_msgs c = chan_msgs (w_olt w) @ [dying_gasp (w_onu w), los_alarm ''on'' (w_onu w)]"
    using shutdown_alarms[of w 0] assms(3) by (auto simp: numeral_2_eq_2)
  have refused: "event_ok OnuTxDisable w1 = Ret (False, w1)" if "onu_InternalState (w_onu w1) = onu_InternalState (w_onu w)" for w1
    using onu_Event_rejected[of w1 OnuTxDisable] that tr none by (auto simp: event_ok_def onu_current_def)
  consider (new) "onu_current w = OnuStateCreated" | (off) "onu_current w = OnuStateDisabled" | (on) "powered (onu_current w)"
    by (auto simp: powered_def)
  then show ?thesis
  proof cases
    case new
    then have "onu_Channel (w_onu w) = NilChan" using assms(1) by (auto simp: world_ok_def onu_ok_def onu_current_def)
    with new show ?thesis by (simp add: c(1) SendOMCIAlarmNotificationMsg_def onu_send_def)
  next
    case off
    then have "HandleShutdownONU w = Ret (False, w\<lparr>w_olt := c, w_onu := (w_onu w)\<lparr>onu_Channel := onu_Channel (w_onu w)\<rparr>\<rparr>)"
      by (simp add: c(1) refused)
    with c(2) show ?thesis unfolding off by (simp only: onu_state.distinct simp_thms if_False if_True append_Nil2) blast
  next
    case on
    then obtain q where q: "onu_Channel (w_onu w) = Chan (Some 2048) q False" "length q < 2048"
      using onu_okD(5)[of "w_onu w"] assms(1,4) by (auto simp: world_ok_def onu_current_def chan_room_def)
    let ?c = "Chan (Some 2048) (q @ [los_on_ani True (w_onu w)]) False"
    have off: "onu_current w \<noteq> OnuStateCreated" "onu_current w \<noteq> OnuStateDisabled" using on by (auto simp: powered_def)
    have "SendOMCIAlarmNotificationMsg True ''ONU_ALARM_LOS'' (w\<lparr>w_olt := c\<rparr>) = Ret (w\<lparr>w_olt := c, w_onu := (w_onu w)\<lparr>onu_Channel := ?c\<rparr>\<rparr>)"
      using los_sent[of "w\<lparr>w_olt := c\<rparr>" 2048 q True] q by (simp add: on_onu_def)
    then have "HandleShutdownONU w = Ret (False, w\<lparr>w_olt := c, w_onu := (w_onu w)\<lparr>onu_Channel := ?c\<rparr>\<rparr>)"
      unfolding c(1) using off by (simp add: refused)
    moreover have "chan_msgs ?c = chan_msgs (onu_Channel (w_onu w)) @ [los_on_ani True (w_onu w)]" by (simp add: q)
    ultimately show ?thesis using c(2) off by (simp only: if_not_P if_False not_False_eq_True) blast
  qed
qed

theorem onu_shutdown_refused_witness:
  "HandleShutdownONU (sample_world\<lparr>w_onu := sample_onu\<lparr>onu_InternalState := new_onu_state, onu_OperState := new_oper_state,
      onu_Channel := NilChan\<rparr>\<rparr>) = Blocked"
  using onu_shutdown_refused[of "sample_world\<lparr>w_onu := sample_onu\<lparr>onu_InternalState := new_onu_state,
      onu_OperState := new_oper_state, onu_Channel := NilChan\<rparr>\<rparr>"]
  by (simp add: world_ok_def onu_ok_def powered_def onu_current_def disable_sources_def sample_world_def sample_onu_def make_chan_def chan_room_def)

section \<open>Counters\<close>

fun take_tids :: "bool list \<Rightarrow> Onu \<Rightarrow> uint16 list \<times> Onu" where
  "take_tids [] o1 = ([], o1)"
| "take_tids (hp # hps) o1 = (let (t, o2) = getNextTid hp o1; (ts, o3) = take_tids hps o2 in (t # ts, o3))"

text \<open>The \<open>n\<close>-th transaction id of each kind.\<close>

definition low_tid :: "nat \<Rightarrow> nat" where
  "low_tid n = 1 + n mod 0x7FFF"

definition high_tid :: "nat \<Rightarrow> nat" where
  "high_tid n = 0x8000 + n mod 0x8000"

definition tids_at :: "nat \<Rightarrow> nat \<Rightarrow> Onu \<Rightarrow> bool" where
  "tids_at l h o1 \<longleftrightarrow> unat (onu_tid o1) = low_tid l \<and> unat (onu_hpTid o1) = high_tid h"

lemma unat_succ16: "unat (x :: uint16) < 0xFFFF \<Longrightarrow> unat (x + 1) = unat x + 1"
  by (simp add: unat_word_ariths)

lemma getNextTid_low:
  assumes "tids_at l h o1"
  shows "fst (getNextTid False o1) = of_nat (low_tid l) \<and> tids_at (Suc l) h (snd (getNextTid False o1))"
proof -
  have b: "unat (onu_tid o1) = low_tid l" "low_tid l < 0x8000" using assms by (simp_all add: tids_at_def low_tid_def)
  have f: "onu_tid o1 = of_nat (low_tid l)" unfolding b(1)[symmetric] by simp
  have "unat (onu_tid o1 + 1) = low_tid l + 1" using b by (simp add: unat_succ16)
  moreover have "low_tid (Suc l) = (if low_tid l + 1 \<ge> 0x8000 then 1 else low_tid l + 1)" by (auto simp: low_tid_def mod_Suc)
  ultimately show ?thesis
    using assms b by (auto simp: getNextTid_def Let_def tids_at_def word_le_nat_alt f)
qed

lemma getNextTid_high:
  assumes "tids_at l h o1"
  shows "fst (getNextTid True o1) = of_nat (high_tid h) \<and> tids_at l (Suc h) (snd (getNextTid True o1))"
proof -
  have b: "unat (onu_hpTid o1) = high_tid h" "high_tid h < 0x10000" "0x8000 \<le> high_tid h" using assms by (simp_all add: tids_at_def high_tid_def)
  have f: "onu_hpTid o1 = of_nat (high_tid h)" unfolding b(1)[symmetric] by simp
  have "unat (onu_hpTid o1 + 1) = (if high_tid h = 0xFFFF then 0 else high_tid h + 1)" using b by (simp add: unat_word_ariths)
  moreover have "high_tid (Suc h) = (if high_tid h = 0xFFFF then 0x8000 else high_tid h + 1)" by (auto simp: high_tid_def mod_Suc)
  ultimately show ?thesis
    using assms b by (auto simp: getNextTid_def Let_def tids_at_def word_less_nat_alt f)
qed

lemma take_tids_nth:
  "tids_at l h o1 \<Longrightarrow> length (fst (take_tids hps o1)) = length hps
   \<and> (\<forall>i < length hps. fst (take_tids hps o1) ! i = of_nat
        (if hps ! i then high_tid (h + length (filter id (take i hps))) else low_tid (l + length (filter Not (take i hps)))))"
proof (induction hps arbitrary: l h o1)
  case (Cons hp hps)
  note step = getNextTid_low[OF Cons.prems] getNextTid_high[OF Cons.prems]
  show ?case
  proof (cases hp)
    case True
    with Cons.IH[of l "Suc h" "snd (getNextTid True o1)"] step(2) show ?thesis
      by (auto simp: split_beta Let_def nth_Cons split: nat.splits)
  next
    case False
    with Cons.IH[of "Suc l" h "snd (getNextTid False o1)"] step(1) show ?thesis
      by (auto simp: split_beta Let_def nth_Cons split: nat.splits)
  qed
qed simp

fun alarm_numbers :: "OnuAlarmInfoMapKey \<Rightarrow> nat \<Rightarrow> Onu \<Rightarrow> uint8 list" where
  "alarm_numbers key 0 o1 = []"
| "alarm_numbers key (Suc n) o1 = (let (i, o2) = IncrementAlarmSequenceNumber key o1 in i # alarm_numbers key n o2)"

lemma alarm_numbers_from:
  "map_of (onuAlarmsInfo o1) key = Some a \<Longrightarrow> SequenceNo a = of_nat (1 + k mod 255) \<Longrightarrow>
   alarm_numbers key n o1 = map (\<lambda>i. of_nat (1 + (k + i) mod 255)) [1..<Suc n]"
proof (induction n arbitrary: o1 a k)
  case (Suc n)
  define a2 where "a2 = a\<lparr>SequenceNo := of_nat (1 + Suc k mod 255)\<rparr>"
  define o2 where "o2 = o1\<lparr>onuAlarmsInfo := AList.update key a2 (onuAlarmsInfo o1)\<rparr>"
  have k: "k mod 255 < 255" by simp
  have "SequenceNo a = 255 \<longleftrightarrow> k mod 255 = 254"
  proof -
    have "unat (SequenceNo a) = 1 + k mod 255" using Suc.prems(2) k by (simp add: unat_of_nat del: of_nat_add of_nat_Suc)
    then show ?thesis by (auto simp: word_unat_eq_iff)
  qed
  then have inc: "IncrementAlarmSequenceNumber key o1 = (of_nat (1 + Suc k mod 255), o2)"
    using Suc.prems by (auto simp: IncrementAlarmSequenceNumber_def Let_def o2_def a2_def mod_Suc)
  have "alarm_numbers key n o2 = map (\<lambda>i. of_nat (1 + (Suc k + i) mod 255)) [1..<Suc n]"
    by (rule Suc.IH[of o2 a2]) (simp_all add: o2_def a2_def go_maps)
  then show ?case
    by (simp add: inc upt_conv_Cons flip: map_Suc_upt del: upt_Suc)
qed simp

lemma alarm_numbers_new:
  assumes "map_of (onuAlarmsInfo o1) key = None"
  shows "alarm_numbers key n o1 = map (\<lambda>i. of_nat (1 + i mod 255)) [0..<n]"
proof (cases n)
  case (Suc m)
  define a :: OnuAlarmInfo where "a = \<lparr>SequenceNo = 1, AlarmBitMap = replicate 28 0\<rparr>"
  define o2 where "o2 = o1\<lparr>onuAlarmsInfo := AList.update key a (onuAlarmsInfo o1)\<rparr>"
  have "IncrementAlarmSequenceNumber key o1 = (1, o2)" using assms by (simp add: IncrementAlarmSequenceNumber_def o2_def a_def)
  moreover have "alarm_numbers key m o2 = map (\<lambda>i. of_nat (1 + (0 + i) mod 255)) [1..<Suc m]"
    by (rule alarm_numbers_from[of o2 key a]) (simp_all add: o2_def a_def go_maps)
  ultimately show ?thesis using Suc by (simp add: upt_conv_Cons del: upt_Suc)
qed simp

lemma InvalidateMibDataSync_changes:
  assumes "1 \<le> r" "r \<le> 10"
  shows "MibDataSync (InvalidateMibDataSync r o1) \<notin> {0, MibDataSync o1}"
proof -
  have "MibDataSync o1 + r \<noteq> MibDataSync o1" using assms by auto
  moreover have "MibDataSync o1 \<noteq> 1" if "MibDataSync o1 + r = 0"
  proof
    assume "MibDataSync o1 = 1"
    with that have "r = - 1" by (simp add: eq_neg_iff_add_eq_0 add.commute)
    moreover have "\<not> (- 1 :: uint8) \<le> 10" by code_simp
    ultimately show False using assms(2) by simp
  qed
  ultimately show ?thesis by (auto simp: InvalidateMibDataSync_def Let_def)
qed

text \<open>
  C25: the counters of an ONU. From its initial values, in every order of requests, the \<open>n\<close>-th low-priority
  transaction id is \<open>1 + n mod 32767\<close> and the \<open>n\<close>-th high-priority one is \<open>32768 + n mod 32768\<close>, so the two kinds
  never meet and an id comes back only after all others of its kind. The \<open>n\<close>-th alarm of an entity without
  earlier alarms has the sequence number \<open>1 + n mod 255\<close>, never 0. Invalidating the MIB data sync changes it, and
  never to 0.
\<close>

theorem onu_counters:
  assumes "onu_tid o1 = 1" "onu_hpTid o1 = 0x8000" "map_of (onuAlarmsInfo o1) key = None" "1 \<le> r" "r \<le> 10"
  shows "(\<forall>i < length hps. fst (take_tids hps o1) ! i = of_nat
        (if hps ! i then high_tid (length (filter id (take i hps))) else low_tid (length (filter Not (take i hps)))))
     \<and> alarm_numbers key n o1 = map (\<lambda>i. of_nat (1 + i mod 255)) [0..<n]
     \<and> MibDataSync (InvalidateMibDataSync r o1) \<notin> {0, MibDataSync o1}"
proof -
  have "tids_at 0 0 o1" using assms by (simp add: tids_at_def low_tid_def high_tid_def)
  from take_tids_nth[OF this, of hps] show ?thesis
    using alarm_numbers_new[OF assms(3)] InvalidateMibDataSync_changes[OF assms(4,5)] by simp
qed

theorem onu_counters_witness:
  "fst (take_tids [False, True, False] sample_onu) ! 2 = 2
   \<and> alarm_numbers (pptp_key 257) 300 sample_onu = map (\<lambda>i. of_nat (1 + i mod 255)) [0..<300]
   \<and> MibDataSync (InvalidateMibDataSync 3 sample_onu) \<noteq> 0"
proof -
  have "onu_tid sample_onu = 1" "onu_hpTid sample_onu = 0x8000" "map_of (onuAlarmsInfo sample_onu) (pptp_key 257) = None"
    by (simp_all add: sample_onu_def)
  from onu_counters[OF this, of 3 "[False, True, False]" 300] show ?thesis
    by (auto simp: low_tid_def dest!: spec[of _ 2])
qed

end
