(* ===== verification/OnuOmci.thy ===== *)
theory OnuOmci
  imports OnuLife
begin

unbundle bit_operations_syntax

text \<open>
  OMCI requests on an ONU (\<open>onu.go\<close>: \<open>handleOmciRequest\<close>, \<open>handleEndSoftwareDownloadRequest\<close>,
  \<open>publishOmciEvent\<close>). Each branch of the switch over the message type is a definition; it gives the
  packet to answer with and the goroutines it starts, or the early return with an error. What the
  handler reads of its surroundings is the record \<open>omci_env\<close>: the serialiser and the decoder of
  \<open>omci-lib-go\<close>, the stream, the checksum of \<open>crc32a\<close>, the memory after the end of the image buffer
  up to its capacity, and whether events are published.
\<close>

section \<open>Definitions\<close>

record omci_env =
  oe_ser :: omci_serializer
  oe_decode :: "byte list \<Rightarrow> OMCI option"
  oe_stream :: stream
  oe_crc :: "byte list \<Rightarrow> uint32"
  oe_spare :: "byte list"
  oe_publish :: bool

datatype omci_async = RebootLater | SendTestResult "byte list"

datatype omci_outcome = Reply "byte list option" "omci_async list" | EarlyError

definition maxOmciMsgCounter :: uint8 where
  "maxOmciMsgCounter = 10"

definition count_omci :: "Onu \<Rightarrow> Onu" where
  "count_omci o1 = o1\<lparr>OmciMsgCounter := (if OmciMsgCounter o1 < maxOmciMsgCounter then OmciMsgCounter o1 + 1 else 1)\<rparr>"

definition bump_mds :: "onu_world \<Rightarrow> onu_world" where
  "bump_mds = on_onu (\<lambda>o1. o1\<lparr>MibDataSync := MibDataSync o1 + 1\<rparr>)"

text \<open>An answer that increments the MIB data sync if it could be created.\<close>

definition reply_mds :: "byte list option \<Rightarrow> onu_world \<Rightarrow> omci_outcome \<times> onu_world" where
  "reply_mds pkt w = (Reply pkt [], if pkt \<noteq> None then bump_mds w else w)"

text \<open>An event whose error is only logged.\<close>

definition onu_Event_logged :: "onu_event \<Rightarrow> onu_world \<Rightarrow> onu_world go" where
  "onu_Event_logged e w = go_bind (onu_Event e w) (\<lambda>(_, w'). Ret w')"

definition omci_mib_reset :: "omci_serializer \<Rightarrow> OMCI \<Rightarrow> onu_world \<Rightarrow> omci_outcome \<times> onu_world" where
  "omci_mib_reset ser m w =
     (let pkt = CreateMibResetResponse ser (TransactionID m) in
      (Reply pkt [], if pkt = None then w
        else on_pon (\<lambda>t. removeGemPortBySn (onu_SerialNumber (w_onu w)) (removeAllocIdsForOnuSn (onu_SerialNumber (w_onu w)) t))
               (on_onu (\<lambda>o1. o1\<lparr>MibDataSync := 0\<rparr>) w)))"

definition omci_get :: "omci_serializer \<Rightarrow> OMCI \<Rightarrow> (me_base \<times> uint16) option \<Rightarrow> onu_world \<Rightarrow> omci_outcome \<times> onu_world" where
  "omci_get ser m req w =
     (let o1 = w_onu w;
          im = \<lparr>im_active = ActiveImageEntityId o1, im_committed = CommittedImageEntityId o1, im_standbyVersion = StandbyImageVersion o1,
                im_activeVersion = ActiveImageVersion o1, im_committedVersion = CommittedImageVersion o1\<rparr>
      in (Reply (CreateGetResponse ser m req (onu_SerialNumber o1) (MibDataSync o1) im (AdminLockState o1 = 1)) [], w))"

definition set_uni_state :: "port_env \<Rightarrow> uint8 \<Rightarrow> nat \<Rightarrow> onu_world \<Rightarrow> onu_world go" where
  "set_uni_state env adminState i w =
     go_bind ((if adminState = 1 then uni_Disable env else uni_Enable env) (UniPorts (w_onu w) ! i, onu_Channel (w_onu w))) (\<lambda>(_, u, c).
     Ret (on_onu (\<lambda>o1. o1\<lparr>UniPorts := (UniPorts o1)[i := u], onu_Channel := c\<rparr>) w))"

definition set_pots_state :: "port_env \<Rightarrow> uint8 \<Rightarrow> nat \<Rightarrow> onu_world \<Rightarrow> onu_world go" where
  "set_pots_state env adminState i w =
     go_bind ((if adminState = 1 then pots_Disable env else pots_Enable env) (PotsPorts (w_onu w) ! i, onu_Channel (w_onu w))) (\<lambda>(_, p, c).
     Ret (on_onu (\<lambda>o1. o1\<lparr>PotsPorts := (PotsPorts o1)[i := p], onu_Channel := c\<rparr>) w))"

text \<open>A type assertion on an attribute, which panics when the attribute is not in the request.\<close>

definition asserted :: "'a option \<Rightarrow> 'a go" where
  "asserted v = (case v of None \<Rightarrow> Panic FailedTypeAssertion | Some x \<Rightarrow> Ret x)"

definition set_tcont :: "uint16 \<Rightarrow> uint16 \<Rightarrow> onu_world \<Rightarrow> bool \<times> onu_world" where
  "set_tcont allocId entityID w =
     (let o1 = w_onu w in
      if allocId = 255 \<or> allocId = 65535 then (True, on_pon (removeAllocId (onu_PonPortID o1) (onu_ID o1) entityID) w)
      else if fst (isAllocIdAllocated (w_pon w) (onu_PonPortID o1) (onu_ID o1) entityID) then (False, w)
      else (True, on_pon (pon_storeAllocId (onu_PonPortID o1) (onu_ID o1) entityID allocId (onu_SerialNumber o1)) w))"

definition set_entity :: "omci_env \<Rightarrow> SetRequest \<Rightarrow> onu_world \<Rightarrow> (bool \<times> onu_world) go" where
  "set_entity env r w =
     (let o1 = w_onu w; cls = EntityClass (set_base r); inst = EntityInstance (set_base r); penv = onu_port_env (oe_stream env) o1 in
      if cls = PptpEthernetUniClassID then
        (case FindUniByEntityId inst (UniPorts o1) of None \<Rightarrow> Ret (False, w)
         | Some i \<Rightarrow> go_bind (asserted (AdministrativeState r)) (\<lambda>a. go_bind (set_uni_state penv a i w) (\<lambda>w'. Ret (True, w'))))
      else if cls = PptpPotsUniClassID then
        (case FindPotsByEntityId inst (PotsPorts o1) of None \<Rightarrow> Ret (False, w)
         | Some i \<Rightarrow> go_bind (asserted (AdministrativeState r)) (\<lambda>a. go_bind (set_pots_state penv a i w) (\<lambda>w'. Ret (True, w'))))
      else if cls = OnuGClassID then
        go_bind (asserted (AdministrativeState r)) (\<lambda>a. Ret (True, on_onu (\<lambda>o1. o1\<lparr>AdminLockState := a\<rparr>) w))
      else if cls = TContClassID then
        go_bind (asserted (TCont_AllocId r)) (\<lambda>allocId.
        go_bind (asserted (ManagedEntityId r)) (\<lambda>entityID. Ret (set_tcont allocId entityID w)))
      else Ret (True, w))"

definition omci_set :: "omci_env \<Rightarrow> OMCI \<Rightarrow> SetRequest option \<Rightarrow> onu_world \<Rightarrow> (omci_outcome \<times> onu_world) go" where
  "omci_set env m req w =
     (case req of None \<Rightarrow> Panic NilDereference
      | Some r \<Rightarrow>
          go_bind (set_entity env r w) (\<lambda>(success, w1).
          Ret (if success then reply_mds (CreateSetResponse (oe_ser env) m req Success) w1
               else (Reply (CreateSetResponse (oe_ser env) m req AttributeFailure) [], w1))))"

text \<open>GEM port 4069 is reserved for multicast and shared.\<close>

definition omci_create :: "omci_serializer \<Rightarrow> OMCI \<Rightarrow> me_base option \<Rightarrow> onu_world \<Rightarrow> omci_outcome \<times> onu_world" where
  "omci_create ser m req w =
     (let gem = (case req of None \<Rightarrow> None
                 | Some b \<Rightarrow> if EntityClass b = GemPortNetworkCtpClassID \<and> EntityInstance b \<noteq> 4069 then Some (EntityInstance b) else None);
          used = (case gem of None \<Rightarrow> False | Some g \<Rightarrow> fst (isGemPortAllocated (w_pon w) g));
          w1 = (case gem of Some g \<Rightarrow> if used then w else on_pon (storeGemPort g (onu_SerialNumber (w_onu w))) w | None \<Rightarrow> w)
      in if \<not> used then reply_mds (CreateCreateResponse ser m req Success) w1
         else (Reply (CreateCreateResponse ser m req ProcessingError) [], w1))"

definition omci_delete :: "omci_serializer \<Rightarrow> OMCI \<Rightarrow> me_base option \<Rightarrow> onu_world \<Rightarrow> omci_outcome \<times> onu_world" where
  "omci_delete ser m req w =
     (let w1 = (case req of Some b \<Rightarrow> if EntityClass b = GemPortNetworkCtpClassID then on_pon (removeGemPort (EntityInstance b)) w else w
                | None \<Rightarrow> w)
      in reply_mds (CreateDeleteResponse ser m req) w1)"

definition omci_test :: "omci_serializer \<Rightarrow> OMCI \<Rightarrow> me_base option \<Rightarrow> onu_world \<Rightarrow> omci_outcome \<times> onu_world" where
  "omci_test ser m req w =
     (case (CreateTestResponse ser m req, req) of
        (Some pkt, Some b) \<Rightarrow>
          (Reply (Some pkt) (case CreateTestResult ser (EntityClass b) (EntityInstance b) (TransactionID m) of
             Some res \<Rightarrow> [SendTestResult res] | None \<Rightarrow> []), w)
      | _ \<Rightarrow> (Reply None [], w))"

subsection \<open>Software images\<close>

definition omci_start_download :: "omci_serializer \<Rightarrow> OMCI \<Rightarrow> StartSoftwareDownload option \<Rightarrow> onu_world \<Rightarrow> (omci_outcome \<times> onu_world) go" where
  "omci_start_download ser m req w =
     go_bind (ComputeDownloadSectionsCount req) (\<lambda>n.
     go_bind (CreateStartSoftwareDownloadResponse ser m req) (\<lambda>pkt.
     let w1 = on_onu (\<lambda>o1. o1\<lparr>ImageSoftwareReceivedSections := 0, ImageSectionData := [], ImageSoftwareExpectedSections := n\<rparr>) w in
     if pkt = None then Ret (Reply None [], w1)
     else go_bind (onu_Event_logged OnuTxStartImageDownload (bump_mds w1)) (\<lambda>w2. Ret (Reply pkt [], w2))))"

text \<open>The first 14 bytes of the first section are the version of the image.\<close>

definition store_section :: "byte list \<Rightarrow> Onu \<Rightarrow> Onu" where
  "store_section d o1 = o1\<lparr>ImageSectionData := ImageSectionData o1 @ d, ImageSoftwareReceivedSections := ImageSoftwareReceivedSections o1 + 1\<rparr>"

definition image_version :: "byte list \<Rightarrow> string" where
  "image_version d = map (\<lambda>b. char_of (unat b)) (take 14 d)"

definition omci_download_section :: "DownloadSection option \<Rightarrow> onu_world \<Rightarrow> (omci_outcome \<times> onu_world) go" where
  "omci_download_section req w =
     (case req of None \<Rightarrow> Ret (Reply None [], w)
      | Some r \<Rightarrow>
          let first = (ImageSoftwareReceivedSections (w_onu w) = 0) in
          if first \<and> length (SectionData r) < 14 then Panic IndexOutOfRange
          else
            let w1 = on_onu (\<lambda>o1. store_section (SectionData r)
                       (if first then o1\<lparr>InDownloadImageVersion := image_version (SectionData r)\<rparr> else o1)) w
            in go_bind (if onu_current w1 \<noteq> OnuStateImageDownloadInProgress then onu_Event_logged OnuTxProgressImageDownload w1 else Ret w1)
                 (\<lambda>w2. Ret (Reply None [], w2)))"

text \<open>With a response wanted, neither the version nor the state is updated.\<close>

definition omci_download_section_with_response ::
  "omci_serializer \<Rightarrow> OMCI \<Rightarrow> DownloadSection option \<Rightarrow> onu_world \<Rightarrow> omci_outcome \<times> onu_world" where
  "omci_download_section_with_response ser m req w =
     (case req of None \<Rightarrow> (Reply None [], w)
      | Some r \<Rightarrow>
          (case CreateDownloadSectionResponse ser m req of
             None \<Rightarrow> (EarlyError, on_onu (\<lambda>o1. o1\<lparr>ImageSectionData := ImageSectionData o1 @ SectionData r\<rparr>) w)
           | Some pkt \<Rightarrow> (Reply (Some pkt) [], on_onu (store_section (SectionData r)) w)))"

text \<open>\<open>data[:n]\<close>: a slice may be extended over the spare memory up to its capacity.\<close>

definition reslice :: "byte list \<Rightarrow> byte list \<Rightarrow> nat \<Rightarrow> byte list go" where
  "reslice xs spare n = (if n \<le> length xs + length spare then Ret (take n (xs @ spare)) else Panic IndexOutOfRange)"

text \<open>The checksum in network byte order.\<close>

definition swap_bytes :: "uint32 \<Rightarrow> uint32" where
  "swap_bytes x = push_bit 24 (x AND 0xFF) OR push_bit 8 (x AND 0xFF00) OR (drop_bit 8 x AND 0xFF00) OR drop_bit 24 x"

definition handleEndSoftwareDownloadRequest :: "omci_env \<Rightarrow> EndSoftwareDownload option \<Rightarrow> Onu \<Rightarrow> (bool \<times> Onu) go" where
  "handleEndSoftwareDownloadRequest env req o1 =
     (case req of None \<Rightarrow> Ret (False, o1)
      | Some r \<Rightarrow>
          if ImageSoftwareReceivedSections o1 > 0 \<and> esd_ImageSize r = 0 \<and> CRC32 r = 4294967295
          then Ret (True, o1\<lparr>ImageSoftwareReceivedSections := 0\<rparr>)
          else if ImageSoftwareExpectedSections o1 \<noteq> ImageSoftwareReceivedSections o1 then Ret (False, o1)
          else go_bind (reslice (ImageSectionData o1) (oe_spare env) (unat (esd_ImageSize r))) (\<lambda>image.
            if CRC32 r \<noteq> swap_bytes (oe_crc env image) then Ret (False, o1)
            else Ret (True, o1\<lparr>StandbyImageVersion := InDownloadImageVersion o1\<rparr>)))"

definition omci_end_download :: "omci_env \<Rightarrow> OMCI \<Rightarrow> EndSoftwareDownload option \<Rightarrow> onu_world \<Rightarrow> (omci_outcome \<times> onu_world) go" where
  "omci_end_download env m req w =
     go_bind (handleEndSoftwareDownloadRequest env req (w_onu w)) (\<lambda>(success, o1).
     let w1 = w\<lparr>w_onu := o1\<rparr>;
         pkt = CreateEndSoftwareDownloadResponse (oe_ser env) m req (if success then Success else ProcessingError) in
     if pkt = None then Ret (Reply None [], w1)
     else go_bind (if success then onu_Event_logged OnuTxCompleteImageDownload (bump_mds w1)
                   else onu_Event_logged OnuTxFailImageDownload w1) (\<lambda>w2. Ret (Reply pkt [], w2)))"

definition omci_activate :: "omci_serializer \<Rightarrow> OMCI \<Rightarrow> me_base option \<Rightarrow> onu_world \<Rightarrow> (omci_outcome \<times> onu_world) go" where
  "omci_activate ser m req w =
     (case CreateActivateSoftwareResponse ser m req of None \<Rightarrow> Ret (Reply None [], w)
      | Some pkt \<Rightarrow>
          go_bind (onu_Event_logged OnuTxActivateImage (bump_mds w)) (\<lambda>w1.
          let w2 = (case req of Some b \<Rightarrow> on_onu (\<lambda>o1. o1\<lparr>ActiveImageEntityId := EntityInstance b,
                        ActiveImageVersion := StandbyImageVersion o1, StandbyImageVersion := ActiveImageVersion o1\<rparr>) w1
                    | None \<Rightarrow> w1)
          in Ret (Reply (Some pkt) [RebootLater], w2)))"

definition omci_commit :: "omci_serializer \<Rightarrow> OMCI \<Rightarrow> me_base option \<Rightarrow> onu_world \<Rightarrow> (omci_outcome \<times> onu_world) go" where
  "omci_commit ser m req w =
     (case CreateCommitSoftwareResponse ser m req of None \<Rightarrow> Ret (Reply None [], w)
      | Some pkt \<Rightarrow>
          let w1 = bump_mds w;
              w2 = (case req of Some b \<Rightarrow> on_onu (\<lambda>o1. o1\<lparr>ActiveImageEntityId := EntityInstance b, CommittedImageEntityId := EntityInstance b,
                        StandbyImageVersion := CommittedImageVersion o1, CommittedImageVersion := ActiveImageVersion o1\<rparr>) w1
                    | None \<Rightarrow> w1)
          in go_bind (onu_Event_logged OnuTxCommitImage w2) (\<lambda>w3. Ret (Reply (Some pkt) [], w3)))"

subsection \<open>The handler\<close>

definition omci_all_alarms :: "omci_serializer \<Rightarrow> OMCI \<Rightarrow> onu_world \<Rightarrow> omci_outcome \<times> onu_world" where
  "omci_all_alarms ser m w =
     (let alarms = map (\<lambda>(k, a). (k, a\<lparr>SequenceNo := 0\<rparr>)) (onuAlarmsInfo (w_onu w)) in
      (Reply (CreateGetAllAlarmsResponse ser m alarms) [], on_onu (\<lambda>o1. o1\<lparr>onuAlarmsInfo := alarms\<rparr>) w))"

definition omci_branch :: "omci_env \<Rightarrow> OMCI \<Rightarrow> onu_world \<Rightarrow> (omci_outcome \<times> onu_world) go" where
  "omci_branch env m w =
     (let ser = oe_ser env in
      case Request m of
        MibResetRequest \<Rightarrow> Ret (omci_mib_reset ser m w)
      | MibUploadRequest \<Rightarrow> Ret (Reply (CreateMibUploadResponse ser m (onu_MibDb (w_onu w))) [], w)
      | MibUploadNextRequest sq \<Rightarrow> go_bind (CreateMibUploadNextResponse ser m sq (onu_MibDb (w_onu w))) (\<lambda>pkt. Ret (Reply pkt [], w))
      | GetRequest req \<Rightarrow> Ret (omci_get ser m req w)
      | SetRequestMsg req \<Rightarrow> omci_set env m req w
      | CreateRequest req \<Rightarrow> Ret (omci_create ser m req w)
      | DeleteRequest req \<Rightarrow> Ret (omci_delete ser m req w)
      | RebootRequest req \<Rightarrow> Ret (Reply (CreateRebootResponse ser m req) [RebootLater], w)
      | TestRequest req \<Rightarrow> Ret (omci_test ser m req w)
      | SynchronizeTimeRequest req \<Rightarrow> Ret (Reply (CreateSyncTimeResponse ser m req) [], w)
      | StartSoftwareDownloadRequest req \<Rightarrow> omci_start_download ser m req w
      | DownloadSectionRequest req \<Rightarrow> omci_download_section req w
      | DownloadSectionRequestWithResponse req \<Rightarrow> Ret (omci_download_section_with_response ser m req w)
      | EndSoftwareDownloadRequest req \<Rightarrow> omci_end_download env m req w
      | ActivateSoftwareRequest req \<Rightarrow> omci_activate ser m req w
      | CommitSoftwareRequest req \<Rightarrow> omci_commit ser m req w
      | GetAllAlarmsRequest \<Rightarrow> Ret (omci_all_alarms ser m w)
      | GetAllAlarmsNextRequest sq \<Rightarrow> Ret (Reply (CreateGetAllAlarmsNextResponse ser m sq (onuAlarmsInfo (w_onu w))) [], w)
      | UnsupportedRequest \<Rightarrow> Ret (Reply None [], w))"

text \<open>The event of \<open>publishOmciEvent\<close>, from the bytes of the packet.\<close>

definition count_upload :: "omci_request \<Rightarrow> Onu \<Rightarrow> string option \<times> Onu" where
  "count_upload r o1 =
     (case r of
        MibUploadRequest \<Rightarrow> (Some ''MIB-upload-received'', o1\<lparr>onu_seqNumber := 0\<rparr>)
      | MibUploadNextRequest _ \<Rightarrow>
          (let n = onu_seqNumber o1 + 1 in (if n > 290 then Some ''MIB-upload-done'' else None, o1\<lparr>onu_seqNumber := n\<rparr>))
      | _ \<Rightarrow> (None, o1))"

definition publishOmciEvent :: "omci_env \<Rightarrow> byte list \<Rightarrow> Onu \<Rightarrow> (string option \<times> Onu) go" where
  "publishOmciEvent env bytes o1 =
     (if \<not> oe_publish env then Ret (None, o1)
      else go_bind (ParseOpenOltOmciPacket (oe_decode env) bytes) (\<lambda>res.
        Ret (case res of Inl _ \<Rightarrow> (None, o1) | Inr m \<Rightarrow> count_upload (Request m) o1)))"

text \<open>The result is \<open>False\<close> for an error; the goroutines that were started come with it.\<close>

definition handleOmciRequest :: "omci_env \<Rightarrow> OMCI \<Rightarrow> byte list \<Rightarrow> onu_world \<Rightarrow> (bool \<times> omci_async list \<times> onu_world) go" where
  "handleOmciRequest env m bytes w =
     (let w1 = on_onu count_omci w in
      if OmciMsgCounter (w_onu w1) > OmciResponseRate (w_onu w1) then Ret (False, [], w1)
      else go_bind (omci_branch env m w1) (\<lambda>(out, w2).
        case out of EarlyError \<Rightarrow> Ret (False, [], w2)
        | Reply pkt later \<Rightarrow>
            let w3 = (case pkt of Some p \<Rightarrow> snd (sendOmciIndication (oe_stream env) p w2) | None \<Rightarrow> w2) in
            go_bind (publishOmciEvent env bytes (w_onu w3)) (\<lambda>(_, o1). Ret (True, later, w3\<lparr>w_onu := o1\<rparr>))))"

text \<open>What a goroutine that the handler started does when its delay is over.\<close>

definition omci_later :: "omci_env \<Rightarrow> bool \<Rightarrow> omci_async \<Rightarrow> onu_world \<Rightarrow> onu_world go" where
  "omci_later env oltDeleted a w =
     (case a of RebootLater \<Rightarrow> go_bind (onu_Reboot oltDeleted w) (\<lambda>(_, w'). Ret w')
      | SendTestResult pkt \<Rightarrow> Ret (snd (sendOmciIndication (oe_stream env) pkt w)))"

section \<open>What the branches keep\<close>

definition image_events :: "onu_event set" where
  "image_events = {OnuTxStartImageDownload, OnuTxProgressImageDownload, OnuTxCompleteImageDownload, OnuTxFailImageDownload,
     OnuTxActivateImage, OnuTxCommitImage}"

text \<open>The events of software images have no callback; they move the machine or do nothing.\<close>

definition moved :: "onu_event \<Rightarrow> onu_world \<Rightarrow> onu_world" where
  "moved e w = (case map_of (transitions new_onu_state) (e, onu_current w) of None \<Rightarrow> w
     | Some d \<Rightarrow> on_onu (\<lambda>o1. o1\<lparr>onu_InternalState := SetState d (onu_InternalState o1)\<rparr>) w)"

lemma image_next:
  "map_of (transitions new_onu_state) (e, s) = Some d \<Longrightarrow> e \<in> image_events \<Longrightarrow>
   d \<noteq> s \<and> d \<notin> {OnuStateInitialized, OnuStateDiscovered, OnuStateEnabled, OnuStateDisabled, OnuStatePonDisabled,
      BbrOnuStateEapolFlowSent, BbrOnuStateDhcpFlowSent}"
  by (cases e; simp add: onu_next image_events_def split: if_split_asm) auto

lemma onu_Event_image:
  assumes "transitions (onu_InternalState (w_onu w)) = transitions new_onu_state" "e \<in> image_events"
  shows "onu_Event_logged e w = Ret (moved e w)"
proof (cases "map_of (transitions new_onu_state) (e, onu_current w)")
  case None
  then show ?thesis using onu_Event_rejected[OF assms(1) None] by (auto simp: onu_Event_logged_def moved_def)
next
  case (Some d)
  note image_next[OF Some assms(2)]
  then show ?thesis
    using onu_Event_step[OF assms(1) Some] by (cases d) (simp_all add: onu_Event_logged_def moved_def Some enter_onu_def onu_put_def)
qed

lemma moved_keeps [simp]:
  "OmciMsgCounter (w_onu (moved e w)) = OmciMsgCounter (w_onu w)" "OmciResponseRate (w_onu (moved e w)) = OmciResponseRate (w_onu w)"
  "transitions (onu_InternalState (w_onu (moved e w))) = transitions (onu_InternalState (w_onu w))"
  "w_pon (moved e w) = w_pon w" "w_olt (moved e w) = w_olt w" "w_sent (moved e w) = w_sent w"
  by (simp_all add: moved_def split: option.splits)

text \<open>What no branch changes: the rate, the counter of messages and the table of the machine.\<close>

definition omci_frame :: "onu_world \<Rightarrow> onu_world \<Rightarrow> bool" where
  "omci_frame w w' \<longleftrightarrow> OmciMsgCounter (w_onu w') = OmciMsgCounter (w_onu w) \<and> OmciResponseRate (w_onu w') = OmciResponseRate (w_onu w)
     \<and> transitions (onu_InternalState (w_onu w')) = transitions (onu_InternalState (w_onu w)) \<and> w_olt w' = w_olt w"

lemma omci_frame_refl [simp]: "omci_frame w w"
  by (simp add: omci_frame_def)

lemma omci_frame_on_onu:
  "(\<And>o1. OmciMsgCounter (f o1) = OmciMsgCounter o1 \<and> OmciResponseRate (f o1) = OmciResponseRate o1
        \<and> onu_InternalState (f o1) = onu_InternalState o1) \<Longrightarrow> omci_frame w (on_onu f w)"
  by (simp add: omci_frame_def)

lemma omci_frame_reply_mds [simp]: "omci_frame w (snd (reply_mds pkt w'))  \<longleftrightarrow> omci_frame w w'"
  by (auto simp: reply_mds_def bump_mds_def omci_frame_def)

lemma omci_frame_on_pon [simp]: "omci_frame w (on_pon g w') \<longleftrightarrow> omci_frame w w'"
  by (simp add: omci_frame_def)

lemma set_entity_frame:
  "set_entity env r w = Ret (ok, w') \<Longrightarrow> omci_frame w w'"
  by (auto simp: set_entity_def Let_def go_simps asserted_def set_uni_state_def set_pots_state_def set_tcont_def
      omci_frame_on_onu split: if_splits option.splits)

lemma omci_frame_bump_mds [simp]: "omci_frame w (bump_mds w') \<longleftrightarrow> omci_frame w w'"
  by (auto simp: bump_mds_def omci_frame_def)

lemma omci_frame_moved [simp]: "omci_frame w (moved e w') \<longleftrightarrow> omci_frame w w'"
  by (simp add: omci_frame_def)

lemma pure_branches_frame [simp]:
  "omci_frame w (snd (omci_mib_reset ser m w))" "omci_frame w (snd (omci_get ser m g w))"
  "omci_frame w (snd (omci_create ser m b w))" "omci_frame w (snd (omci_delete ser m b w))"
  "omci_frame w (snd (omci_test ser m b w))" "omci_frame w (snd (omci_download_section_with_response ser m d w))"
  "omci_frame w (snd (omci_all_alarms ser m w))"
  by (simp_all add: omci_mib_reset_def omci_get_def omci_create_def omci_delete_def omci_test_def omci_all_alarms_def
      omci_download_section_with_response_def Let_def omci_frame_on_onu store_section_def split: option.splits)

lemma bump_mds_InternalState [simp]: "onu_InternalState (w_onu (bump_mds w)) = onu_InternalState (w_onu w)"
  by (simp add: bump_mds_def)

lemma handleEnd_keeps:
  "handleEndSoftwareDownloadRequest env req o1 = Ret (ok, o2) \<Longrightarrow>
   OmciMsgCounter o2 = OmciMsgCounter o1 \<and> OmciResponseRate o2 = OmciResponseRate o1 \<and> onu_InternalState o2 = onu_InternalState o1"
  by (auto simp: handleEndSoftwareDownloadRequest_def go_simps split: option.splits if_splits)

lemma image_branches_frame:
  assumes "transitions (onu_InternalState (w_onu w)) = transitions new_onu_state"
  shows "omci_start_download ser m r1 w = Ret (out, w') \<Longrightarrow> omci_frame w w'"
    and "omci_download_section r2 w = Ret (out, w') \<Longrightarrow> omci_frame w w'"
    and "omci_end_download env m r3 w = Ret (out, w') \<Longrightarrow> omci_frame w w'"
    and "omci_activate ser m r4 w = Ret (out, w') \<Longrightarrow> omci_frame w w'"
    and "omci_commit ser m r4 w = Ret (out, w') \<Longrightarrow> omci_frame w w'"
  subgoal using assms by (simp add: omci_start_download_def Let_def go_simps split: if_splits)
      (auto simp: onu_Event_image image_events_def omci_frame_on_onu)
  subgoal using assms by (simp add: omci_download_section_def Let_def go_simps split: option.splits if_splits)
      (auto simp: onu_Event_image image_events_def store_section_def omci_frame_on_onu)
  subgoal using assms by (simp add: omci_end_download_def Let_def go_simps split_beta split: if_splits)
      (auto simp: onu_Event_image image_events_def omci_frame_def bump_mds_def dest!: handleEnd_keeps)
  subgoal using assms by (simp add: omci_activate_def Let_def go_simps split: option.splits)
      (auto simp: onu_Event_image image_events_def omci_frame_def bump_mds_def)
  subgoal using assms by (simp add: omci_commit_def Let_def go_simps split: option.splits)
      (auto simp: onu_Event_image image_events_def omci_frame_def bump_mds_def)
  done

lemma omci_set_frame: "omci_set env m req w = Ret (out, w') \<Longrightarrow> omci_frame w w'"
  by (auto simp: omci_set_def go_simps reply_mds_def split: option.splits if_splits dest!: set_entity_frame)

lemmas pure_frames = pure_branches_frame[THEN back_subst[of "omci_frame _"], OF arg_cong[of _ "(out, w')" snd], unfolded snd_conv] for out w'

lemma omci_branch_frame:
  assumes "omci_branch env m w = Ret (out, w')" "transitions (onu_InternalState (w_onu w)) = transitions new_onu_state"
  shows "omci_frame w w'"
  using assms(1)
  by (cases "Request m") (auto simp: omci_branch_def go_simps dest: pure_frames omci_set_frame image_branches_frame[OF assms(2)])

section \<open>Response rate\<close>

fun omci_requests :: "omci_env \<Rightarrow> (OMCI \<times> byte list) list \<Rightarrow> onu_world \<Rightarrow> (bool list \<times> onu_world) go" where
  "omci_requests env [] w = Ret ([], w)"
| "omci_requests env ((m, bytes) # ms) w =
     go_bind (handleOmciRequest env m bytes w) (\<lambda>(ok, _, w1).
     go_bind (omci_requests env ms w1) (\<lambda>(oks, w2). Ret (ok # oks, w2)))"

lemma count_upload_keeps:
  "count_upload r o1 = (e, o2) \<Longrightarrow>
   OmciMsgCounter o2 = OmciMsgCounter o1 \<and> OmciResponseRate o2 = OmciResponseRate o1 \<and> onu_InternalState o2 = onu_InternalState o1"
  by (cases r) (auto simp: count_upload_def Let_def)

lemma publish_keeps:
  "publishOmciEvent env bytes o1 = Ret (e, o2) \<Longrightarrow>
   OmciMsgCounter o2 = OmciMsgCounter o1 \<and> OmciResponseRate o2 = OmciResponseRate o1 \<and> onu_InternalState o2 = onu_InternalState o1"
  by (cases "ParseOpenOltOmciPacket (oe_decode env) bytes")
     (auto simp: publishOmciEvent_def split: if_split_asm sum.split_asm dest: count_upload_keeps)

lemma sendOmci_keeps [simp]:
  "w_onu (snd (sendOmciIndication st p w)) = w_onu w" "w_pon (snd (sendOmciIndication st p w)) = w_pon w"
  "w_olt (snd (sendOmciIndication st p w)) = w_olt w"
  by (simp_all add: sendOmciIndication_def onu_Send_def Let_def split_beta)

lemma branch_early:
  "omci_branch env m w = Ret (EarlyError, w') \<Longrightarrow> \<exists>r. Request m = DownloadSectionRequestWithResponse r"
  by (cases "Request m")
     (auto simp: omci_branch_def omci_mib_reset_def omci_get_def omci_create_def omci_delete_def omci_test_def omci_all_alarms_def
       omci_set_def omci_start_download_def omci_download_section_def omci_end_download_def omci_activate_def omci_commit_def
       reply_mds_def Let_def go_simps split: option.splits if_splits)

lemma handle_step:
  assumes "handleOmciRequest env m bytes w = Ret (ok, later, w')" "transitions (onu_InternalState (w_onu w)) = transitions new_onu_state"
  shows "OmciMsgCounter (w_onu w') = OmciMsgCounter (count_omci (w_onu w)) \<and> OmciResponseRate (w_onu w') = OmciResponseRate (w_onu w)
     \<and> transitions (onu_InternalState (w_onu w')) = transitions new_onu_state
     \<and> (if OmciMsgCounter (count_omci (w_onu w)) > OmciResponseRate (w_onu w) then \<not> ok \<and> w' = on_onu count_omci w
        else ok \<or> (\<exists>r. Request m = DownloadSectionRequestWithResponse r))"
proof (cases "OmciMsgCounter (count_omci (w_onu w)) > OmciResponseRate (w_onu w)")
  case True
  then show ?thesis using assms by (auto simp: handleOmciRequest_def Let_def count_omci_def)
next
  case False
  then have "\<not> OmciMsgCounter (w_onu (on_onu count_omci w)) > OmciResponseRate (w_onu (on_onu count_omci w))" by (simp add: count_omci_def)
  then obtain out w2 where b: "omci_branch env m (on_onu count_omci w) = Ret (out, w2)"
      "(case out of EarlyError \<Rightarrow> Ret (False, [], w2)
        | Reply pkt later \<Rightarrow> let w3 = (case pkt of Some p \<Rightarrow> snd (sendOmciIndication (oe_stream env) p w2) | None \<Rightarrow> w2) in
            go_bind (publishOmciEvent env bytes (w_onu w3)) (\<lambda>(_, o1). Ret (True, later, w3\<lparr>w_onu := o1\<rparr>))) = Ret (ok, later, w')"
    using assms(1) by (auto simp: handleOmciRequest_def Let_def go_simps)
  have f: "omci_frame (on_onu count_omci w) w2" using omci_branch_frame[OF b(1)] assms(2) by (simp add: count_omci_def)
  show ?thesis
  proof (cases out)
    case EarlyError
    with b f False branch_early[of env m "on_onu count_omci w" w2] assms(2) show ?thesis by (auto simp: omci_frame_def count_omci_def)
  next
    case (Reply pkt l)
    with b(2) obtain e o1 where "publishOmciEvent env bytes (w_onu w2) = Ret (e, o1)" "ok" "w_onu w' = o1"
      by (auto simp: Let_def go_simps split: option.splits)
    with f False publish_keeps[of env bytes "w_onu w2" e o1] assms(2) show ?thesis by (auto simp: omci_frame_def count_omci_def)
  qed
qed

text \<open>The counter after \<open>n\<close> requests.\<close>

definition counter_after :: "nat \<Rightarrow> nat" where
  "counter_after n = (case n of 0 \<Rightarrow> 0 | Suc k \<Rightarrow> Suc (k mod 10))"

lemma count_omci_step:
  assumes "unat (OmciMsgCounter o1) = counter_after n"
  shows "unat (OmciMsgCounter (count_omci o1)) = counter_after (Suc n)"
proof -
  have "unat (OmciMsgCounter o1 + 1) = unat (OmciMsgCounter o1) + 1" if "unat (OmciMsgCounter o1) < 10"
    using that by (simp add: unat_word_ariths)
  then show ?thesis
    using assms by (auto simp: count_omci_def counter_after_def maxOmciMsgCounter_def word_less_nat_alt mod_Suc split: nat.splits)
qed

lemma omci_requests_rate:
  assumes "omci_requests env ms w = Ret (oks, w')" "transitions (onu_InternalState (w_onu w)) = transitions new_onu_state"
    "unat (OmciMsgCounter (w_onu w)) = counter_after n"
  shows "length oks = length ms \<and> (\<forall>i < length ms. if Suc ((n + i) mod 10) > unat (OmciResponseRate (w_onu w)) then \<not> oks ! i
           else oks ! i \<or> (\<exists>r. Request (fst (ms ! i)) = DownloadSectionRequestWithResponse r))"
  using assms
proof (induction ms arbitrary: w oks n)
  case (Cons mb ms)
  obtain m bytes where mb: "mb = (m, bytes)" by force
  with Cons.prems(1) obtain ok later w1 oks1 where h: "handleOmciRequest env m bytes w = Ret (ok, later, w1)"
    "omci_requests env ms w1 = Ret (oks1, w')" "oks = ok # oks1"
    by (auto simp: go_simps)
  note st = handle_step[OF h(1) Cons.prems(2)]
  have c: "unat (OmciMsgCounter (count_omci (w_onu w))) = counter_after (Suc n)" by (rule count_omci_step[OF Cons.prems(3)])
  have IH: "length oks1 = length ms \<and> (\<forall>i < length ms. if Suc ((Suc n + i) mod 10) > unat (OmciResponseRate (w_onu w)) then \<not> oks1 ! i
           else oks1 ! i \<or> (\<exists>r. Request (fst (ms ! i)) = DownloadSectionRequestWithResponse r))"
    using Cons.IH[OF h(2), of "Suc n"] st c by simp
  have first: "if Suc (n mod 10) > unat (OmciResponseRate (w_onu w)) then \<not> ok else ok \<or> (\<exists>r. Request m = DownloadSectionRequestWithResponse r)"
    using st c by (auto simp: word_less_nat_alt counter_after_def split: if_splits)
  have "if Suc ((n + i) mod 10) > unat (OmciResponseRate (w_onu w)) then \<not> oks ! i
           else oks ! i \<or> (\<exists>r. Request (fst ((mb # ms) ! i)) = DownloadSectionRequestWithResponse r)" if "i < Suc (length ms)" for i
    using that IH first by (cases i) (simp_all add: h(3) mb)
  moreover have "length oks = length (mb # ms)" using IH h(3) by simp
  ultimately show ?case unfolding length_Cons by blast
qed simp

text \<open>
  C17: the response rate. For an ONU whose message counter is 0, in every sequence of requests whose
  handling returns, the request number \<open>i\<close> is skipped exactly if \<open>1 + i mod 10\<close> exceeds the configured rate; so of
  every ten consecutive requests \<open>min rate 10\<close> are handled. A handled request returns an error only if it is a
  download section whose response could not be created.
\<close>

theorem omci_response_rate:
  assumes "omci_requests env ms w = Ret (oks, w')"
    and "transitions (onu_InternalState (w_onu w)) = transitions new_onu_state" "OmciMsgCounter (w_onu w) = 0"
  shows "length oks = length ms \<and> (\<forall>i < length ms. if Suc (i mod 10) > unat (OmciResponseRate (w_onu w)) then \<not> oks ! i
           else oks ! i \<or> (\<exists>r. Request (fst (ms ! i)) = DownloadSectionRequestWithResponse r))"
proof -
  have "unat (OmciMsgCounter (w_onu w)) = counter_after 0" by (simp add: assms(3) counter_after_def)
  from omci_requests_rate[OF assms(1,2) this] show ?thesis by simp
qed

definition sample_env :: omci_env where
  "sample_env = \<lparr>oe_ser = (\<lambda>tid ext r. Some (be16 tid)), oe_decode = (\<lambda>_. None), oe_stream = (\<lambda>_ _. True), oe_crc = (\<lambda>_. 0),
     oe_spare = [], oe_publish = False\<rparr>"

definition sample_request :: "omci_request \<Rightarrow> OMCI" where
  "sample_request r = \<lparr>TransactionID = 7, IsExtended = False, Request = r\<rparr>"

lemma sample_requests:
  assumes "transitions (onu_InternalState (w_onu w)) = transitions new_onu_state"
  shows "\<exists>oks w'. omci_requests sample_env (replicate n (sample_request MibUploadRequest, [])) w = Ret (oks, w')"
  using assms
proof (induction n arbitrary: w)
  case (Suc n)
  obtain ok l w1 where h: "handleOmciRequest sample_env (sample_request MibUploadRequest) [] w = Ret (ok, l, w1)"
    by (cases "OmciResponseRate (count_omci (w_onu w)) < OmciMsgCounter (count_omci (w_onu w))")
       (auto simp: handleOmciRequest_def omci_branch_def sample_request_def sample_env_def Let_def publishOmciEvent_def CreateMibUploadResponse_def)
  then have "transitions (onu_InternalState (w_onu w1)) = transitions new_onu_state" using handle_step Suc.prems by blast
  from Suc.IH[OF this] h show ?case by auto
qed simp

theorem omci_response_rate_witness:
  "\<exists>oks w'. omci_requests sample_env (replicate 20 (sample_request MibUploadRequest, []))
       (on_onu (\<lambda>o1. o1\<lparr>OmciResponseRate := 7\<rparr>) sample_world) = Ret (oks, w') \<and> oks ! 6 \<and> \<not> oks ! 7 \<and> \<not> oks ! 9 \<and> oks ! 10"
proof -
  let ?w = "on_onu (\<lambda>o1. o1\<lparr>OmciResponseRate := 7\<rparr>) sample_world"
  have w: "transitions (onu_InternalState (w_onu ?w)) = transitions new_onu_state" "OmciMsgCounter (w_onu ?w) = 0" "OmciResponseRate (w_onu ?w) = 7"
    by (simp_all add: sample_world_def sample_onu_def)
  obtain oks w' where r: "omci_requests sample_env (replicate 20 (sample_request MibUploadRequest, [])) ?w = Ret (oks, w')"
    using sample_requests[OF w(1)] by blast
  have "oks ! 6" "\<not> oks ! 7" "\<not> oks ! 9" "oks ! 10"
    using omci_response_rate[OF r w(1,2), THEN conjunct2, rule_format, of 6] omci_response_rate[OF r w(1,2), THEN conjunct2, rule_format, of 7]
      omci_response_rate[OF r w(1,2), THEN conjunct2, rule_format, of 9] omci_response_rate[OF r w(1,2), THEN conjunct2, rule_format, of 10]
    by (simp_all add: w(3) sample_request_def)
  with r show ?thesis by blast
qed

section \<open>GEM ports and T-CONTs\<close>

text \<open>
  C14: GEM ports over OMCI. A request to create a GEM port other than 4069 that is allocated on the PON, to whatever ONU, is
  refused with a processing error and changes nothing; one that is free becomes the ONU's own, with the MIB
  data sync incremented and every other GEM port as before. A MIB reset sets the data sync to 0 and frees exactly
  the GEM ports and alloc-ids of this ONU. But a delete frees the port whoever owns it.
\<close>

theorem omci_gem_ports:
  assumes "tables_ok (w_pon w)" "EntityClass b = GemPortNetworkCtpClassID" "EntityInstance b = g" "g \<noteq> 4069"
    and ser: "\<And>r. ser (TransactionID m) False r = Some (bytes r)"
  defines "owner \<equiv> map_of (AllocatedGemPorts (w_pon w)) g" and "sn \<equiv> onu_SerialNumber (w_onu w)"
  shows "(owner \<noteq> None \<longrightarrow> omci_create ser m (Some b) w = (Reply (Some (bytes (CreateResponse GemPortNetworkCtpClassID g ProcessingError))) [], w))
    \<and> (owner = None \<longrightarrow> (\<exists>w'. omci_create ser m (Some b) w = (Reply (Some (bytes (CreateResponse GemPortNetworkCtpClassID g Success))) [], w')
         \<and> map_of (AllocatedGemPorts (w_pon w')) = (map_of (AllocatedGemPorts (w_pon w)))(g \<mapsto> sn)
         \<and> MibDataSync (w_onu w') = MibDataSync (w_onu w) + 1))
    \<and> (\<exists>w'. omci_mib_reset ser m w = (Reply (Some (bytes MibResetResponse)) [], w') \<and> MibDataSync (w_onu w') = 0
         \<and> (\<forall>i v. map_of (AllocatedGemPorts (w_pon w')) i = Some v \<longleftrightarrow> map_of (AllocatedGemPorts (w_pon w)) i = Some v \<and> \<not> same_ref v sn)
         \<and> (\<forall>k v. map_of (AllocatedAllocIds (w_pon w')) k = Some v \<longleftrightarrow> map_of (AllocatedAllocIds (w_pon w)) k = Some v \<and> \<not> same_ref (OnuSn v) sn))
    \<and> (\<exists>w'. omci_delete ser m (Some b) w = (Reply (Some (bytes (DeleteResponse GemPortNetworkCtpClassID g))) [], w')
         \<and> map_of (AllocatedGemPorts (w_pon w')) = (map_of (AllocatedGemPorts (w_pon w)))(g := None))"
proof -
  note defs = omci_create_def omci_mib_reset_def omci_delete_def Let_def reply_mds_def bump_mds_def CreateCreateResponse_def
    CreateMibResetResponse_def CreateDeleteResponse_def isGemPortAllocated_def
  show ?thesis
    using assms(1-4) unfolding owner_def sn_def
    by (intro conjI impI) (auto simp: defs ser pon_table_defs go_maps tables_ok_def same_ref_def fun_eq_iff split: option.splits)
qed

theorem omci_gem_ports_witness:
  "\<exists>w'. omci_create (oe_ser sample_env) (sample_request MibUploadRequest) (Some \<lparr>EntityClass = 268, EntityInstance = 1025\<rparr>) sample_world
         = (Reply (Some (be16 7)) [], w')
      \<and> map_of (AllocatedGemPorts (w_pon w')) 1025 = Some (NewSN 1 0 0 1) \<and> map_of (AllocatedGemPorts (w_pon w')) 1024 = Some (NewSN 1 0 0 1)"
proof -
  have own: "map_of (AllocatedGemPorts (w_pon sample_world)) 1024 = Some (NewSN 1 0 0 1)" "map_of (AllocatedGemPorts (w_pon sample_world)) 1025 = None"
    "onu_SerialNumber (w_onu sample_world) = NewSN 1 0 0 1"
    by (simp_all add: sample_world_def sample_onu_def storeGemPort_def storeOnuId_def empty_tables_def go_maps)
  have "tables_ok (w_pon sample_world)" using sample_world_ok(1) by (simp add: world_ok_def)
  then show ?thesis
    using omci_gem_ports[of sample_world "\<lparr>EntityClass = 268, EntityInstance = 1025\<rparr>" 1025 "oe_ser sample_env"
        "sample_request MibUploadRequest" "\<lambda>_. be16 7"] own
    by (auto simp: class_ids sample_env_def sample_request_def)
qed

section \<open>Software download\<close>

lemma handle_unlimited:
  assumes "OmciResponseRate (w_onu w) \<ge> 10" "\<not> oe_publish env"
  shows "handleOmciRequest env m bytes w = go_bind (omci_branch env m (on_onu count_omci w)) (\<lambda>(out, w2).
        case out of EarlyError \<Rightarrow> Ret (False, [], w2)
        | Reply pkt later \<Rightarrow> Ret (True, later, case pkt of Some p \<Rightarrow> snd (sendOmciIndication (oe_stream env) p w2) | None \<Rightarrow> w2))"
proof -
  have "unat (OmciMsgCounter (count_omci (w_onu w))) \<le> 10"
  proof (cases "unat (OmciMsgCounter (w_onu w)) < 10")
    case True
    then have "unat (OmciMsgCounter (w_onu w) + 1) = unat (OmciMsgCounter (w_onu w)) + 1" by (simp add: unat_word_ariths)
    with True show ?thesis by (simp add: count_omci_def maxOmciMsgCounter_def word_less_nat_alt)
  qed (simp add: count_omci_def maxOmciMsgCounter_def word_less_nat_alt)
  then have "\<not> OmciMsgCounter (count_omci (w_onu w)) > OmciResponseRate (count_omci (w_onu w))"
    using assms(1) by (simp add: word_less_nat_alt word_le_nat_alt count_omci_def)
  then show ?thesis
    using assms(2) by (auto simp: handleOmciRequest_def Let_def publishOmciEvent_def intro!: go_bind_cong split: omci_outcome.splits)
qed

text \<open>
  An ONU that has been sent \<open>k\<close> of \<open>n\<close> sections with the data \<open>d\<close>: \<open>ver\<close> is the version seen so far, and \<open>started\<close> is
  whether a section without response has moved the machine on.
\<close>

definition receiving :: "nat \<Rightarrow> byte list \<Rightarrow> string \<Rightarrow> bool \<Rightarrow> uint32 \<Rightarrow> uint8 \<Rightarrow> onu_world \<Rightarrow> bool" where
  "receiving k d ver progress n mds w \<longleftrightarrow>
     transitions (onu_InternalState (w_onu w)) = transitions new_onu_state \<and> OmciResponseRate (w_onu w) \<ge> 10
   \<and> ImageSoftwareReceivedSections (w_onu w) = of_nat k \<and> ImageSectionData (w_onu w) = d \<and> InDownloadImageVersion (w_onu w) = ver
   \<and> onu_current w = (if progress then OnuStateImageDownloadInProgress else OnuStateImageDownloadStarted)
   \<and> ImageSoftwareExpectedSections (w_onu w) = n \<and> MibDataSync (w_onu w) = mds"

text \<open>A section, and whether its request asks for a response.\<close>

definition section_request :: "uint16 \<Rightarrow> bool \<Rightarrow> bool \<times> DownloadSection \<Rightarrow> OMCI" where
  "section_request tid ext s = \<lparr>TransactionID = tid, IsExtended = ext,
     Request = (if fst s then DownloadSectionRequestWithResponse (Some (snd s)) else DownloadSectionRequest (Some (snd s)))\<rparr>"

lemma receiving_count [simp]: "receiving k d ver prg n mds (on_onu count_omci w) \<longleftrightarrow> receiving k d ver prg n mds w"
  by (simp add: receiving_def count_omci_def onu_current_def)

lemma receiving_sent [simp]: "receiving k d ver prg n mds (snd (sendOmciIndication st p w)) \<longleftrightarrow> receiving k d ver prg n mds w"
  by (simp add: receiving_def onu_current_def)

lemma section_step:
  assumes r: "receiving k d ver prg n mds w" and env: "\<not> oe_publish env" "\<And>t e r. oe_ser env t e r \<noteq> None"
    and k: "k < 2 ^ 32" "k = 0 \<Longrightarrow> \<not> fst s \<Longrightarrow> length (SectionData (snd s)) \<ge> 14"
  shows "\<exists>w'. handleOmciRequest env (section_request tid ext s) bytes w = Ret (True, [], w')
     \<and> receiving (Suc k) (d @ SectionData (snd s)) (if k = 0 \<and> \<not> fst s then image_version (SectionData (snd s)) else ver)
          (prg \<or> \<not> fst s) n mds w'"
proof -
  let ?w = "on_onu count_omci w"
  have r': "receiving k d ver prg n mds ?w" using r by simp
  have zero: "ImageSoftwareReceivedSections (w_onu ?w) = 0 \<longleftrightarrow> k = 0" using r' k(1) by (simp add: receiving_def word_of_nat_eq_0_iff) (metis mod_less dvd_eq_mod_eq_0)
  have h: "handleOmciRequest env (section_request tid ext s) bytes w = Ret (True, [], case pkt of Some p \<Rightarrow> snd (sendOmciIndication (oe_stream env) p w2) | None \<Rightarrow> w2)"
    if "omci_branch env (section_request tid ext s) ?w = Ret (Reply pkt [], w2)" for pkt w2
    using handle_unlimited[OF _ env(1), of w] r that by (simp add: receiving_def)
  show ?thesis
  proof (cases "fst s")
    case True
    obtain pkt where "CreateDownloadSectionResponse (oe_ser env) (section_request tid ext s) (Some (snd s)) = Some pkt"
      using env(2) by (fastforce simp: CreateDownloadSectionResponse_def)
    then have "omci_branch env (section_request tid ext s) ?w = Ret (Reply (Some pkt) [], on_onu (store_section (SectionData (snd s))) ?w)"
      using True by (simp add: omci_branch_def section_request_def omci_download_section_with_response_def)
    from h[OF this] show ?thesis using r' True by (simp add: receiving_def onu_current_def store_section_def count_omci_def)
  next
    case False
    define w1 where "w1 = on_onu (\<lambda>o1. store_section (SectionData (snd s))
           (if k = 0 then o1\<lparr>InDownloadImageVersion := image_version (SectionData (snd s))\<rparr> else o1)) ?w"
    define w2 where "w2 = (if prg then w1 else moved OnuTxProgressImageDownload w1)"
    have w1: "receiving (Suc k) (d @ SectionData (snd s)) (if k = 0 then image_version (SectionData (snd s)) else ver) prg n mds w1"
      using r' by (auto simp: receiving_def w1_def onu_current_def store_section_def)
    have "omci_branch env (section_request tid ext s) ?w = Ret (Reply None [], w2)"
      using False k(2) zero w1 by (auto simp: omci_branch_def section_request_def omci_download_section_def Let_def w2_def onu_Event_image
          image_events_def receiving_def simp flip: w1_def)
    moreover have "receiving (Suc k) (d @ SectionData (snd s)) (if k = 0 then image_version (SectionData (snd s)) else ver) True n mds w2"
      using w1 by (auto simp: w2_def receiving_def moved_def onu_next onu_current_def)
    ultimately show ?thesis using h[of None w2] False by simp
  qed
qed

definition section_data :: "(bool \<times> DownloadSection) list \<Rightarrow> byte list" where
  "section_data secs = concat (map (\<lambda>s. SectionData (snd s)) secs)"

lemma sections_run:
  assumes "receiving k d ver prg n mds w" and env: "\<not> oe_publish env" "\<And>t e r. oe_ser env t e r \<noteq> None"
    and "k + length secs \<le> 2 ^ 32 - 1" "k = 0 \<Longrightarrow> secs \<noteq> [] \<Longrightarrow> \<not> fst (hd secs) \<Longrightarrow> length (SectionData (snd (hd secs))) \<ge> 14"
  shows "\<exists>w'. omci_requests env (map (\<lambda>s. (section_request tid ext s, bytes)) secs) w = Ret (replicate (length secs) True, w')
     \<and> receiving (k + length secs) (d @ section_data secs)
          (if k = 0 \<and> secs \<noteq> [] \<and> \<not> fst (hd secs) then image_version (SectionData (snd (hd secs))) else ver)
          (prg \<or> (\<exists>s \<in> set secs. \<not> fst s)) n mds w'"
  using assms(1,4,5)
proof (induction secs arbitrary: k d ver prg w)
  case Nil
  then show ?case by (simp add: section_data_def)
next
  case (Cons s secs)
  let ?ver = "if k = 0 \<and> \<not> fst s then image_version (SectionData (snd s)) else ver"
  obtain w1 where w1: "handleOmciRequest env (section_request tid ext s) bytes w = Ret (True, [], w1)"
    "receiving (Suc k) (d @ SectionData (snd s)) ?ver (prg \<or> \<not> fst s) n mds w1"
    using section_step[OF Cons.prems(1) env, of s tid ext bytes] Cons.prems(2,3) by auto
  obtain w2 where "omci_requests env (map (\<lambda>s. (section_request tid ext s, bytes)) secs) w1 = Ret (replicate (length secs) True, w2)"
    "receiving (Suc k + length secs) ((d @ SectionData (snd s)) @ section_data secs) ?ver
          ((prg \<or> \<not> fst s) \<or> (\<exists>s \<in> set secs. \<not> fst s)) n mds w2"
    using Cons.IH[OF w1(2)] Cons.prems(2) by auto
  with w1(1) show ?case by (auto simp: section_data_def)
qed

definition start_request :: "uint16 \<Rightarrow> StartSoftwareDownload \<Rightarrow> OMCI" where
  "start_request tid r = \<lparr>TransactionID = tid, IsExtended = ssd_Extended r, Request = StartSoftwareDownloadRequest (Some r)\<rparr>"

definition end_request :: "uint16 \<Rightarrow> bool \<Rightarrow> EndSoftwareDownload \<Rightarrow> OMCI" where
  "end_request tid ext r = \<lparr>TransactionID = tid, IsExtended = ext, Request = EndSoftwareDownloadRequest (Some r)\<rparr>"

definition download_sources :: "onu_state set" where
  "download_sources = {OnuStateEnabled, OnuStateImageDownloadComplete, OnuStateImageDownloadError, OnuStateImageCommitted}"

lemma start_step:
  assumes "transitions (onu_InternalState (w_onu w)) = transitions new_onu_state" "OmciResponseRate (w_onu w) \<ge> 10"
    "onu_current w \<in> download_sources" and env: "\<not> oe_publish env" "\<And>t e r. oe_ser env t e r \<noteq> None"
    and n: "ComputeDownloadSectionsCount (Some r) = Ret n"
  shows "\<exists>w'. handleOmciRequest env (start_request tid r) bytes w = Ret (True, [], w')
     \<and> receiving 0 [] (InDownloadImageVersion (w_onu w)) False n (MibDataSync (w_onu w) + 1) w'"
proof -
  let ?w = "on_onu count_omci w"
  define w1 where "w1 = on_onu (\<lambda>o1. o1\<lparr>ImageSoftwareReceivedSections := 0, ImageSectionData := [], ImageSoftwareExpectedSections := n\<rparr>) ?w"
  define w2 where "w2 = moved OnuTxStartImageDownload (bump_mds w1)"
  obtain pkt where pkt: "CreateStartSoftwareDownloadResponse (oe_ser env) (start_request tid r) (Some r) = Ret (Some pkt)"
    using env(2) by (fastforce simp: CreateStartSoftwareDownloadResponse_def)
  have "onu_Event_logged OnuTxStartImageDownload (bump_mds w1) = Ret w2"
    unfolding w2_def using assms(1) by (intro onu_Event_image) (simp_all add: image_events_def w1_def count_omci_def)
  then have b: "omci_branch env (start_request tid r) ?w = Ret (Reply (Some pkt) [], w2)"
    using n pkt by (simp add: omci_branch_def start_request_def omci_start_download_def Let_def flip: w1_def)
  have "receiving 0 [] (InDownloadImageVersion (w_onu w)) False n (MibDataSync (w_onu w) + 1) w2"
    using assms(1-3) by (auto simp: w2_def w1_def receiving_def moved_def onu_next bump_mds_def onu_current_def count_omci_def download_sources_def)
  then show ?thesis using handle_unlimited[OF assms(2) env(1), of "start_request tid r" bytes] b by simp
qed

lemma end_step:
  assumes r: "receiving k d ver prg (of_nat k) mds w" and env: "\<not> oe_publish env" "\<And>t e r. oe_ser env t e r \<noteq> None" "oe_stream env = reliable"
    and size: "0 < esd_ImageSize e" "unat (esd_ImageSize e) \<le> length d"
    and crc: "CRC32 e = swap_bytes (oe_crc env (take (unat (esd_ImageSize e)) d))"
  shows "\<exists>w' p. handleOmciRequest env (end_request tid ext e) bytes w = Ret (True, [], w')
     \<and> oe_ser env tid ext (EndSoftwareDownloadResponse (EntityClass (esd_base e)) (EntityInstance (esd_base e)) Success) = Some p
     \<and> w_sent w' = w_sent w @ [OmciInd (onu_PonPortID (w_onu w')) (onu_ID (w_onu w')) p]
     \<and> StandbyImageVersion (w_onu w') = ver \<and> MibDataSync (w_onu w') = mds + 1
     \<and> onu_current w' = (if prg then OnuStateImageDownloadComplete else OnuStateImageDownloadStarted)"
proof -
  let ?w = "on_onu count_omci w"
  define w1 where "w1 = on_onu (\<lambda>o1. o1\<lparr>StandbyImageVersion := ver\<rparr>) ?w"
  define w2 where "w2 = moved OnuTxCompleteImageDownload (bump_mds w1)"
  obtain p where p: "oe_ser env tid ext (EndSoftwareDownloadResponse (EntityClass (esd_base e)) (EntityInstance (esd_base e)) Success) = Some p"
    using env(2) by fastforce
  have "handleEndSoftwareDownloadRequest env (Some e) (w_onu ?w) = Ret (True, w_onu w1)"
  proof -
    have "ImageSoftwareExpectedSections (w_onu ?w) = ImageSoftwareReceivedSections (w_onu ?w)" "esd_ImageSize e \<noteq> 0"
      "ImageSectionData (w_onu ?w) = d" "InDownloadImageVersion (w_onu ?w) = ver"
      using r size(1) by (auto simp: receiving_def count_omci_def)
    moreover have "reslice d (oe_spare env) (unat (esd_ImageSize e)) = Ret (take (unat (esd_ImageSize e)) d)"
      using size(2) by (simp add: reslice_def)
    ultimately show ?thesis by (simp only: handleEndSoftwareDownloadRequest_def option.case simp_thms if_False go_bind.simps crc) (simp add: w1_def)
  qed
  moreover have "onu_Event_logged OnuTxCompleteImageDownload (bump_mds w1) = Ret w2"
    unfolding w2_def using r by (intro onu_Event_image) (simp_all add: image_events_def w1_def count_omci_def receiving_def)
  ultimately have b: "omci_branch env (end_request tid ext e) ?w = Ret (Reply (Some p) [], w2)"
    using p by (simp add: omci_branch_def end_request_def omci_end_download_def Let_def CreateEndSoftwareDownloadResponse_def)
      (simp add: w1_def on_onu_def)
  have "handleOmciRequest env (end_request tid ext e) bytes w = Ret (True, [], snd (sendOmciIndication (oe_stream env) p w2))"
    using handle_unlimited[OF _ env(1), of w "end_request tid ext e" bytes] b r by (simp add: receiving_def)
  then show ?thesis using r p
    by (intro exI[of _ "snd (sendOmciIndication (oe_stream env) p w2)"] exI[of _ p])
       (auto simp: w2_def w1_def receiving_def moved_def onu_next bump_mds_def onu_current_def count_omci_def sendOmciIndication_def onu_Send_def Send_def env(3) reliable_def Let_def)
qed

lemma omci_requests_append:
  "omci_requests env xs w = Ret (oks, w1) \<Longrightarrow> omci_requests env ys w1 = Ret (oks', w2) \<Longrightarrow>
   omci_requests env (xs @ ys) w = Ret (oks @ oks', w2)"
  by (induction xs arbitrary: w oks) (auto simp: go_simps)

text \<open>
  C13: downloading an image. From a state that accepts a download, on a reliable stream and with no rate limit,
  let the announced size need as many sections as are sent, each with or without a request for a response, and let the
  end request carry a size within the data and the checksum of that many bytes. Then all requests are handled, the
  end is answered with success, and the MIB data sync has grown by two. If some section was sent without a response request, the ONU
  is in the state of a complete download; if none was, as with a window of one section, it is still in the
  state of a started download, from which there is no other event. The standby version becomes the one in the
  first section only if that section did not ask for a response; otherwise it becomes the version of an earlier download.
\<close>

theorem omci_image_download:
  assumes "transitions (onu_InternalState (w_onu w)) = transitions new_onu_state" "OmciResponseRate (w_onu w) \<ge> 10"
    and "onu_current w \<in> download_sources"
    and env: "\<not> oe_publish env" "\<And>t e r. oe_ser env t e r \<noteq> None" "oe_stream env = reliable"
    and secs: "ComputeDownloadSectionsCount (Some r) = Ret (of_nat (length secs))" "secs \<noteq> []" "length secs \<le> 2 ^ 32 - 1"
      "\<not> fst (hd secs) \<longrightarrow> length (SectionData (snd (hd secs))) \<ge> 14"
    and size: "0 < esd_ImageSize e" "unat (esd_ImageSize e) \<le> length (section_data secs)"
    and crc: "CRC32 e = swap_bytes (oe_crc env (take (unat (esd_ImageSize e)) (section_data secs)))"
  shows "\<exists>w' sent p. omci_requests env ((start_request tid r, bytes) # map (\<lambda>s. (section_request tid ext s, bytes)) secs
             @ [(end_request tid ext e, bytes)]) w = Ret (replicate (length secs + 2) True, w')
     \<and> oe_ser env tid ext (EndSoftwareDownloadResponse (EntityClass (esd_base e)) (EntityInstance (esd_base e)) Success) = Some p
     \<and> w_sent w' = sent @ [OmciInd (onu_PonPortID (w_onu w')) (onu_ID (w_onu w')) p]
     \<and> MibDataSync (w_onu w') = MibDataSync (w_onu w) + 2
     \<and> onu_current w' = (if \<forall>s \<in> set secs. fst s then OnuStateImageDownloadStarted else OnuStateImageDownloadComplete)
     \<and> StandbyImageVersion (w_onu w') = (if fst (hd secs) then InDownloadImageVersion (w_onu w) else image_version (SectionData (snd (hd secs))))"
proof -
  let ?v = "InDownloadImageVersion (w_onu w)" and ?m = "MibDataSync (w_onu w) + 1" and ?n = "of_nat (length secs) :: uint32"
  obtain w1 where w1: "handleOmciRequest env (start_request tid r) bytes w = Ret (True, [], w1)" "receiving 0 [] ?v False ?n ?m w1"
    using start_step[OF assms(1-3) env(1,2) secs(1)] by blast
  obtain w2 where w2: "omci_requests env (map (\<lambda>s. (section_request tid ext s, bytes)) secs) w1 = Ret (replicate (length secs) True, w2)"
    "receiving (length secs) (section_data secs) (if fst (hd secs) then ?v else image_version (SectionData (snd (hd secs))))
       (\<exists>s \<in> set secs. \<not> fst s) ?n ?m w2"
    using sections_run[OF w1(2) env(1,2), of secs tid ext bytes] secs(2-4) by (cases "fst (hd secs)") auto
  obtain w' p where w': "handleOmciRequest env (end_request tid ext e) bytes w2 = Ret (True, [], w')"
    "oe_ser env tid ext (EndSoftwareDownloadResponse (EntityClass (esd_base e)) (EntityInstance (esd_base e)) Success) = Some p"
    "w_sent w' = w_sent w2 @ [OmciInd (onu_PonPortID (w_onu w')) (onu_ID (w_onu w')) p]"
    "StandbyImageVersion (w_onu w') = (if fst (hd secs) then ?v else image_version (SectionData (snd (hd secs))))"
    "MibDataSync (w_onu w') = ?m + 1"
    "onu_current w' = (if \<exists>s \<in> set secs. \<not> fst s then OnuStateImageDownloadComplete else OnuStateImageDownloadStarted)"
    using end_step[OF w2(2) env size crc, of tid ext bytes] by blast
  have "omci_requests env (map (\<lambda>s. (section_request tid ext s, bytes)) secs @ [(end_request tid ext e, bytes)]) w1
      = Ret (replicate (length secs) True @ [True], w')"
    by (rule omci_requests_append[OF w2(1)]) (simp add: w'(1))
  then have "omci_requests env ((start_request tid r, bytes) # map (\<lambda>s. (section_request tid ext s, bytes)) secs @ [(end_request tid ext e, bytes)]) w
      = Ret (replicate (length secs + 2) True, w')"
    by (simp add: w1(1) replicate_append_same)
  moreover have "?m + 1 = MibDataSync (w_onu w) + 2" by simp
  ultimately show ?thesis using w'(2-6) by (intro exI[of _ w'] exI[of _ "w_sent w2"] exI[of _ p]) auto
qed

text \<open>An image of 40 bytes in two sections.\<close>

definition sample_section :: DownloadSection where
  "sample_section = \<lparr>dls_base = \<lparr>EntityClass = 7, EntityInstance = 1\<rparr>, SectionNumber = 0, SectionData = map (of_char :: char \<Rightarrow> byte) ''IMG_v1.0.0_b14'' @ replicate 17 7\<rparr>"

theorem omci_image_download_witness:
  "\<exists>w'. omci_requests (sample_env\<lparr>oe_stream := reliable\<rparr>)
      ((start_request 7 \<lparr>ssd_base = \<lparr>EntityClass = 7, EntityInstance = 1\<rparr>, ssd_Extended = False, WindowSize = 1, ssd_ImageSize = 40\<rparr>, [])
       # map (\<lambda>s. (section_request 7 False s, [])) [(False, sample_section), (True, sample_section)]
       @ [(end_request 7 False \<lparr>esd_base = \<lparr>EntityClass = 7, EntityInstance = 1\<rparr>, CRC32 = 0, esd_ImageSize = 40\<rparr>, [])]) sample_world
       = Ret ([True, True, True, True], w')
     \<and> onu_current w' = OnuStateImageDownloadComplete \<and> StandbyImageVersion (w_onu w') = ''IMG_v1.0.0_b14''"
proof -
  let ?r = "\<lparr>ssd_base = \<lparr>EntityClass = 7, EntityInstance = 1\<rparr>, ssd_Extended = False, WindowSize = 1, ssd_ImageSize = 40\<rparr>"
  let ?e = "\<lparr>esd_base = \<lparr>EntityClass = 7, EntityInstance = 1\<rparr>, CRC32 = 0, esd_ImageSize = 40\<rparr>"
  let ?secs = "[(False, sample_section), (True, sample_section)]"
  have h: "transitions (onu_InternalState (w_onu sample_world)) = transitions new_onu_state" "OmciResponseRate (w_onu sample_world) \<ge> 10"
    "onu_current sample_world \<in> download_sources"
    by (simp_all add: sample_world_def sample_onu_def onu_current_def download_sources_def)
  have n: "ComputeDownloadSectionsCount (Some ?r) = Ret (of_nat (length ?secs))" by (simp add: ComputeDownloadSectionsCount_def)
  have v: "image_version (SectionData sample_section) = ''IMG_v1.0.0_b14''" "length (SectionData sample_section) = 31"
    unfolding sample_section_def by code_simp+
  have c: "swap_bytes 0 = 0" by (simp add: swap_bytes_def)
  let ?env = "sample_env\<lparr>oe_stream := reliable\<rparr>"
  have env: "\<not> oe_publish ?env" "\<And>t e r. oe_ser ?env t e r \<noteq> None" "oe_stream ?env = reliable" by (simp_all add: sample_env_def)
  have s: "?secs \<noteq> []" "length ?secs \<le> 2 ^ 32 - 1" "\<not> fst (hd ?secs) \<longrightarrow> length (SectionData (snd (hd ?secs))) \<ge> 14" by (simp_all add: v)
  have z: "0 < esd_ImageSize ?e" "unat (esd_ImageSize ?e) \<le> length (section_data ?secs)" by (simp_all add: section_data_def v)
  have crc: "CRC32 ?e = swap_bytes (oe_crc ?env (take (unat (esd_ImageSize ?e)) (section_data ?secs)))" by (simp add: sample_env_def c)
  have l: "replicate (length ?secs + 2) True = [True, True, True, True]" by (simp add: numeral_eq_Suc)
  obtain w' where w': "omci_requests ?env ((start_request 7 ?r, []) # map (\<lambda>s. (section_request 7 False s, [])) ?secs
        @ [(end_request 7 False ?e, [])]) sample_world = Ret (replicate (length ?secs + 2) True, w')"
    "onu_current w' = (if \<forall>s \<in> set ?secs. fst s then OnuStateImageDownloadStarted else OnuStateImageDownloadComplete)"
    "StandbyImageVersion (w_onu w') = (if fst (hd ?secs) then InDownloadImageVersion (w_onu sample_world) else image_version (SectionData (snd (hd ?secs))))"
    using omci_image_download[OF h env n s z crc, of 7 "[]" False] by (elim exE conjE) (rule that, assumption+)
  have "onu_current w' = OnuStateImageDownloadComplete" "StandbyImageVersion (w_onu w') = ''IMG_v1.0.0_b14''"
    using w'(2,3) v by simp_all
  with w'(1)[unfolded l] show ?thesis by blast
qed

end
