(* ===== verification/OmciSafety.thy ===== *)
theory OmciSafety
  imports OnuOmci
begin

text \<open>
  Safety of the OMCI handler of an ONU: it keeps the invariant of the ONU and of the tables of its PON, what
  locking and unlocking a UNI does, which requests stop the process, and the events that it publishes.
\<close>

section \<open>The invariant\<close>

text \<open>The parts of an ONU that its invariant reads.\<close>

definition same_core :: "Onu \<Rightarrow> Onu \<Rightarrow> bool" where
  "same_core o1 o2 \<longleftrightarrow> onu_InternalState o2 = onu_InternalState o1 \<and> onu_OperState o2 = onu_OperState o1 \<and> UniPorts o2 = UniPorts o1
     \<and> PotsPorts o2 = PotsPorts o1 \<and> onu_Channel o2 = onu_Channel o1 \<and> (gomap_ok (onuAlarmsInfo o1) \<longrightarrow> gomap_ok (onuAlarmsInfo o2))"

lemma same_core_ok: "same_core o1 o2 \<Longrightarrow> onu_ok o1 \<Longrightarrow> onu_ok o2"
  by (simp add: same_core_def onu_ok_def)

lemma world_ok_on_onu:
  "world_ok w \<Longrightarrow> (\<And>o1. same_core o1 (f o1)) \<Longrightarrow> world_ok (on_onu f w)"
  by (auto simp: world_ok_def intro: same_core_ok)

lemma world_ok_on_pon: "world_ok w \<Longrightarrow> (\<And>t. tables_ok t \<Longrightarrow> tables_ok (g t)) \<Longrightarrow> world_ok (on_pon g w)"
  by (simp add: world_ok_def)

lemma world_ok_bump [simp]: "world_ok w \<Longrightarrow> world_ok (bump_mds w)"
  unfolding bump_mds_def by (rule world_ok_on_onu) (simp_all add: same_core_def)

lemma world_ok_reply_mds: "world_ok w \<Longrightarrow> world_ok (snd (reply_mds p w))"
  by (simp add: reply_mds_def)

lemma world_ok_moved:
  assumes "world_ok w" "e \<in> image_events"
  shows "world_ok (moved e w)"
proof (cases "map_of (transitions new_onu_state) (e, onu_current w)")
  case None
  then show ?thesis using assms(1) by (simp add: moved_def)
next
  case (Some d)
  have "powered (onu_current w)" using Some assms(2) by (cases e) (auto simp: onu_next image_events_def powered_def split: if_split_asm)
  moreover have "powered d" using image_next[OF Some assms(2)] Some assms(2)
    by (cases e) (auto simp: onu_next image_events_def powered_def split: if_split_asm)
  ultimately show ?thesis using assms(1) Some by (auto simp: moved_def world_ok_def onu_ok_def onu_current_def powered_def)
qed

lemma world_ok_event:
  assumes "world_ok w" "e \<in> image_events" "onu_Event_logged e w = Ret w'"
  shows "world_ok w'"
  using assms onu_Event_image[OF _ assms(2), of w] world_ok_moved[OF assms(1,2)] by (simp add: world_ok_def onu_ok_def)

lemma world_ok_channel:
  assumes "world_ok w" "chan_send (onu_Channel (w_onu w)) m = Ret c \<or> c = onu_Channel (w_onu w)"
    "\<forall>u \<in> set us. uni_ok u" "\<forall>p \<in> set ps. pots_ok p"
  shows "world_ok (on_onu (\<lambda>o1. o1\<lparr>UniPorts := us, PotsPorts := ps, onu_Channel := c\<rparr>) w)"
  using assms by (auto simp: world_ok_def onu_ok_def go_simps)

lemma set_uni_state_ok:
  assumes "world_ok w" "i < length (UniPorts (w_onu w))" "set_uni_state env a i w = Ret w'"
  shows "world_ok w'"
proof -
  obtain e u c where h: "(if a = 1 then uni_Disable env else uni_Enable env) (UniPorts (w_onu w) ! i, onu_Channel (w_onu w)) = Ret (e, u, c)"
    "w' = on_onu (\<lambda>o1. o1\<lparr>UniPorts := (UniPorts o1)[i := u], onu_Channel := c\<rparr>) w"
    using assms(3) by (auto simp: set_uni_state_def go_simps)
  have ok: "\<forall>u \<in> set (UniPorts (w_onu w)). uni_ok u" "\<forall>p \<in> set (PotsPorts (w_onu w)). pots_ok p"
    using assms(1) by (auto simp: world_ok_def onu_ok_def)
  have "uni_ok u \<and> (c = onu_Channel (w_onu w) \<or> (\<exists>m. chan_send (onu_Channel (w_onu w)) m = Ret c))"
    using uni_port.set_keeps[of "UniPorts (w_onu w) ! i" "a = 1" env] h(1) ok(1) assms(2) by simp
  moreover from this ok(1) have "\<forall>u \<in> set ((UniPorts (w_onu w))[i := u]). uni_ok u" using set_update_subset_insert by fastforce
  ultimately show ?thesis
    using world_ok_channel[OF assms(1), of _ c "(UniPorts (w_onu w))[i := u]" "PotsPorts (w_onu w)"] ok(2) h(2)
    by (auto simp: on_onu_def)
qed

lemma set_pots_state_ok:
  assumes "world_ok w" "i < length (PotsPorts (w_onu w))" "set_pots_state env a i w = Ret w'"
  shows "world_ok w'"
proof -
  obtain e u c where h: "(if a = 1 then pots_Disable env else pots_Enable env) (PotsPorts (w_onu w) ! i, onu_Channel (w_onu w)) = Ret (e, u, c)"
    "w' = on_onu (\<lambda>o1. o1\<lparr>PotsPorts := (PotsPorts o1)[i := u], onu_Channel := c\<rparr>) w"
    using assms(3) by (auto simp: set_pots_state_def go_simps)
  have ok: "\<forall>u \<in> set (UniPorts (w_onu w)). uni_ok u" "\<forall>p \<in> set (PotsPorts (w_onu w)). pots_ok p"
    using assms(1) by (auto simp: world_ok_def onu_ok_def)
  have "pots_ok u \<and> (c = onu_Channel (w_onu w) \<or> (\<exists>m. chan_send (onu_Channel (w_onu w)) m = Ret c))"
    using pots_port.set_keeps[of "PotsPorts (w_onu w) ! i" "a = 1" env] h(1) ok(2) assms(2) by simp
  moreover from this ok(2) have "\<forall>u \<in> set ((PotsPorts (w_onu w))[i := u]). pots_ok u" using set_update_subset_insert by fastforce
  ultimately show ?thesis
    using world_ok_channel[OF assms(1), of _ c "UniPorts (w_onu w)" "(PotsPorts (w_onu w))[i := u]"] ok(1) h(2)
    by (auto simp: on_onu_def)
qed

lemma set_entity_ok:
  assumes "world_ok w" "set_entity env r w = Ret (ok, w')"
  shows "world_ok w'"
proof -
  let ?c = "EntityClass (set_base r)" and ?i = "EntityInstance (set_base r)" and ?o = "w_onu w"
  note def = set_entity_def Let_def asserted_def class_ids
  consider (uni) "?c = 11" | (pots) "?c = 53" | (onug) "?c = 256" | (tcont) "?c = 262"
    | (other) "?c \<noteq> 11" "?c \<noteq> 53" "?c \<noteq> 256" "?c \<noteq> 262" by blast
  then show ?thesis
  proof cases
    case uni
    then show ?thesis using assms set_uni_state_ok[OF assms(1)] uni_by_entity.lookup_in_range[of ?i "UniPorts ?o"]
      by (cases "FindUniByEntityId ?i (UniPorts ?o)"; cases "AdministrativeState r") (auto simp: def go_simps)
  next
    case pots
    then show ?thesis using assms set_pots_state_ok[OF assms(1)] pots_by_entity.lookup_in_range[of ?i "PotsPorts ?o"]
      by (cases "FindPotsByEntityId ?i (PotsPorts ?o)"; cases "AdministrativeState r") (auto simp: def go_simps)
  next
    case onug
    then show ?thesis using assms
      by (cases "AdministrativeState r") (auto simp: def same_core_def intro!: world_ok_on_onu)
  next
    case tcont
    then show ?thesis using assms
      by (cases "TCont_AllocId r"; cases "ManagedEntityId r") (auto simp: def set_tcont_def world_ok_on_pon split: if_split_asm)
  next
    case other
    then show ?thesis using assms by (simp add: def)
  qed
qed

lemma store_section_core: "same_core o1 (store_section d o1)"
  by (simp add: same_core_def store_section_def)

lemma all_alarms_core: "same_core o1 (o1\<lparr>onuAlarmsInfo := map (\<lambda>(k, a). (k, a\<lparr>SequenceNo := 0\<rparr>)) (onuAlarmsInfo o1)\<rparr>)"
  by (auto simp: same_core_def gomap_ok_def comp_def split_beta)

lemma pure_branches_ok:
  assumes "world_ok w"
  shows "world_ok (snd (omci_mib_reset ser m w))" "world_ok (snd (omci_create ser m b w))" "world_ok (snd (omci_delete ser m b w))"
    "world_ok (snd (omci_test ser m b w))" "world_ok (snd (omci_download_section_with_response ser m d w))"
    "world_ok (snd (omci_all_alarms ser m w))" "world_ok (snd (omci_get ser m g w))"
proof -
  show "world_ok (snd (omci_mib_reset ser m w))"
    using assms by (auto simp: omci_mib_reset_def Let_def same_core_def intro!: world_ok_on_pon world_ok_on_onu)
  show "world_ok (snd (omci_create ser m b w))"
    using assms by (auto simp: omci_create_def Let_def intro!: world_ok_reply_mds world_ok_on_pon split: option.splits)
  show "world_ok (snd (omci_delete ser m b w))"
    using assms by (auto simp: omci_delete_def Let_def intro!: world_ok_reply_mds world_ok_on_pon split: option.splits)
  show "world_ok (snd (omci_download_section_with_response ser m d w))"
    using assms by (auto simp: omci_download_section_with_response_def store_section_def same_core_def intro!: world_ok_on_onu split: option.splits)
  show "world_ok (snd (omci_all_alarms ser m w))"
    using world_ok_on_onu[OF assms all_alarms_core] by (simp add: omci_all_alarms_def Let_def on_onu_def)
qed (use assms in \<open>auto simp: omci_test_def omci_get_def Let_def split: option.splits\<close>)

lemma image_branches_ok:
  assumes ok: "world_ok w"
  shows "omci_start_download ser m r1 w = Ret (out, w') \<Longrightarrow> world_ok w'"
    and "omci_download_section r2 w = Ret (out, w') \<Longrightarrow> world_ok w'"
    and "omci_end_download env m r3 w = Ret (out, w') \<Longrightarrow> world_ok w'"
    and "omci_activate ser m r4 w = Ret (out, w') \<Longrightarrow> world_ok w'"
    and "omci_commit ser m r4 w = Ret (out, w') \<Longrightarrow> world_ok w'"
proof -
  have upd: "world_ok (on_onu f w')" if "world_ok w'" "\<And>o1. same_core o1 (f o1)" for f w' using world_ok_on_onu that .
  note event = world_ok_event[unfolded image_events_def]
  show "omci_start_download ser m r1 w = Ret (out, w') \<Longrightarrow> world_ok w'"
    using ok by (simp add: omci_start_download_def Let_def go_simps split: if_split_asm)
       (auto simp: same_core_def intro!: upd world_ok_bump elim!: event[rotated 2])
  show "omci_download_section r2 w = Ret (out, w') \<Longrightarrow> world_ok w'"
    using ok by (simp add: omci_download_section_def Let_def go_simps split: option.split_asm if_split_asm)
       (auto simp: same_core_def store_section_def intro!: upd world_ok_bump elim!: event[rotated 2])
  show "world_ok w'" if e: "omci_end_download env m r3 w = Ret (out, w')"
  proof -
    obtain s o1 where h: "handleEndSoftwareDownloadRequest env r3 (w_onu w) = Ret (s, o1)"
      using e by (cases "handleEndSoftwareDownloadRequest env r3 (w_onu w)") (auto simp: omci_end_download_def)
    then have "same_core (w_onu w) o1"
      by (auto simp: handleEndSoftwareDownloadRequest_def go_simps same_core_def split: option.split_asm if_split_asm)
    then have "world_ok (w\<lparr>w_onu := o1\<rparr>)" using ok same_core_ok by (simp add: world_ok_def)
    with e show ?thesis
      by (simp add: omci_end_download_def h Let_def go_simps split: if_split_asm) (auto intro!: world_ok_bump elim!: event[rotated 2])
  qed
  show "omci_activate ser m r4 w = Ret (out, w') \<Longrightarrow> world_ok w'"
    using ok by (simp add: omci_activate_def Let_def go_simps split: option.split_asm)
       (auto simp: same_core_def intro!: upd world_ok_bump elim!: event[rotated 2])
  show "omci_commit ser m r4 w = Ret (out, w') \<Longrightarrow> world_ok w'"
    using ok by (simp add: omci_commit_def Let_def go_simps split: option.split_asm)
       (auto simp: same_core_def intro!: upd world_ok_bump elim!: event[rotated 2])
qed

lemma omci_branch_ok:
  assumes "world_ok w" "omci_branch env m w = Ret (out, w')"
  shows "world_ok w'"
proof -
  have set_ok: "world_ok w'" if "omci_set env m req w = Ret (out, w')" for req
    using that by (auto simp: omci_set_def go_simps reply_mds_def split: option.split_asm if_split_asm dest!: set_entity_ok[OF assms(1)])
  note pure = pure_branches_ok[OF assms(1), THEN back_subst[of world_ok], OF arg_cong[of _ "(out, w')" snd], unfolded snd_conv]
  show ?thesis
    using assms
    by (cases "Request m") (auto simp: omci_branch_def go_simps dest: pure set_ok image_branches_ok[OF assms(1)])
qed

lemma count_upload_core: "same_core o1 (snd (count_upload r o1))"
  by (cases r) (simp_all add: count_upload_def same_core_def Let_def)

lemma publish_core: "publishOmciEvent env bytes o1 = Ret (e, o2) \<Longrightarrow> same_core o1 o2"
  using count_upload_core[of o1] by (cases "ParseOpenOltOmciPacket (oe_decode env) bytes")
    (auto simp: publishOmciEvent_def same_core_def split: if_split_asm sum.split_asm dest!: arg_cong[of _ _ snd])

lemma handleOmciRequest_ok:
  assumes "world_ok w" "handleOmciRequest env m bytes w = Ret (ok, later, w')"
  shows "world_ok w'"
proof -
  have c: "world_ok (on_onu count_omci w)" using assms(1) by (rule world_ok_on_onu) (simp add: count_omci_def same_core_def)
  show ?thesis
  proof (cases "OmciMsgCounter (w_onu (on_onu count_omci w)) > OmciResponseRate (w_onu (on_onu count_omci w))")
    case True
    then show ?thesis using assms(2) c by (simp add: handleOmciRequest_def Let_def)
  next
    case False
    with assms(2) obtain out w2 where b: "omci_branch env m (on_onu count_omci w) = Ret (out, w2)"
      by (cases "omci_branch env m (on_onu count_omci w)") (auto simp: handleOmciRequest_def Let_def)
    have ok2: "world_ok w2" using omci_branch_ok[OF c b] .
    show ?thesis
    proof (cases out)
      case (Reply pkt l)
      then obtain o1 e where w3: "publishOmciEvent env bytes (w_onu w2) = Ret (e, o1)" "w_onu w' = o1" "w_pon w' = w_pon w2"
        using assms(2) False b by (cases pkt) (auto simp: handleOmciRequest_def Let_def go_simps)
      with ok2 publish_core[OF w3(1)] show ?thesis using same_core_ok by (simp add: world_ok_def)
    qed (use assms(2) False b ok2 in \<open>simp add: handleOmciRequest_def Let_def\<close>)
  qed
qed

text \<open>
  C3: no OMCI request breaks an ONU. Whatever request arrives in whatever state, with or without a decoded layer, if the handler returns then the ONU,
  its ports, services, machines and channel and the tables of its PON satisfy the invariant again.
\<close>

theorem omci_keeps_invariant:
  assumes "world_ok w" "handleOmciRequest env m bytes w = Ret (ok, later, w')"
  shows "world_ok w'"
  using handleOmciRequest_ok[OF assms] .

theorem omci_keeps_invariant_witness:
  "\<exists>ok later w'. handleOmciRequest sample_env (sample_request MibResetRequest) [] sample_world = Ret (ok, later, w') \<and> world_ok w'"
proof -
  obtain ok later w' where h: "handleOmciRequest sample_env (sample_request MibResetRequest) [] sample_world = Ret (ok, later, w')"
    using handle_unlimited[of sample_world sample_env "sample_request MibResetRequest" "[]"]
    by (simp add: omci_branch_def sample_env_def sample_request_def omci_mib_reset_def CreateMibResetResponse_def Let_def
        sample_world_def sample_onu_def)
  with omci_keeps_invariant[OF sample_world_ok(1) h] show ?thesis by blast
qed

section \<open>Locking and unlocking a UNI\<close>

text \<open>
  C16: setting the administrative state of a UNI. If the entity is a UNI of the ONU and the channel has room, the
  request succeeds and increments the MIB data sync; afterwards the UNI is up exactly if the value is not 1, and
  exactly then its services are initialised; every other UNI and POTS port is as before; and one status alarm is queued, for this UNI,
  exactly if its state changed. For an entity that is no UNI the answer is a failure and nothing changes.
\<close>

theorem omci_set_uni:
  assumes ok: "world_ok w" and room: "chan_room (onu_Channel (w_onu w)) 1"
    and r: "EntityClass (set_base r) = PptpEthernetUniClassID" "AdministrativeState r = Some a"
    and ser: "\<And>x. oe_ser env (TransactionID m) False x = Some (bytes x)"
  defines "inst \<equiv> EntityInstance (set_base r)" and "unis \<equiv> UniPorts (w_onu w)"
  shows "case FindUniByEntityId inst unis of
      None \<Rightarrow> omci_set env m (Some r) w = Ret (Reply (Some (bytes (SetResponse PptpEthernetUniClassID inst AttributeFailure))) [], w)
    | Some i \<Rightarrow> \<exists>w' u. omci_set env m (Some r) w = Ret (Reply (Some (bytes (SetResponse PptpEthernetUniClassID inst Success))) [], w')
        \<and> UniPorts (w_onu w') = unis[i := u] \<and> PotsPorts (w_onu w') = PotsPorts (w_onu w)
        \<and> (uni_up u \<longleftrightarrow> a \<noteq> 1) \<and> (\<forall>s \<in> set (Services u). initialized s \<longleftrightarrow> a \<noteq> 1)
        \<and> MibDataSync (w_onu w') = MibDataSync (w_onu w) + 1
        \<and> chan_msgs (onu_Channel (w_onu w')) = chan_msgs (onu_Channel (w_onu w)) @
             (if uni_up (unis ! i) = (a = 1) then [status_alarm (onu_port_env (oe_stream env) (w_onu w)) (me_num (uni_MeId (unis ! i))) (a \<noteq> 1)] else [])"
proof (cases "FindUniByEntityId inst unis")
  case None
  then show ?thesis using r by (simp add: omci_set_def set_entity_def Let_def CreateSetResponse_def ser flip: inst_def unis_def)
next
  case (Some i)
  let ?env = "onu_port_env (oe_stream env) (w_onu w)"
  have i: "i < length unis" using uni_by_entity.lookup_in_range[OF Some] .
  then have "uni_ok (unis ! i)" using ok by (simp add: unis_def world_ok_def onu_ok_def)
  then obtain e u c where h: "(if a = 1 then uni_Disable ?env else uni_Enable ?env) (unis ! i, onu_Channel (w_onu w)) = Ret (e, u, c)"
    "uni_ok u" "uni_up u = (\<not> a = 1)" "chan_msgs c = chan_msgs (onu_Channel (w_onu w)) @
        (if uni_up (unis ! i) = (a = 1) then [status_alarm ?env (me_num (uni_MeId (unis ! i))) (\<not> a = 1)] else [])"
    using uni_port.set_state[of "unis ! i" "onu_Channel (w_onu w)" 0 "a = 1" ?env] room by auto
  have "set_uni_state ?env a i w = Ret (on_onu (\<lambda>o1. o1\<lparr>UniPorts := (UniPorts o1)[i := u], onu_Channel := c\<rparr>) w)"
    by (simp add: set_uni_state_def h(1) flip: unis_def)
  then have "omci_set env m (Some r) w = Ret (Reply (Some (bytes (SetResponse PptpEthernetUniClassID inst Success))) [],
      bump_mds (on_onu (\<lambda>o1. o1\<lparr>UniPorts := (UniPorts o1)[i := u], onu_Channel := c\<rparr>) w))"
    using r Some by (simp add: omci_set_def set_entity_def Let_def asserted_def reply_mds_def CreateSetResponse_def ser flip: inst_def unis_def)
  with Some h show ?thesis by (auto simp: bump_mds_def unis_def uni_ok_def)
qed

definition set_sample_uni :: SetRequest where
  "set_sample_uni = \<lparr>set_base = \<lparr>EntityClass = 11, EntityInstance = 0x0101\<rparr>, AdministrativeState = Some 0, TCont_AllocId = None, ManagedEntityId = None\<rparr>"

theorem omci_set_uni_witness:
  "\<exists>w' u. omci_set sample_env (sample_request MibUploadRequest) (Some set_sample_uni) sample_world = Ret (Reply (Some (be16 7)) [], w')
     \<and> UniPorts (w_onu w') = [u] \<and> uni_up u \<and> length (chan_msgs (onu_Channel (w_onu w'))) = 1"
proof -
  have f: "FindUniByEntityId (EntityInstance (set_base set_sample_uni)) (UniPorts (w_onu sample_world)) = Some 0"
    unfolding set_sample_uni_def sample_world_def sample_onu_def sample_uni_def by code_simp
  have u: "UniPorts (w_onu sample_world) = [sample_uni]" "chan_msgs (onu_Channel (w_onu sample_world)) = []"
    by (simp_all add: sample_world_def sample_onu_def)
  from omci_set_uni[OF sample_world_ok(1), of set_sample_uni 0 sample_env "sample_request MibUploadRequest" "\<lambda>_. be16 7", unfolded f option.case]
  show ?thesis using u sample_world_ok(4)
    by (auto simp: set_sample_uni_def class_ids sample_env_def sample_request_def chan_room_def)
qed

section \<open>Requests that stop the process\<close>

text \<open>A set request without an attribute that the handler takes for granted.\<close>

definition set_lacks_attribute :: "SetRequest \<Rightarrow> Onu \<Rightarrow> bool" where
  "set_lacks_attribute r o1 \<longleftrightarrow>
     (let cls = EntityClass (set_base r); inst = EntityInstance (set_base r) in
      if cls = PptpEthernetUniClassID then FindUniByEntityId inst (UniPorts o1) \<noteq> None \<and> AdministrativeState r = None
      else if cls = PptpPotsUniClassID then FindPotsByEntityId inst (PotsPorts o1) \<noteq> None \<and> AdministrativeState r = None
      else if cls = OnuGClassID then AdministrativeState r = None
      else cls = TContClassID \<and> (TCont_AllocId r = None \<or> ManagedEntityId r = None))"

definition omci_crashes :: "omci_env \<Rightarrow> omci_request \<Rightarrow> Onu \<Rightarrow> bool" where
  "omci_crashes env q o1 \<longleftrightarrow> (case q of
      SetRequestMsg None \<Rightarrow> True
    | SetRequestMsg (Some r) \<Rightarrow> set_lacks_attribute r o1
    | StartSoftwareDownloadRequest r \<Rightarrow> r = None
    | DownloadSectionRequest (Some r) \<Rightarrow> ImageSoftwareReceivedSections o1 = 0 \<and> length (SectionData r) < 14
    | EndSoftwareDownloadRequest (Some r) \<Rightarrow>
        \<not> (ImageSoftwareReceivedSections o1 > 0 \<and> esd_ImageSize r = 0 \<and> CRC32 r = 4294967295)
        \<and> ImageSoftwareExpectedSections o1 = ImageSoftwareReceivedSections o1
        \<and> length (ImageSectionData o1) + length (oe_spare env) < unat (esd_ImageSize r)
    | _ \<Rightarrow> False)"

lemma ports_open:
  assumes "world_ok w" "powered (onu_current w)"
  shows "chan_open (onu_Channel (w_onu w))"
  using assms onu_okD(5)[of "w_onu w"] by (auto simp: world_ok_def onu_current_def)

lemma set_uni_state_no_panic:
  assumes "world_ok w" "powered (onu_current w)" "i < length (UniPorts (w_onu w))"
  shows "\<not> panics (set_uni_state env a i w)"
  using uni_port.set_no_panic[OF _ ports_open[OF assms(1,2)], of "UniPorts (w_onu w) ! i" "a = 1" env] assms
  by (auto simp: set_uni_state_def panics_bind world_ok_def onu_ok_def)

lemma set_pots_state_no_panic:
  assumes "world_ok w" "powered (onu_current w)" "i < length (PotsPorts (w_onu w))"
  shows "\<not> panics (set_pots_state env a i w)"
  using pots_port.set_no_panic[OF _ ports_open[OF assms(1,2)], of "PotsPorts (w_onu w) ! i" "a = 1" env] assms
  by (auto simp: set_pots_state_def panics_bind world_ok_def onu_ok_def)

lemma set_entity_panics:
  assumes "world_ok w" "powered (onu_current w)"
  shows "panics (set_entity env r w) \<longleftrightarrow> set_lacks_attribute r (w_onu w)"
proof -
  let ?c = "EntityClass (set_base r)" and ?i = "EntityInstance (set_base r)" and ?o = "w_onu w"
  note def = set_entity_def Let_def asserted_def class_ids set_lacks_attribute_def panics_bind
  consider (uni) "?c = 11" | (pots) "?c = 53" | (onug) "?c = 256" | (tcont) "?c = 262"
    | (other) "?c \<noteq> 11" "?c \<noteq> 53" "?c \<noteq> 256" "?c \<noteq> 262" by blast
  then show ?thesis
  proof cases
    case uni
    then show ?thesis using set_uni_state_no_panic[OF assms] uni_by_entity.lookup_in_range[of ?i "UniPorts ?o"]
      by (cases "FindUniByEntityId ?i (UniPorts ?o)"; cases "AdministrativeState r") (auto simp: def)
  next
    case pots
    then show ?thesis using set_pots_state_no_panic[OF assms] pots_by_entity.lookup_in_range[of ?i "PotsPorts ?o"]
      by (cases "FindPotsByEntityId ?i (PotsPorts ?o)"; cases "AdministrativeState r") (auto simp: def)
  next
    case tcont
    then show ?thesis by (cases "TCont_AllocId r"; cases "ManagedEntityId r") (auto simp: def)
  qed (cases "AdministrativeState r"; simp add: def)+
qed

lemma handleEnd_panics:
  "panics (handleEndSoftwareDownloadRequest env req o1) \<longleftrightarrow> omci_crashes env (EndSoftwareDownloadRequest req) o1"
  by (cases req) (auto simp: handleEndSoftwareDownloadRequest_def omci_crashes_def reslice_def panics_bind)

lemma image_event_returns:
  "world_ok w \<Longrightarrow> e \<in> image_events \<Longrightarrow> onu_Event_logged e w = Ret (moved e w)"
  by (intro onu_Event_image) (simp_all add: world_ok_def onu_ok_def)

lemma image_event_no_panic:
  "world_ok w \<Longrightarrow> (\<And>o1. same_core o1 (f o1)) \<Longrightarrow> e \<in> image_events \<Longrightarrow> \<not> panics (onu_Event_logged e (on_onu f w))"
  by (simp add: image_event_returns world_ok_on_onu)

lemma image_branches_panic:
  assumes "world_ok w"
  shows "panics (omci_start_download ser m r1 w) \<longleftrightarrow> r1 = None"
    and "panics (omci_download_section r2 w) \<longleftrightarrow> omci_crashes env (DownloadSectionRequest r2) (w_onu w)"
    and "panics (omci_end_download env m r3 w) \<longleftrightarrow> omci_crashes env (EndSoftwareDownloadRequest r3) (w_onu w)"
    and "\<not> panics (omci_activate ser m r4 w)" "\<not> panics (omci_commit ser m r4 w)"
proof -
  have mds: "\<And>f. bump_mds (on_onu f w) = on_onu (\<lambda>o1. (f o1)\<lparr>MibDataSync := MibDataSync (f o1) + 1\<rparr>) w"
    by (simp add: bump_mds_def on_onu_def)
  note ev = image_event_no_panic[OF assms] image_event_no_panic[OF world_ok_bump[OF assms]] same_core_def image_events_def
  show "panics (omci_start_download ser m r1 w) \<longleftrightarrow> r1 = None"
    by (cases r1) (auto simp: omci_start_download_def ComputeDownloadSectionsCount_def CreateStartSoftwareDownloadResponse_def Let_def
        panics_bind mds ev)
  show "panics (omci_download_section r2 w) \<longleftrightarrow> omci_crashes env (DownloadSectionRequest r2) (w_onu w)"
    by (cases r2) (auto simp: omci_download_section_def omci_crashes_def Let_def panics_bind ev store_section_def)
  show "\<not> panics (omci_activate ser m r4 w)"
    using image_event_returns[OF world_ok_bump[OF assms], of OnuTxActivateImage]
    by (auto simp: omci_activate_def Let_def panics_bind image_events_def split: option.splits)
  show "\<not> panics (omci_commit ser m r4 w)"
    using image_event_returns[OF world_ok_bump[OF assms], of OnuTxCommitImage]
    by (auto simp: omci_commit_def Let_def panics_bind ev split: option.splits)
  have "\<not> panics (omci_end_download env m r3 w)" if h: "handleEndSoftwareDownloadRequest env r3 (w_onu w) = Ret (s, o1)" for s o1
  proof -
    have "same_core (w_onu w) o1" using h
      by (auto simp: handleEndSoftwareDownloadRequest_def go_simps same_core_def split: option.split_asm if_split_asm)
    then have "world_ok (w\<lparr>w_onu := o1\<rparr>)" using assms same_core_ok by (simp add: world_ok_def)
    then show ?thesis using image_event_returns[of "w\<lparr>w_onu := o1\<rparr>"] image_event_returns[of "bump_mds (w\<lparr>w_onu := o1\<rparr>)"]
      by (auto simp: omci_end_download_def h Let_def panics_bind image_events_def)
  qed
  then show "panics (omci_end_download env m r3 w) \<longleftrightarrow> omci_crashes env (EndSoftwareDownloadRequest r3) (w_onu w)"
    unfolding handleEnd_panics[symmetric]
    by (cases "handleEndSoftwareDownloadRequest env r3 (w_onu w)") (auto simp: omci_end_download_def)
qed

text \<open>
  An upload of the next MIB entry: the number one past the last entry is not refused, and an extended response without a
  second entity is empty.
\<close>

definition upload_crashes :: "bool \<Rightarrow> uint16 \<Rightarrow> MibDb \<Rightarrow> bool" where
  "upload_crashes extended sq db \<longleftrightarrow>
     (if extended then sq = NumberOfExtendedCommands db
        \<or> sq < NumberOfExtendedCommands db \<and> length (extendedResponses db ! unat sq) < 2
      else sq = NumberOfBaselineCommands db)"

definition request_crashes :: "omci_env \<Rightarrow> OMCI \<Rightarrow> Onu \<Rightarrow> bool" where
  "request_crashes env m o1 \<longleftrightarrow> (case Request m of
      MibUploadNextRequest (Some sq) \<Rightarrow> upload_crashes (IsExtended m) sq (onu_MibDb o1)
    | q \<Rightarrow> omci_crashes env q o1)"

lemma upload_panics_extended:
  assumes "length (extendedResponses db) = unat (NumberOfExtendedCommands db)" "IsExtended m"
  shows "panics (CreateMibUploadNextResponse ser m (Some sq) db) \<longleftrightarrow> upload_crashes True sq db"
  using assms
  by (cases sq "NumberOfExtendedCommands db" rule: linorder_cases)
     (auto simp: CreateMibUploadNextResponse_def upload_crashes_def SetTxIdInEncodedPacket_def word_less_nat_alt panics_bind)

lemma upload_panics:
  assumes "GenerateMibDatabase eser cfg e p t = Ret db" "e + p \<le> 3000"
    "\<forall>c i ps. ser (TransactionID m) False (MibUploadNextResponse c i ps) \<noteq> None"
  shows "panics (CreateMibUploadNextResponse ser m (Some sq) db) \<longleftrightarrow> upload_crashes (IsExtended m) sq db"
proof (cases "IsExtended m")
  case True
  then show ?thesis using upload_panics_extended[OF extended_number[OF assms(1,2)], of m] by simp
next
  case False
  then show ?thesis using baseline_upload_answers[where ser = ser, OF assms False, of sq]
    by (cases sq "NumberOfBaselineCommands db" rule: linorder_cases) (auto simp: upload_crashes_def)
qed

lemma branch_panics:
  assumes "world_ok w" "powered (onu_current w)"
    "\<And>sq. panics (CreateMibUploadNextResponse (oe_ser env) m (Some sq) (onu_MibDb (w_onu w))) \<longleftrightarrow> upload_crashes (IsExtended m) sq (onu_MibDb (w_onu w))"
  shows "panics (omci_branch env m w) \<longleftrightarrow> request_crashes env m (w_onu w)"
proof (cases "Request m")
  case (SetRequestMsg req)
  then show ?thesis using set_entity_panics[OF assms(1,2)]
    by (cases req) (auto simp: omci_branch_def omci_set_def request_crashes_def omci_crashes_def panics_bind)
next
  case (MibUploadNextRequest req)
  then show ?thesis using assms(3)
    by (cases req) (auto simp: omci_branch_def request_crashes_def omci_crashes_def panics_bind CreateMibUploadNextResponse_def)
qed (use image_branches_panic[OF assms(1)] in \<open>simp_all add: omci_branch_def request_crashes_def omci_crashes_def\<close>)

text \<open>Whether a branch comes to its end: only a request to lock or unlock a port waits, for room in the channel of the ONU.\<close>

lemma set_state_returns:
  assumes "world_ok w" "chan_room (onu_Channel (w_onu w)) 1"
  shows "i < length (UniPorts (w_onu w)) \<Longrightarrow> set_uni_state penv a i w \<noteq> Blocked"
    and "i < length (PotsPorts (w_onu w)) \<Longrightarrow> set_pots_state penv a i w \<noteq> Blocked"
  using uni_port.set_state[of "UniPorts (w_onu w) ! i" "onu_Channel (w_onu w)" 0 "a = 1" penv]
    pots_port.set_state[of "PotsPorts (w_onu w) ! i" "onu_Channel (w_onu w)" 0 "a = 1" penv] assms
  by (fastforce simp: set_uni_state_def set_pots_state_def world_ok_def onu_ok_def go_bind_eq_Blocked)+

lemma set_entity_returns:
  assumes "world_ok w" "chan_room (onu_Channel (w_onu w)) 1"
  shows "set_entity env r w \<noteq> Blocked"
  using set_state_returns[OF assms] uni_by_entity.lookup_in_range pots_by_entity.lookup_in_range
  by (auto simp: set_entity_def Let_def asserted_def go_bind_eq_Blocked split: option.splits)

lemma image_event_no_block:
  "world_ok w \<Longrightarrow> (\<And>o1. same_core o1 (f o1)) \<Longrightarrow> e \<in> image_events \<Longrightarrow> onu_Event_logged e (on_onu f w) \<noteq> Blocked"
  by (simp add: image_event_returns world_ok_on_onu)

lemma image_branches_return:
  assumes "world_ok w"
  shows "omci_start_download ser m r1 w \<noteq> Blocked" "omci_download_section r2 w \<noteq> Blocked" "omci_end_download env m r3 w \<noteq> Blocked"
    "omci_activate ser m r4 w \<noteq> Blocked" "omci_commit ser m r4 w \<noteq> Blocked"
proof -
  have mds: "\<And>f. bump_mds (on_onu f w) = on_onu (\<lambda>o1. (f o1)\<lparr>MibDataSync := MibDataSync (f o1) + 1\<rparr>) w"
    by (simp add: bump_mds_def on_onu_def)
  note ev = image_event_no_block[OF assms] image_event_no_block[OF world_ok_bump[OF assms]] same_core_def image_events_def
  show "omci_start_download ser m r1 w \<noteq> Blocked"
    by (cases r1) (auto simp: omci_start_download_def ComputeDownloadSectionsCount_def CreateStartSoftwareDownloadResponse_def Let_def
        go_bind_eq_Blocked mds ev)
  show "omci_download_section r2 w \<noteq> Blocked"
    by (cases r2) (auto simp: omci_download_section_def Let_def go_bind_eq_Blocked ev store_section_def)
  show "omci_activate ser m r4 w \<noteq> Blocked"
    using image_event_returns[OF world_ok_bump[OF assms], of OnuTxActivateImage]
    by (auto simp: omci_activate_def Let_def go_bind_eq_Blocked image_events_def split: option.splits)
  show "omci_commit ser m r4 w \<noteq> Blocked"
    using image_event_returns[OF world_ok_bump[OF assms], of OnuTxCommitImage]
    by (auto simp: omci_commit_def Let_def go_bind_eq_Blocked ev split: option.splits)
  have "omci_end_download env m r3 w \<noteq> Blocked" if h: "handleEndSoftwareDownloadRequest env r3 (w_onu w) = Ret (s, o1)" for s o1
  proof -
    have "same_core (w_onu w) o1" using h
      by (auto simp: handleEndSoftwareDownloadRequest_def go_simps same_core_def split: option.split_asm if_split_asm)
    then have "world_ok (w\<lparr>w_onu := o1\<rparr>)" using assms same_core_ok by (simp add: world_ok_def)
    then show ?thesis using image_event_returns[of "w\<lparr>w_onu := o1\<rparr>"] image_event_returns[of "bump_mds (w\<lparr>w_onu := o1\<rparr>)"]
      by (auto simp: omci_end_download_def h Let_def go_bind_eq_Blocked image_events_def)
  qed
  moreover have "handleEndSoftwareDownloadRequest env r3 (w_onu w) \<noteq> Blocked"
    by (auto simp: handleEndSoftwareDownloadRequest_def go_bind_eq_Blocked reslice_def split: option.splits)
  ultimately show "omci_end_download env m r3 w \<noteq> Blocked"
    by (cases "handleEndSoftwareDownloadRequest env r3 (w_onu w)") (auto simp: omci_end_download_def)
qed

lemma branch_returns:
  assumes "world_ok w" "chan_room (onu_Channel (w_onu w)) 1"
  shows "omci_branch env m w \<noteq> Blocked"
  using set_entity_returns[OF assms] image_branches_return[OF assms(1)]
  by (cases "Request m")
     (auto simp: omci_branch_def omci_set_def CreateMibUploadNextResponse_def SetTxIdInEncodedPacket_def ToUint16_def Let_def go_bind_eq_Blocked split: option.splits list.splits)

section \<open>Published events\<close>

lemma HexDecode_outcome:
  "if even (length bytes) then \<exists>p. HexDecode bytes = Ret p \<and> length p = length bytes div 2
       \<and> (\<forall>i < length p. p ! i = push_bit 4 (hex_nibble (bytes ! (2 * i))) + hex_nibble (bytes ! (2 * i + 1)))
   else panics (HexDecode bytes)"
proof (induction bytes rule: HexDecode.induct)
  case (3 c d pkt)
  show ?case
  proof (cases "even (length pkt)")
    case True
    then obtain p where p: "HexDecode pkt = Ret p" "length p = length pkt div 2"
      "\<forall>i < length p. p ! i = push_bit 4 (hex_nibble (pkt ! (2 * i))) + hex_nibble (pkt ! (2 * i + 1))"
      using 3 by auto
    define q where "q = (push_bit 4 (hex_nibble c) + hex_nibble d) # p"
    have "q ! i = push_bit 4 (hex_nibble ((c # d # pkt) ! (2 * i))) + hex_nibble ((c # d # pkt) ! (2 * i + 1))" if "i < length q" for i
      using that p(3) by (cases i) (simp_all add: q_def)
    moreover have "HexDecode (c # d # pkt) = Ret q" "length q = length (c # d # pkt) div 2" using p by (simp_all add: q_def)
    ultimately show ?thesis using True by auto
  next
    case False
    then show ?thesis using 3 by (simp add: panics_bind)
  qed
qed simp_all

lemma publish_panics: "panics (publishOmciEvent env bytes o1) \<longleftrightarrow> oe_publish env \<and> odd (length bytes)"
  using HexDecode_outcome[of bytes]
  by (cases "odd (length bytes)") (auto simp: publishOmciEvent_def ParseOpenOltOmciPacket_def panics_bind)

text \<open>A section whose response cannot be built ends the handler early.\<close>

definition ends_early :: "omci_env \<Rightarrow> OMCI \<Rightarrow> bool" where
  "ends_early env m \<longleftrightarrow> (case Request m of
      DownloadSectionRequestWithResponse (Some r) \<Rightarrow> CreateDownloadSectionResponse (oe_ser env) m (Some r) = None
    | _ \<Rightarrow> False)"

lemma branch_ends_early: "omci_branch env m w = Ret (out, w') \<Longrightarrow> out = EarlyError \<longleftrightarrow> ends_early env m"
  using branch_early[of env m w w']
  by (cases "Request m") (auto simp: omci_branch_def omci_download_section_with_response_def ends_early_def split: option.splits)

lemma handle_panics:
  assumes "\<not> OmciMsgCounter (count_omci (w_onu w)) > OmciResponseRate (w_onu w)" "omci_branch env m (on_onu count_omci w) \<noteq> Blocked"
  shows "panics (handleOmciRequest env m bytes w) \<longleftrightarrow>
     panics (omci_branch env m (on_onu count_omci w)) \<or> (\<not> ends_early env m \<and> oe_publish env \<and> odd (length bytes))"
proof (cases "omci_branch env m (on_onu count_omci w)")
  case (Ret x)
  obtain out w2 where x: "x = (out, w2)" by fastforce
  have "\<not> OmciMsgCounter (w_onu (on_onu count_omci w)) > OmciResponseRate (w_onu (on_onu count_omci w))" using assms(1) by (simp add: count_omci_def)
  then show ?thesis using Ret x branch_ends_early[of env m "on_onu count_omci w" out w2]
    by (cases out) (auto simp: handleOmciRequest_def Let_def panics_bind publish_panics split: option.splits)
qed (use assms in \<open>auto simp: handleOmciRequest_def Let_def count_omci_def\<close>)

lemma count_omci_crashes: "request_crashes env m (count_omci o1) \<longleftrightarrow> request_crashes env m o1"
  by (auto simp: request_crashes_def omci_crashes_def set_lacks_attribute_def count_omci_def Let_def split: omci_request.split option.split)

text \<open>
  C15: which requests stop the process. Take a powered ONU that satisfies its invariant, with a generated MIB database of at most 3000 ports, room
  in its channel and a serialiser that accepts the entries of the database. Its OMCI handler panics exactly if the request is not dropped by the response rate and
  it is one of these: a set request whose layer is missing or lacks the attribute that the handler asserts; a start of a
  download whose layer is missing; a first section without response of fewer than 14 bytes; an end of a download, after the
  expected number of sections, that announces more bytes than the image buffer has memory for; an upload of the MIB entry one past the last, or
  of an extended response that is empty; or, with the publishing of events switched on, any request of an odd number of bytes that is not a
  section whose response cannot be built.
\<close>

theorem omci_panics_iff:
  assumes "world_ok w" "powered (onu_current w)" "chan_room (onu_Channel (w_onu w)) 1"
    and "GenerateMibDatabase eser cfg e p t = Ret (onu_MibDb (w_onu w))" "e + p \<le> 3000"
    and "\<forall>c i ps. oe_ser env (TransactionID m) False (MibUploadNextResponse c i ps) \<noteq> None"
  shows "panics (handleOmciRequest env m bytes w) \<longleftrightarrow>
     OmciMsgCounter (count_omci (w_onu w)) \<le> OmciResponseRate (w_onu w)
     \<and> (request_crashes env m (w_onu w) \<or> (oe_publish env \<and> odd (length bytes) \<and> \<not> ends_early env m))"
proof (cases "OmciMsgCounter (count_omci (w_onu w)) > OmciResponseRate (w_onu w)")
  case True
  then show ?thesis by (auto simp: handleOmciRequest_def Let_def count_omci_def)
next
  case False
  let ?w = "on_onu count_omci w"
  have ok: "world_ok ?w" by (rule world_ok_on_onu[OF assms(1)]) (simp add: same_core_def count_omci_def)
  have same: "onu_current ?w = onu_current w" "onu_Channel (w_onu ?w) = onu_Channel (w_onu w)" "onu_MibDb (w_onu ?w) = onu_MibDb (w_onu w)"
    by (simp_all add: count_omci_def onu_current_def)
  have "panics (omci_branch env m ?w) \<longleftrightarrow> request_crashes env m (w_onu ?w)"
    using branch_panics[OF ok] assms(2) upload_panics[where ser = "oe_ser env", OF assms(4,5,6)] unfolding same by blast
  then have "panics (omci_branch env m ?w) \<longleftrightarrow> request_crashes env m (w_onu w)" by (simp add: count_omci_crashes)
  moreover have "omci_branch env m ?w \<noteq> Blocked" using branch_returns[OF ok] assms(3) unfolding same by blast
  ultimately show ?thesis using handle_panics[OF False] False by auto
qed

theorem omci_panics_iff_witness:
  "\<exists>db. GenerateMibDatabase (\<lambda>_. []) sample_inject 4 0 XGSPON = Ret db
     \<and> panics (handleOmciRequest sample_env (sample_request (SetRequestMsg (Some (set_sample_uni\<lparr>AdministrativeState := None\<rparr>)))) (replicate 48 0)
         (on_onu (\<lambda>o1. o1\<lparr>onu_MibDb := db\<rparr>) sample_world))
     \<and> panics (handleOmciRequest sample_env (sample_request (MibUploadNextRequest (Some (NumberOfBaselineCommands db)))) (replicate 48 0)
         (on_onu (\<lambda>o1. o1\<lparr>onu_MibDb := db\<rparr>) sample_world))"
proof -
  obtain db where db: "GenerateMibDatabase (\<lambda>_. []) sample_inject 4 0 XGSPON = Ret db"
    using GenerateMibDatabase_plain[of sample_inject "\<lambda>_. []" 4 0 XGSPON] by (auto simp: sample_inject_def)
  let ?w = "on_onu (\<lambda>o1. o1\<lparr>onu_MibDb := db\<rparr>) sample_world"
  have ok: "world_ok ?w" by (rule world_ok_on_onu[OF sample_world_ok(1)]) (simp add: same_core_def)
  have w: "powered (onu_current ?w)" "chan_room (onu_Channel (w_onu ?w)) 1" "onu_MibDb (w_onu ?w) = db"
    "OmciMsgCounter (count_omci (w_onu ?w)) \<le> OmciResponseRate (w_onu ?w)"
    using sample_world_ok by (simp_all add: powered_def chan_room_def onu_current_def count_omci_def sample_world_def sample_onu_def)
  have f: "FindUniByEntityId (EntityInstance (set_base set_sample_uni)) (UniPorts (w_onu sample_world)) \<noteq> None"
    unfolding set_sample_uni_def sample_world_def sample_onu_def sample_uni_def by code_simp
  have g: "GenerateMibDatabase (\<lambda>_. []) sample_inject 4 0 XGSPON = Ret (onu_MibDb (w_onu ?w))" "(4 :: nat) + 0 \<le> 3000" using db w(3) by simp_all
  note iff = omci_panics_iff[OF ok w(1,2) g, where env = sample_env]
  have "panics (handleOmciRequest sample_env (sample_request (SetRequestMsg (Some (set_sample_uni\<lparr>AdministrativeState := None\<rparr>)))) (replicate 48 0) ?w)"
    using iff[of "sample_request (SetRequestMsg (Some (set_sample_uni\<lparr>AdministrativeState := None\<rparr>)))"] w(4) f
    by (simp add: sample_env_def sample_request_def request_crashes_def omci_crashes_def set_lacks_attribute_def set_sample_uni_def class_ids)
  moreover have "panics (handleOmciRequest sample_env (sample_request (MibUploadNextRequest (Some (NumberOfBaselineCommands db)))) (replicate 48 0) ?w)"
    using iff[of "sample_request (MibUploadNextRequest (Some (NumberOfBaselineCommands db)))"] w(3,4)
    by (simp add: sample_env_def sample_request_def request_crashes_def upload_crashes_def)
  ultimately show ?thesis using db by blast
qed

section \<open>Events of a MIB upload\<close>

text \<open>
  The header of a MIB upload or MIB upload next request as G.988 defines it: the transaction id, the message type, the
  device identifier of a baseline or extended message, the class ONU data (2) and its only instance, 0.
\<close>

definition upload_header :: "uint16 \<Rightarrow> bool \<Rightarrow> bool \<Rightarrow> byte list" where
  "upload_header tid upload_next extended =
     be16 tid @ [if upload_next then 0x4e else 0x4d, if extended then 0x0b else 0x0a, 0, 2, 0, 0]"

text \<open>
  C37: with publishing switched on, no MIB upload request makes the ONU publish an event or count its upload, although the configuration guide
  lists \<open>MIB-upload-received\<close> and \<open>MIB-upload-done\<close> among the published events. VOLTHA sends the message as hexadecimal text, the OLT decodes
  it into the bytes of the message, and \<open>publishOmciEvent\<close> decodes these bytes once more as if they were text: what
  results has no valid device identifier, for every transaction id, both formats, any content of even length and any decoder.
\<close>

theorem omci_events_unpublished:
  assumes "oe_publish env" "even (length content)"
  shows "\<exists>msg. HexDecode (HexEncode (upload_header tid upload_next extended @ content)) = Ret msg
     \<and> publishOmciEvent env msg o1 = Ret (None, o1)"
proof -
  define msg where "msg = upload_header tid upload_next extended @ content"
  have "even (length msg)" using assms(2) by (simp add: msg_def upload_header_def)
  then obtain p where p: "HexDecode msg = Ret p"
    "\<forall>i < length p. p ! i = push_bit 4 (hex_nibble (msg ! (2 * i))) + hex_nibble (msg ! (2 * i + 1))"
    using HexDecode_outcome[of msg] by auto
  have "\<exists>e. check_omci p = Inl e"
  proof (cases "length p < 10")
    case False
    then have "p ! 3 = 0" using p(2)[rule_format, of 3] by (simp add: msg_def upload_header_def be16_def hex_nibble_def)
    then show ?thesis by (simp add: check_omci_def BaselineIdent_def ExtendedIdent_def)
  qed (simp add: check_omci_def)
  then have "publishOmciEvent env msg o1 = Ret (None, o1)" using assms(1) by (auto simp: publishOmciEvent_def ParseOpenOltOmciPacket_def p(1))
  then show ?thesis by (simp add: HexDecode_HexEncode flip: msg_def)
qed

theorem omci_events_unpublished_witness:
  "\<exists>msg. HexDecode (HexEncode (upload_header 7 False False @ replicate 40 0)) = Ret msg
     \<and> publishOmciEvent (sample_env\<lparr>oe_publish := True, oe_decode := (\<lambda>_. Some (sample_request MibUploadRequest))\<rparr>) msg sample_onu
       = Ret (None, sample_onu)"
  by (rule omci_events_unpublished) simp_all

end
