(* ===== verification/OnuFlows.thy ===== *)
theory OnuFlows
  imports OmciSafety
begin

text \<open>
  The messages that an ONU processes (\<open>onu.go\<close>: \<open>ProcessOnuMessages\<close>, \<open>handleFlowAdd\<close>, \<open>handleFlowRemove\<close>,
  \<open>sendEapolFlow\<close>, \<open>sendDhcpFlow\<close>), and the goroutines of its UNIs and services. One iteration of the loop takes a message from the channel of the ONU and
  handles it; the goroutines it starts and the flows that BBR sends to its client are its output.
\<close>

section \<open>Flows\<close>

text \<open>A missing key of the map from priority bits to GEM ports gives 0.\<close>

definition flow_gem :: "Flow \<Rightarrow> uint32" where
  "flow_gem f = (if ReplicateFlow f then (case map_of (PbitToGemport f) 0 of Some g \<Rightarrow> g | None \<Rightarrow> 0) else ucast (GemportId f))"

definition is_eapol_flow :: "Flow \<Rightarrow> bool" where
  "is_eapol_flow f \<longleftrightarrow> EthType (fl_Classifier f) = 0x888e \<and> OVid (fl_Classifier f) = 4091"

definition is_dhcp_flow :: "Flow \<Rightarrow> bool" where
  "is_dhcp_flow f \<longleftrightarrow> EthType (fl_Classifier f) = 0x0800 \<and> SrcPort (fl_Classifier f) = 68 \<and> DstPort (fl_Classifier f) = 67"

definition uni_flow_add :: "Flow \<Rightarrow> UniPort \<Rightarrow> UniPort go" where
  "uni_flow_add f u =
     (let c = fl_Classifier f; u1 = StorePortNo (fl_PortNo f) (addGemPortToService (flow_gem f) (EthType c) (OVid c) (IVid c) u) in
      if is_eapol_flow f then uni_HandleAuth u1
      else if is_dhcp_flow f then uni_HandleDhcp (ucast (OPbits c)) (uint (OVid c)) u1
      else Ret u1)"

text \<open>An unknown UNI is logged and then used.\<close>

definition handleFlowAdd :: "Flow \<Rightarrow> onu_world \<Rightarrow> onu_world go" where
  "handleFlowAdd f w =
     (let w1 = on_onu (\<lambda>o1. o1\<lparr>FlowIds := FlowIds o1 @ [FlowId f]\<rparr>) w in
      case FindUniById (ucast (fl_UniId f)) (UniPorts (w_onu w1)) of
        None \<Rightarrow> Panic NilDereference
      | Some i \<Rightarrow> go_bind (uni_flow_add f (UniPorts (w_onu w1) ! i)) (\<lambda>u.
          Ret (on_onu (\<lambda>o1. o1\<lparr>UniPorts := (UniPorts o1)[i := u]\<rparr>) w1)))"

definition handleFlowRemove :: "Flow \<Rightarrow> onu_world \<Rightarrow> onu_world go" where
  "handleFlowRemove f w =
     (let w1 = on_onu (\<lambda>o1. o1\<lparr>FlowIds := remove1 (FlowId f) (FlowIds o1)\<rparr>) w in
      if FlowIds (w_onu w1) = [] \<and> onu_current w1 = OnuStateDisabled
      then go_bind (chan_close (onu_Channel (w_onu w1))) (\<lambda>c. Ret (on_onu (\<lambda>o1. o1\<lparr>onu_Channel := c\<rparr>) w1))
      else Ret w1)"

section \<open>Alarms and packets\<close>

text \<open>
  The sequence number is decremented again when the alarm cannot be sent; an alarm that is over is
  removed from the table.
\<close>

definition handleUniStatusAlarm :: "omci_env \<Rightarrow> UniStatusAlarmMessage \<Rightarrow> onu_world \<Rightarrow> onu_world" where
  "handleUniStatusAlarm env msg w =
     (let key = pptp_key (ua_EntityID msg);
          (seqNo, o1) = IncrementAlarmSequenceNumber key (w_onu w);
          w1 = w\<lparr>w_onu := o1\<rparr>;
          (pkt, bitmap) = CreateUniStatusAlarm (oe_ser env) (RaiseOMCIAlarm msg) (ua_EntityID msg) seqNo
      in case pkt of None \<Rightarrow> w1
         | Some p \<Rightarrow>
             let (ok, w2) = sendOmciIndication (oe_stream env) p w1;
                 no = (if ok then seqNo else seqNo - 1)
             in on_onu (\<lambda>o1. o1\<lparr>onuAlarmsInfo := (if bitmap = replicate 28 0 then AList.delete key (onuAlarmsInfo o1)
                    else AList.update key \<lparr>SequenceNo = no, AlarmBitMap = bitmap\<rparr> (onuAlarmsInfo o1))\<rparr>) w2)"

definition multicastGemPortId :: uint32 where
  "multicastGemPortId = 4069"

definition send_to_uni :: "OnuPacketMessage \<Rightarrow> nat \<Rightarrow> UniPort list \<Rightarrow> UniPort list go" where
  "send_to_uni msg i us = go_bind (uni_receive msg (us ! i)) (\<lambda>u. Ret (us[i := u]))"

text \<open>The UNIs that a packet goes to: those with multicast members for the multicast GEM port, else the one with the port number.\<close>

definition packet_targets :: "OnuPacketMessage \<Rightarrow> UniPort list \<Rightarrow> nat list" where
  "packet_targets msg us =
     (if pm_GemPortId msg = multicastGemPortId then findUniWithIgmpMembership us
      else case findUniByPortNo (pm_PortNo msg) us of None \<Rightarrow> [] | Some i \<Rightarrow> [i])"

definition handlePacketOut :: "OnuPacketMessage \<Rightarrow> onu_world \<Rightarrow> onu_world go" where
  "handlePacketOut msg w =
     (let us = UniPorts (w_onu w) in
      go_bind (go_fold (send_to_uni msg) (packet_targets msg us) us) (\<lambda>us'. Ret (on_onu (\<lambda>o1. o1\<lparr>UniPorts := us'\<rparr>) w)))"

section \<open>The loop\<close>

datatype onu_output = Later omci_async | ClientFlow Flow

text \<open>The flows of BBR; \<open>client f\<close> is \<open>True\<close> when the client refuses the flow, which ends the process.\<close>

definition empty_classifier :: Classifier where
  "empty_classifier = \<lparr>OVid = 0, IVid = 0, OPbits = 0, EthType = 0, IpProto = 0, SrcPort = 0, DstPort = 0\<rparr>"

definition bbr_flow :: "Classifier \<Rightarrow> Onu \<Rightarrow> Flow" where
  "bbr_flow c o1 = \<lparr>AccessIntfId = ucast (onu_PonPortID o1), fl_OnuId = ucast (onu_ID o1), fl_UniId = 0, FlowId = ucast (onu_ID o1),
     FlowType = flowTypeDownstream, fl_AllocId = ucast (onu_ID o1), GemportId = ucast (onu_ID o1), fl_Classifier = c,
     Cookie = ucast (onu_ID o1), fl_PortNo = onu_ID o1, ReplicateFlow = False, PbitToGemport = []\<rparr>"

definition send_flow :: "(Flow \<Rightarrow> bool) \<Rightarrow> Flow \<Rightarrow> onu_output list go" where
  "send_flow client f = (if client f then Panic FatalLog else Ret [ClientFlow f])"

definition sendEapolFlow :: "(Flow \<Rightarrow> bool) \<Rightarrow> Onu \<Rightarrow> onu_output list go" where
  "sendEapolFlow client o1 = send_flow client (bbr_flow (empty_classifier\<lparr>EthType := 0x888e, OVid := 4091\<rparr>) o1)"

definition sendDhcpFlow :: "(Flow \<Rightarrow> bool) \<Rightarrow> Onu \<Rightarrow> onu_output list go" where
  "sendDhcpFlow client o1 =
     (case UniPorts o1 of [] \<Rightarrow> Panic IndexOutOfRange
      | u # _ \<Rightarrow> (case Services u of [] \<Rightarrow> Panic IndexOutOfRange
          | hsia # _ \<Rightarrow> send_flow client (bbr_flow (empty_classifier\<lparr>EthType := 0x0800, SrcPort := 68, DstPort := 67,
                OVid := of_int (CTag hsia), OPbits := 255\<rparr>) o1)))"

definition handle_onu_message :: "omci_env \<Rightarrow> (Flow \<Rightarrow> bool) \<Rightarrow> onu_message \<Rightarrow> onu_world \<Rightarrow> (onu_output list \<times> onu_world) go" where
  "handle_onu_message env client msg w =
     (case msg of
        OnuDiscIndication s \<Rightarrow> Ret ([], sendOnuDiscIndication (oe_stream env) w)
      | OnuIndication s \<Rightarrow> Ret ([], sendOnuIndication (oe_stream env) s w)
      | OmciMessage m bytes \<Rightarrow> go_bind (handleOmciRequest env m bytes w) (\<lambda>(_, later, w'). Ret (map Later later, w'))
      | UniStatusAlarm a \<Rightarrow> Ret ([], handleUniStatusAlarm env a w)
      | FlowAddMsg f \<Rightarrow> go_bind (handleFlowAdd f w) (\<lambda>w'. Ret ([], w'))
      | FlowRemovedMsg f \<Rightarrow> go_bind (handleFlowRemove f w) (\<lambda>w'. Ret ([], w'))
      | OnuPacketOut p \<Rightarrow> go_bind (handlePacketOut p w) (\<lambda>w'. Ret ([], w'))
      | SendEapolFlow \<Rightarrow> go_bind (sendEapolFlow client (w_onu w)) (\<lambda>out. Ret (out, w))
      | SendDhcpFlow \<Rightarrow> go_bind (sendDhcpFlow client (w_onu w)) (\<lambda>out. Ret (out, w)))"

text \<open>One iteration of the loop; \<open>None\<close> when the channel is closed and drained, which ends the loop.\<close>

definition ProcessOnuMessages_step :: "omci_env \<Rightarrow> (Flow \<Rightarrow> bool) \<Rightarrow> onu_world \<Rightarrow> (onu_output list \<times> onu_world) option go" where
  "ProcessOnuMessages_step env client w =
     go_bind (chan_recv (onu_Channel (w_onu w))) (\<lambda>(m, c).
     case m of None \<Rightarrow> Ret None
     | Some msg \<Rightarrow> go_bind (handle_onu_message env client msg (on_onu (\<lambda>o1. o1\<lparr>onu_Channel := c\<rparr>) w)) (\<lambda>r. Ret (Some r)))"

section \<open>The goroutines of the UNIs and services\<close>

text \<open>
  Next to its own loop, an ONU has a loop for the packets of each UNI and the goroutines of each service. The indications
  of a service go to the same stream as those of the ONU; \<open>oltId\<close> is the id of the OLT, which the addresses of EAPOL packets contain.
\<close>

definition service_place :: "int \<Rightarrow> Onu \<Rightarrow> UniPort \<Rightarrow> place" where
  "service_place oltId o1 u =
     \<lparr>pl_onuId = onu_ID o1, pl_ponPortId = onu_PonPortID o1, pl_portNo = uni_PortNo u, pl_uniId = uni_ID u, pl_oltId = oltId\<rparr>"

definition onu_uni_packets :: "nat \<Rightarrow> onu_world \<Rightarrow> onu_world go" where
  "onu_uni_packets i w =
     (if i < length (UniPorts (w_onu w))
      then go_bind (uni_HandlePackets_step (UniPorts (w_onu w) ! i)) (\<lambda>u. Ret (on_onu (\<lambda>o1. o1\<lparr>UniPorts := (UniPorts o1)[i := u]\<rparr>) w))
      else Ret w)"

definition onu_service_run :: "int \<Rightarrow> nat \<Rightarrow> nat \<Rightarrow> service_task \<Rightarrow> onu_world \<Rightarrow> onu_world go" where
  "onu_service_run oltId i k task w =
     (let us = UniPorts (w_onu w) in
      if i < length us \<and> k < length (Services (us ! i))
      then go_bind (service_run (service_place oltId (w_onu w) (us ! i)) task (Services (us ! i) ! k) (w_sent w)) (\<lambda>(s, sent).
        Ret ((on_onu (\<lambda>o1. o1\<lparr>UniPorts := us[i := (us ! i)\<lparr>Services := (Services (us ! i))[k := s]\<rparr>]\<rparr>) w)\<lparr>w_sent := sent\<rparr>))
      else Ret w)"

section \<open>Invariant\<close>

lemma go_map_keeps:
  assumes "go_map f xs = Ret ys" "\<forall>x \<in> set xs. \<forall>y. f x = Ret y \<longrightarrow> P y"
  shows "\<forall>y \<in> set ys. P y"
  using assms by (induction xs arbitrary: ys) (auto simp: go_simps)

lemma service_starts_keep:
  assumes "service_ok s"
  shows "svc_HandleAuth s = Ret s' \<Longrightarrow> service_ok s' \<and> svc_InternalState s' = svc_InternalState s"
    and "svc_HandleDhcp p v s = Ret s' \<Longrightarrow> service_ok s' \<and> svc_InternalState s' = svc_InternalState s"
  using eapol_Event_keeps[OF assms] dhcp_Event_keeps[OF assms] assms
  by (auto simp: svc_HandleAuth_def svc_HandleDhcp_def go_simps split: if_split_asm)

lemma uni_services_ok:
  assumes "uni_ok u" "go_map f (Services u) = Ret ss"
    "\<And>s s'. service_ok s \<Longrightarrow> f s = Ret s' \<Longrightarrow> service_ok s' \<and> svc_InternalState s' = svc_InternalState s"
  shows "uni_ok (u\<lparr>Services := ss\<rparr>)"
proof -
  have "service_ok y \<and> (initialized y \<longleftrightarrow> uni_up u)" if "x \<in> set (Services u)" "f x = Ret y" for x y
  proof -
    have "service_ok x" "initialized x \<longleftrightarrow> uni_up u" using assms(1) that(1) by (auto simp: uni_ok_def)
    with assms(3)[of x y] that(2) show ?thesis by simp
  qed
  then have "\<forall>y \<in> set ss. service_ok y \<and> (initialized y \<longleftrightarrow> uni_up u)"
    using go_map_keeps[OF assms(2), of "\<lambda>y. service_ok y \<and> (initialized y \<longleftrightarrow> uni_up u)"] by blast
  then show ?thesis using assms(1) by (simp add: uni_ok_def uni_up_def)
qed

lemma uni_flow_add_ok:
  assumes "uni_ok u" "uni_flow_add f u = Ret u'"
  shows "uni_ok u'"
proof -
  define u1 where "u1 = StorePortNo (fl_PortNo f) (addGemPortToService (flow_gem f) (EthType (fl_Classifier f)) (OVid (fl_Classifier f)) (IVid (fl_Classifier f)) u)"
  have ok1: "uni_ok u1" using assms(1) by (auto simp: u1_def uni_ok_def uni_up_def StorePortNo_def addGemPortToService_def service_ok_def)
  have "uni_ok u'" if auth: "uni_HandleAuth u1 = Ret u'"
  proof -
    obtain ss where "go_map svc_HandleAuth (Services u1) = Ret ss" "u' = u1\<lparr>Services := ss\<rparr>" using auth by (auto simp: uni_HandleAuth_def go_simps)
    then show ?thesis using uni_services_ok[OF ok1 _ service_starts_keep(1)] by simp
  qed
  moreover have "uni_ok u'" if dhcp: "uni_HandleDhcp p v u1 = Ret u'" for p v
  proof -
    obtain ss where "go_map (svc_HandleDhcp p v) (Services u1) = Ret ss" "u' = u1\<lparr>Services := ss\<rparr>" using dhcp by (auto simp: uni_HandleDhcp_def go_simps)
    then show ?thesis using uni_services_ok[OF ok1 _ service_starts_keep(2)] by simp
  qed
  ultimately show ?thesis using assms(2) ok1 by (auto simp: uni_flow_add_def Let_def simp flip: u1_def split: if_split_asm)
qed

lemma world_ok_unis:
  assumes "world_ok w" "\<forall>u \<in> set us. uni_ok u"
  shows "world_ok (on_onu (\<lambda>o1. o1\<lparr>UniPorts := us\<rparr>) w)"
  using assms by (auto simp: world_ok_def onu_ok_def)

lemma handleFlowAdd_ok:
  assumes "world_ok w" "handleFlowAdd f w = Ret w'"
  shows "world_ok w'"
proof -
  define w1 where "w1 = on_onu (\<lambda>o1. o1\<lparr>FlowIds := FlowIds o1 @ [FlowId f]\<rparr>) w"
  have ok1: "world_ok w1" unfolding w1_def using assms(1) by (rule world_ok_on_onu) (simp add: same_core_def)
  obtain i u where i: "FindUniById (ucast (fl_UniId f)) (UniPorts (w_onu w1)) = Some i" "uni_flow_add f (UniPorts (w_onu w1) ! i) = Ret u"
    "w' = on_onu (\<lambda>o1. o1\<lparr>UniPorts := (UniPorts o1)[i := u]\<rparr>) w1"
    using assms(2) by (auto simp: handleFlowAdd_def Let_def go_simps simp flip: w1_def split: option.split_asm)
  have "uni_ok (UniPorts (w_onu w1) ! i)" using uni_by_id.lookup_in_range[OF i(1)] ok1 by (simp add: world_ok_def onu_ok_def)
  then have "uni_ok u" using uni_flow_add_ok i(2) by blast
  then have "\<forall>u \<in> set ((UniPorts (w_onu w1))[i := u]). uni_ok u"
    using ok1 set_update_subset_insert by (fastforce simp: world_ok_def onu_ok_def)
  from world_ok_unis[OF ok1 this] show ?thesis by (simp add: i(3) on_onu_def)
qed

lemma handleFlowRemove_ok:
  assumes "world_ok w" "handleFlowRemove f w = Ret w'"
  shows "world_ok w'"
proof -
  define w1 where "w1 = on_onu (\<lambda>o1. o1\<lparr>FlowIds := remove1 (FlowId f) (FlowIds o1)\<rparr>) w"
  have ok1: "world_ok w1" unfolding w1_def using assms(1) by (rule world_ok_on_onu) (simp add: same_core_def)
  then show ?thesis using assms(2)
    by (auto simp: handleFlowRemove_def Let_def go_simps world_ok_def onu_ok_def powered_def onu_current_def simp flip: w1_def split: if_split_asm)
qed

lemma handleUniStatusAlarm_ok:
  assumes "world_ok w"
  shows "world_ok (handleUniStatusAlarm env msg w)"
proof -
  have inc: "same_core o1 (snd (IncrementAlarmSequenceNumber k o1))" for k o1
    by (auto simp: IncrementAlarmSequenceNumber_def same_core_def Let_def gomap_ok_def distinct_update split: option.splits)
  have "world_ok (w\<lparr>w_onu := snd (IncrementAlarmSequenceNumber k (w_onu w))\<rparr>)" for k
    using assms same_core_ok[OF inc] by (simp add: world_ok_def)
  moreover have "world_ok (snd (sendOmciIndication st p w'))" if "world_ok w'" for st p w' using that by (simp add: world_ok_def)
  ultimately show ?thesis
    by (auto simp: handleUniStatusAlarm_def Let_def split_beta same_core_def gomap_ok_def distinct_update distinct_delete
        intro!: world_ok_on_onu split: option.splits)
qed

lemma packet_targets_in_range: "\<forall>i \<in> set (packet_targets msg us). i < length us"
  using uni_by_port.lookup_in_range[of "pm_PortNo msg" us]
  by (auto simp: packet_targets_def findUniWithIgmpMembership_def split: option.splits if_split_asm)

lemma handlePacketOut_ok:
  assumes "world_ok w" "handlePacketOut msg w = Ret w'"
  shows "world_ok w'"
proof -
  have recv: "uni_ok u'" if "uni_ok u" "uni_receive msg u = Ret u'" for u u'
    using that by (auto simp: uni_receive_def uni_ok_def uni_up_def go_simps split: if_split_asm)
  have fold: "\<forall>u \<in> set us'. uni_ok u" if "go_fold (send_to_uni msg) is us = Ret us'" "\<forall>u \<in> set us. uni_ok u" "\<forall>i \<in> set is. i < length us" for "is" us us'
    using that
  proof (induction "is" arbitrary: us)
    case (Cons i "is")
    obtain u where u: "uni_receive msg (us ! i) = Ret u" "go_fold (send_to_uni msg) is (us[i := u]) = Ret us'"
      using Cons.prems(1) by (auto simp: send_to_uni_def[of msg i] go_simps)
    have "uni_ok u" using recv[OF _ u(1)] Cons.prems(2,3) by simp
    then have "\<forall>u \<in> set (us[i := u]). uni_ok u" using Cons.prems(2) set_update_subset_insert by fastforce
    with Cons.IH[OF u(2)] Cons.prems(3) show ?case by simp
  qed simp
  obtain us' where "go_fold (send_to_uni msg) (packet_targets msg (UniPorts (w_onu w))) (UniPorts (w_onu w)) = Ret us'"
    "w' = on_onu (\<lambda>o1. o1\<lparr>UniPorts := us'\<rparr>) w"
    using assms(2) by (auto simp: handlePacketOut_def Let_def go_simps)
  with fold[OF _ _ packet_targets_in_range] world_ok_unis assms(1) show ?thesis by (simp add: world_ok_def onu_ok_def)
qed

lemma indications_ok [simp]:
  "world_ok (sendOnuDiscIndication st w) \<longleftrightarrow> world_ok w" "world_ok (sendOnuIndication st s w) \<longleftrightarrow> world_ok w"
  "world_ok (snd (sendOmciIndication st p w)) \<longleftrightarrow> world_ok w"
  by (simp_all add: sendOnuDiscIndication_def sendOnuIndication_def sendOmciIndication_def onu_Send_def Let_def split_beta world_ok_def)

lemma handle_onu_message_ok:
  assumes "world_ok w" "handle_onu_message env client msg w = Ret (out, w')"
  shows "world_ok w'"
  using assms
  by (cases msg) (auto simp: handle_onu_message_def go_simps handleUniStatusAlarm_ok
      dest: handleFlowAdd_ok handleFlowRemove_ok handlePacketOut_ok handleOmciRequest_ok)

section \<open>The invariant and the goroutines\<close>

lemma service_deliver_keeps:
  assumes "service_ok s" "service_deliver msg s = Ret s'"
  shows "service_ok s' \<and> svc_InternalState s' = svc_InternalState s"
proof -
  obtain k q where q: "PacketCh s = Chan k q False" "s' = s\<lparr>PacketCh := Chan k (q @ [msg]) False\<rparr>"
    using assms(2) by (auto simp: service_deliver_def go_simps)
  then have "initialized s \<and> k = None" using assms(1) by (auto simp: service_ok_def open_unbuffered_iff split: if_split_asm)
  then show ?thesis using q(2) assms(1) by simp
qed

lemma uni_put_service_ok:
  assumes "uni_ok u" "k < length (Services u)" "service_ok s" "svc_InternalState s = svc_InternalState (Services u ! k)"
  shows "uni_ok (u\<lparr>Services := (Services u)[k := s]\<rparr>)"
proof -
  have "initialized s \<longleftrightarrow> uni_up u" using assms by (simp add: uni_ok_def)
  then have "\<forall>x \<in> set ((Services u)[k := s]). service_ok x \<and> (initialized x \<longleftrightarrow> uni_up u)"
    using assms(1,3) set_update_subset_insert[of "Services u" k s] by (auto simp: uni_ok_def)
  then show ?thesis using assms(1) by (simp add: uni_ok_def uni_up_def)
qed

lemma uni_HandlePacket_ok:
  assumes "uni_ok u" "uni_HandlePacket msg u = Ret u'"
  shows "uni_ok u'"
proof -
  have one: "uni_ok (u\<lparr>Services := (Services u)[i := s]\<rparr>)"
    if "uni_findServiceByMacAddress mac (Services u) = Some i" "service_deliver msg (Services u ! i) = Ret s" for mac i s
  proof -
    have i: "i < length (Services u)" using that(1) by (simp add: uni_findServiceByMacAddress_def find_idx_Some)
    then have "service_ok (Services u ! i)" using assms(1) by (simp add: uni_ok_def)
    from service_deliver_keeps[OF this that(2)] show ?thesis by (intro uni_put_service_ok[OF assms(1) i]) simp_all
  qed
  have all: "uni_ok (u\<lparr>Services := ss\<rparr>)" if "go_map (\<lambda>s. if NeedsIgmp s then service_deliver msg s else Ret s) (Services u) = Ret ss" for ss
    by (rule uni_services_ok[OF assms(1) that]) (auto split: if_split_asm dest: service_deliver_keeps)
  show ?thesis using assms one all by (auto simp: uni_HandlePacket_def go_simps split: if_split_asm option.split_asm)
qed

lemma onu_uni_packets_ok:
  assumes "world_ok w" "onu_uni_packets i w = Ret w'"
  shows "world_ok w'"
proof -
  have step: "uni_ok u'" if u: "uni_ok u" "uni_HandlePackets_step u = Ret u'" for u u'
  proof (cases "uni_listening u")
    case True
    obtain q where q: "uni_PacketCh u = Chan None q False" using u(1) by (auto simp: uni_ok_def)
    then obtain m q' where m: "q = m # q'" "uni_HandlePacket m (u\<lparr>uni_PacketCh := Chan None q' False\<rparr>) = Ret u'"
      using u(2) True by (cases q) (auto simp: uni_HandlePackets_step_def)
    have "uni_ok (u\<lparr>uni_PacketCh := Chan None q' False\<rparr>)" using u(1) by (simp add: uni_ok_def uni_up_def)
    then show ?thesis using uni_HandlePacket_ok m(2) by blast
  qed (use u in \<open>simp add: uni_HandlePackets_step_def\<close>)
  show ?thesis
  proof (cases "i < length (UniPorts (w_onu w))")
    case True
    then obtain u where u: "uni_HandlePackets_step (UniPorts (w_onu w) ! i) = Ret u" "w' = on_onu (\<lambda>o1. o1\<lparr>UniPorts := (UniPorts o1)[i := u]\<rparr>) w"
      using assms(2) by (auto simp: onu_uni_packets_def go_simps)
    have all: "\<forall>u \<in> set (UniPorts (w_onu w)). uni_ok u" using assms(1) by (simp add: world_ok_def onu_ok_def)
    then have "uni_ok u" using step[OF _ u(1)] True by simp
    then have "\<forall>x \<in> set ((UniPorts (w_onu w))[i := u]). uni_ok x" using all set_update_subset_insert by fastforce
    from world_ok_unis[OF assms(1) this] show ?thesis by (simp add: u(2) on_onu_def)
  qed (use assms in \<open>simp add: onu_uni_packets_def\<close>)
qed

lemma onu_service_run_ok:
  assumes "world_ok w" "onu_service_run oltId i k task w = Ret w'"
  shows "world_ok w'"
proof (cases "i < length (UniPorts (w_onu w)) \<and> k < length (Services (UniPorts (w_onu w) ! i))")
  case True
  let ?us = "UniPorts (w_onu w)"
  obtain s sent where s: "service_run (service_place oltId (w_onu w) (?us ! i)) task (Services (?us ! i) ! k) (w_sent w) = Ret (s, sent)"
    "w' = (on_onu (\<lambda>o1. o1\<lparr>UniPorts := ?us[i := (?us ! i)\<lparr>Services := (Services (?us ! i))[k := s]\<rparr>]\<rparr>) w)\<lparr>w_sent := sent\<rparr>"
    using assms(2) True by (auto simp: onu_service_run_def Let_def go_simps)
  have all: "\<forall>u \<in> set ?us. uni_ok u" using assms(1) by (simp add: world_ok_def onu_ok_def)
  then have u: "uni_ok (?us ! i)" using True by simp
  then have "service_ok (Services (?us ! i) ! k)" using True by (simp add: uni_ok_def)
  from service_run_keeps[OF this s(1)] have "uni_ok ((?us ! i)\<lparr>Services := (Services (?us ! i))[k := s]\<rparr>)"
    using True by (intro uni_put_service_ok[OF u]) simp_all
  then have "\<forall>x \<in> set (?us[i := (?us ! i)\<lparr>Services := (Services (?us ! i))[k := s]\<rparr>]). uni_ok x"
    using all set_update_subset_insert by fastforce
  from world_ok_unis[OF assms(1) this] show ?thesis by (simp add: s(2) world_ok_def)
qed (use assms in \<open>auto simp: onu_service_run_def Let_def split: if_split_asm\<close>)

end
