(* ===== verification/OnuReach.thy ===== *)
theory OnuReach
  imports OnuFlows
begin

text \<open>
  The states an ONU can reach: from \<open>CreateONU\<close>, by the messages of its loop, the events of its machine, its
  power operations, the loops and timers of its UNIs and services, and what other parts of the simulator do to the shared tables and channels. The invariant of
  \<open>OnuLife\<close> holds in all of them. Then the two channel errors that remain: flows for UNIs that do not exist or do not listen, and
  the channel that is closed twice.
\<close>

section \<open>Events\<close>

lemma onu_send_ok:
  assumes "world_ok w" "onu_send m w = Ret w'"
  shows "world_ok w'"
  using assms by (auto simp: onu_send_Ret world_ok_def onu_ok_def go_simps)

lemma put_powered_ok:
  assumes "world_ok w" "powered (onu_current w)" "powered d"
  shows "world_ok (onu_put (SetState d (onu_InternalState (w_onu w))) w)"
  using assms by (auto simp: world_ok_def onu_ok_def onu_put_def onu_current_def powered_def)

lemma cleanupOnuState_ok: "world_ok w \<Longrightarrow> world_ok (cleanupOnuState w)"
  by (auto simp: world_ok_def onu_ok_def cleanupOnuState_def Let_def)

lemma enter_onu_enabled_ok: "world_ok w \<Longrightarrow> enter_onu_enabled w = Ret w' \<Longrightarrow> world_ok w'"
  by (auto simp: enter_onu_enabled_def Let_def split: if_split_asm elim!: onu_send_ok[rotated]) (simp add: world_ok_def)

text \<open>Disabling: whatever the room in the channel, the ONU is well-formed if the event returns.\<close>

lemma onu_disable_ok:
  assumes "world_ok w" "powered (onu_current w)"
    "enter_onu_disabled (onu_put (SetState OnuStateDisabled (onu_InternalState (w_onu w))) w) = Ret w'"
  shows "world_ok w'"
proof -
  let ?w0 = "oper_event_onu tx_disable (cleanupOnuState (onu_put (SetState OnuStateDisabled (onu_InternalState (w_onu w))) w))"
  note okd = onu_okD[OF assms(1)[unfolded world_ok_def, THEN conjunct1]]
  obtain q0 where q0: "onu_Channel (w_onu w) = Chan (Some 2048) q0 False" using okd(5) assms(2) by (auto simp: onu_current_def)
  obtain w1 w2 where w: "onu_send (OnuIndication DOWN) ?w0 = Ret w1" "disable_all_ports w1 = Ret w2" "close_if_no_flows w2 = Ret w'"
    using assms(3) by (auto simp: enter_onu_disabled_def go_simps)
  have w0: "onu_Channel (w_onu ?w0) = Chan (Some 2048) q0 False" "UniPorts (w_onu ?w0) = UniPorts (w_onu w)" "PotsPorts (w_onu ?w0) = PotsPorts (w_onu w)"
    using q0 by (simp_all add: oper_event_onu_def cleanupOnuState_def onu_put_def Let_def)
  obtain c where c: "chan_send (Chan (Some 2048) q0 False) (OnuIndication DOWN) = Ret c" "w1 = on_onu (\<lambda>o1. o1\<lparr>onu_Channel := c\<rparr>) ?w0"
    using w(1) by (auto simp: onu_send_Ret w0(1))
  then obtain q1 where q1: "c = Chan (Some 2048) q1 False" by (auto split: if_split_asm)
  obtain us c1 ps c2 where d: "disable_ports (uni_Disable (onu_port_env no_stream (w_onu w1))) (UniPorts (w_onu w)) (Chan (Some 2048) q1 False) = Ret (us, c1)"
    "disable_ports (pots_Disable (onu_port_env no_stream (w_onu w1))) (PotsPorts (w_onu w)) c1 = Ret (ps, c2)"
    "w2 = on_onu (\<lambda>o1. o1\<lparr>UniPorts := us, PotsPorts := ps, onu_Channel := c2\<rparr>) w1"
    using w(2) by (auto simp: disable_all_ports_def Let_def go_simps c(2) q1 w0)
  have us: "\<forall>u \<in> set us. uni_ok u" and "\<exists>q. c1 = Chan (Some 2048) q False" using uni_port.all_disabled_Ret[OF okd(3) d(1)] by auto
  then obtain q2 where q2: "c1 = Chan (Some 2048) q2 False" by blast
  have ps: "\<forall>p \<in> set ps. pots_ok p" and "\<exists>q. c2 = Chan (Some 2048) q False"
    using pots_port.all_disabled_Ret[OF okd(4) d(2)[unfolded q2]] by auto
  then obtain q3 where q3: "c2 = Chan (Some 2048) q3 False" by blast
  have tables: "tables_ok (w_pon w)" using assms(1) by (simp add: world_ok_def)
  have w2: "w2 = w\<lparr>w_onu := disabled_onu (w_onu w) us ps (Chan (Some 2048) q3 False), w_pon := cleaned_tables (w_onu w) (w_pon w)\<rparr>"
    using oper_fire(1)[OF okd(2)]
    by (simp add: d(3) c(2) q3 oper_event_onu_def cleanupOnuState_def onu_put_def on_onu_def Let_def disabled_onu_def cleaned_tables_def)
  have "w_onu w' = disabled_onu (w_onu w) us ps (Chan (Some 2048) q3 (FlowIds (w_onu w) = [])) \<and> w_pon w' = cleaned_tables (w_onu w) (w_pon w)"
    using w(3) by (cases "FlowIds (w_onu w) = []") (auto simp: close_if_no_flows_def w2 disabled_onu_def)
  then show ?thesis using disabled_onu_ok[OF assms(1)[unfolded world_ok_def, THEN conjunct1] us ps] tables by (simp add: world_ok_def)
qed

lemma onu_Event_ok:
  assumes "world_ok w" "onu_Event e w = Ret (r, w')"
  shows "world_ok w'"
proof (cases "map_of (transitions new_onu_state) (e, onu_current w)")
  case None
  then show ?thesis using onu_Event_rejected[OF onu_okD(1) None] assms by (auto simp: world_ok_def)
next
  case (Some d)
  note okd = onu_okD[OF assms(1)[unfolded world_ok_def, THEN conjunct1]]
  have src: "d \<noteq> onu_current w" "powered (onu_current w) \<or> d = OnuStateInitialized" "d = OnuStateInitialized \<Longrightarrow> e = OnuTxInitialize"
    using Some by (cases e; auto simp: onu_next powered_def split: if_split_asm)+
  have ev: "enter_onu \<lparr>ev_Event = e, ev_Src = onu_current w, ev_Dst = d\<rparr> (onu_put (SetState d (onu_InternalState (w_onu w))) w) = Ret w'"
    using onu_Event_step[OF okd(1) Some src(1)] assms(2) by (auto simp: go_simps)
  show ?thesis
  proof (cases "d = OnuStateInitialized")
    case True
    then have "onu_current w \<in> {OnuStateCreated, OnuStateDisabled, OnuStatePonDisabled}" using Some src(3) by (auto simp: onu_next split: if_split_asm)
    with onu_initialize_step[OF assms(1)] src(3)[OF True] assms(2) assms(1) show ?thesis by (auto simp: world_ok_def)
  next
    case False
    then have p: "powered (onu_current w)" using src(2) by simp
    show ?thesis
    proof (cases "d = OnuStateDisabled")
      case True
      then show ?thesis using onu_disable_ok[OF assms(1) p] ev by (simp add: enter_onu_def)
    next
      case nd: False
      have "d \<noteq> OnuStateCreated" using Some by (cases e; auto simp: onu_next split: if_split_asm)
      then have "powered d" using nd by (simp add: powered_def)
      from put_powered_ok[OF assms(1) p this] ev False nd show ?thesis
        by (cases d) (auto simp: enter_onu_def elim: onu_send_ok[rotated] enter_onu_enabled_ok[rotated] intro: cleanupOnuState_ok)
    qed
  qed
qed

section \<open>Power operations\<close>

text \<open>What holds of the result of a computation if it returns.\<close>

definition ensures :: "('a \<Rightarrow> bool) \<Rightarrow> 'a go \<Rightarrow> bool" where
  "ensures P r \<longleftrightarrow> (\<forall>x. r = Ret x \<longrightarrow> P x)"

lemma ensures_Ret [simp]: "ensures P (Ret x) \<longleftrightarrow> P x"
  by (simp add: ensures_def)

lemma ensures_if: "(b \<Longrightarrow> ensures P r) \<Longrightarrow> (\<not> b \<Longrightarrow> ensures P s) \<Longrightarrow> ensures P (if b then r else s)"
  by simp

lemma ensures_bind: "ensures Q m \<Longrightarrow> (\<And>x. Q x \<Longrightarrow> ensures P (f x)) \<Longrightarrow> ensures P (go_bind m f)"
  by (auto simp: ensures_def go_simps)

lemma power_steps_keep:
  assumes "world_ok w"
  shows "ensures (\<lambda>r. world_ok (snd r)) (onu_Event e w)" "ensures (\<lambda>r. world_ok (snd r)) (event_ok e w)"
    "ensures (\<lambda>r. world_ok (snd r)) (onu_alarm t s w)" "ensures world_ok (SendOMCIAlarmNotificationMsg b t w)" "ensures world_ok (onu_send m w)"
proof -
  show ev: "ensures (\<lambda>r. world_ok (snd r)) (onu_Event e w)" using onu_Event_ok[OF assms] by (auto simp: ensures_def)
  show send: "ensures world_ok (onu_send m w)" for m using onu_send_ok[OF assms] by (auto simp: ensures_def)
  show "ensures (\<lambda>r. world_ok (snd r)) (event_ok e w)" unfolding event_ok_def by (rule ensures_bind[OF ev]) (simp add: split_beta)
  show "ensures (\<lambda>r. world_ok (snd r)) (onu_alarm t s w)" using assms by (auto simp: onu_alarm_def ensures_def go_simps world_ok_def)
  show "ensures world_ok (SendOMCIAlarmNotificationMsg b t w)" using assms by (simp add: SendOMCIAlarmNotificationMsg_def send)
qed

lemma HandleShutdownONU_keeps: "world_ok w \<Longrightarrow> ensures (\<lambda>r. world_ok (snd r)) (HandleShutdownONU w)"
  unfolding HandleShutdownONU_def split_beta
  by (rule ensures_bind[OF power_steps_keep(3)], assumption, rule ensures_if, simp,
      rule ensures_bind[OF power_steps_keep(3)], assumption, rule ensures_if, simp,
      rule ensures_bind[where Q = world_ok], simp add: power_steps_keep, rule power_steps_keep)

lemma HandlePowerOnONU_keeps: "world_ok w \<Longrightarrow> ensures (\<lambda>r. world_ok (snd r)) (HandlePowerOnONU del w)"
  unfolding HandlePowerOnONU_def split_beta Let_def
  by (rule ensures_if, simp,
      rule ensures_bind[where Q = "\<lambda>r. world_ok (snd r)"], simp add: power_steps_keep, rule ensures_if, simp,
      rule ensures_bind[OF power_steps_keep(3)], assumption, rule ensures_if, simp,
      rule ensures_bind[OF power_steps_keep(4)], assumption,
      rule ensures_bind[OF power_steps_keep(2)], assumption, simp add: power_steps_keep)

lemma onu_Reboot_keeps: "world_ok w \<Longrightarrow> ensures (\<lambda>r. world_ok (snd r)) (onu_Reboot del w)"
  unfolding onu_Reboot_def split_beta
  by (rule ensures_bind[OF HandleShutdownONU_keeps]) (simp_all add: HandlePowerOnONU_keeps)

lemma onu_SetAlarm_keeps: "world_ok w \<Longrightarrow> ensures (\<lambda>r. world_ok (snd r)) (onu_SetAlarm t s w)"
  unfolding onu_SetAlarm_def split_beta
  by (rule ensures_bind[OF power_steps_keep(3)], assumption, rule ensures_if, simp, rule ensures_bind[OF power_steps_keep(4)]) simp_all

lemma ReDiscoverOnu_keeps: "world_ok w \<Longrightarrow> ensures world_ok (ReDiscoverOnu del w)"
  unfolding ReDiscoverOnu_def split_beta
  by (rule ensures_if, simp, rule ensures_if, rule ensures_bind[OF power_steps_keep(1)], assumption,
      rule ensures_bind[OF power_steps_keep(1)], assumption, simp, rule power_steps_keep)

lemma omci_later_keeps: "world_ok w \<Longrightarrow> ensures world_ok (omci_later env del a w)"
  by (cases a) (auto simp: omci_later_def split_beta intro: ensures_bind[OF onu_Reboot_keeps])

lemma ProcessOnuMessages_step_ok:
  assumes "world_ok w" "ProcessOnuMessages_step env client w = Ret (Some (out, w'))"
  shows "world_ok w'"
proof -
  obtain msg c where m: "chan_recv (onu_Channel (w_onu w)) = Ret (Some msg, c)"
    "handle_onu_message env client msg (on_onu (\<lambda>o1. o1\<lparr>onu_Channel := c\<rparr>) w) = Ret (out, w')"
    using assms(2) by (auto simp: ProcessOnuMessages_step_def go_simps split: option.splits)
  obtain k q b where "onu_Channel (w_onu w) = Chan k (msg # q) b" "c = Chan k q b"
    using m(1) by (cases "onu_Channel (w_onu w)" rule: chan_recv.cases) auto
  then have "world_ok (on_onu (\<lambda>o1. o1\<lparr>onu_Channel := c\<rparr>) w)" using assms(1) by (auto simp: world_ok_def onu_ok_def)
  then show ?thesis using handle_onu_message_ok m(2) by blast
qed

section \<open>Reachable states\<close>

text \<open>
  The operations of an ONU, in any order: its loop and the messages of others for it, the events of its machine, power operations, alarms, the goroutines
  that it started, the packet loops of its UNIs, the goroutines of its services (\<open>OpService\<close>, for service \<open>k\<close> of UNI \<open>i\<close>) with what the control API does to
  them, and its id and MIB data sync, which others set. \<open>OpTables\<close> stands for what the other ONUs of the PON and the OLT do to the
  shared tables, \<open>OpOltChannel\<close> for the OLT reading and closing its own channel.
\<close>

datatype onu_op = OpStep | OpQueue onu_message | OpEvent onu_event | OpShutdown | OpPowerOn bool | OpReboot bool
  | OpAlarm string string | OpReDiscover bool | OpRetry | OpLater bool omci_async
  | OpUniPackets nat | OpService int nat nat service_task | OpSetID uint32 | OpInvalidateMds uint8
  | OpTables PonTables | OpOltChannel "olt_message chan"

definition onu_exec :: "omci_env \<Rightarrow> (Flow \<Rightarrow> bool) \<Rightarrow> onu_op \<Rightarrow> onu_world \<Rightarrow> onu_world go" where
  "onu_exec env client op w =
     (case op of
        OpStep \<Rightarrow> go_bind (ProcessOnuMessages_step env client w) (\<lambda>r. Ret (case r of None \<Rightarrow> w | Some (_, w') \<Rightarrow> w'))
      | OpQueue m \<Rightarrow> onu_send m w
      | OpEvent e \<Rightarrow> go_bind (onu_Event e w) (\<lambda>(_, w'). Ret w')
      | OpShutdown \<Rightarrow> go_bind (HandleShutdownONU w) (\<lambda>(_, w'). Ret w')
      | OpPowerOn del \<Rightarrow> go_bind (HandlePowerOnONU del w) (\<lambda>(_, w'). Ret w')
      | OpReboot del \<Rightarrow> go_bind (onu_Reboot del w) (\<lambda>(_, w'). Ret w')
      | OpAlarm t s \<Rightarrow> go_bind (onu_SetAlarm t s w) (\<lambda>(_, w'). Ret w')
      | OpReDiscover del \<Rightarrow> ReDiscoverOnu del w
      | OpRetry \<Rightarrow> Ret (discovery_retry (oe_stream env) w)
      | OpLater del a \<Rightarrow> omci_later env del a w
      | OpUniPackets i \<Rightarrow> onu_uni_packets i w
      | OpService oltId i k task \<Rightarrow> onu_service_run oltId i k task w
      | OpSetID n \<Rightarrow> Ret (on_onu (SetID n) w)
      | OpInvalidateMds r \<Rightarrow> Ret (on_onu (InvalidateMibDataSync r) w)
      | OpTables t \<Rightarrow> Ret (if tables_ok t then w\<lparr>w_pon := t\<rparr> else w)
      | OpOltChannel c \<Rightarrow> Ret (w\<lparr>w_olt := c\<rparr>))"

inductive onu_reachable :: "omci_env \<Rightarrow> (Flow \<Rightarrow> bool) \<Rightarrow> onu_world \<Rightarrow> bool" for env client where
  created: "CreateONU c ref ponId onuId tags = Ret (o1, tags') \<Longrightarrow> tables_ok t \<Longrightarrow>
    onu_reachable env client \<lparr>w_onu = o1, w_pon = t, w_olt = ch, w_sent = sent\<rparr>"
| step: "onu_reachable env client w \<Longrightarrow> onu_exec env client op w = Ret w' \<Longrightarrow> onu_reachable env client w'"

lemma onu_exec_keeps:
  assumes "world_ok w"
  shows "ensures world_ok (onu_exec env client op w)"
proof (cases op)
  case OpStep
  have "ensures (\<lambda>r. case r of None \<Rightarrow> True | Some r \<Rightarrow> world_ok (snd r)) (ProcessOnuMessages_step env client w)"
    using ProcessOnuMessages_step_ok[OF assms] by (auto simp: ensures_def split: option.splits)
  then show ?thesis using OpStep assms by (auto simp: onu_exec_def split_beta intro!: ensures_bind split: option.splits)
next
  case (OpRetry)
  then show ?thesis using assms by (simp add: onu_exec_def discovery_retry_def)
next
  case (OpUniPackets i)
  then show ?thesis using onu_uni_packets_ok[OF assms] by (simp add: onu_exec_def ensures_def)
next
  case (OpService oltId i k task)
  then show ?thesis using onu_service_run_ok[OF assms] by (simp add: onu_exec_def ensures_def)
next
  case (OpSetID n)
  then show ?thesis using world_ok_on_onu[OF assms, of "SetID n"] by (simp add: onu_exec_def SetID_def same_core_def)
next
  case (OpInvalidateMds r)
  then show ?thesis using world_ok_on_onu[OF assms, of "InvalidateMibDataSync r"]
    by (simp add: onu_exec_def InvalidateMibDataSync_def same_core_def Let_def)
next
  case (OpTables t)
  then show ?thesis using assms by (simp add: onu_exec_def world_ok_def)
next
  case (OpOltChannel c)
  then show ?thesis using assms by (simp add: onu_exec_def world_ok_def)
qed (auto simp: onu_exec_def split_beta assms power_steps_keep ReDiscoverOnu_keeps omci_later_keeps
   intro: ensures_bind[OF power_steps_keep(1)[OF assms]] ensures_bind[OF HandleShutdownONU_keeps[OF assms]]
     ensures_bind[OF HandlePowerOnONU_keeps[OF assms]] ensures_bind[OF onu_Reboot_keeps[OF assms]] ensures_bind[OF onu_SetAlarm_keeps[OF assms]])

lemma NewService_stopped: "\<not> initialized (NewService c)"
  by (simp add: NewService_def new_service_state_def NewFSM_def)

lemma new_uni_service_ok:
  assumes "new_uni_service pl k s t = Ret (x, t')"
  shows "service_ok x \<and> \<not> initialized x"
proof -
  obtain c where "x = NewService c" using assms by (auto simp: new_uni_service_def go_simps)
  then show ?thesis by (simp add: NewService_stopped)
qed

lemma new_uni_services_ok:
  assumes "new_uni_services pl k ss t = Ret (xs, t')"
  shows "\<forall>s \<in> set xs. service_ok s \<and> \<not> initialized s"
  using assms
proof (induction ss arbitrary: k t xs)
  case (Cons s ss)
  obtain x t1 xs' where "new_uni_service pl k s t = Ret (x, t1)" "new_uni_services pl (Suc k) ss t1 = Ret (xs', t')" "xs = x # xs'"
    using Cons.prems by (auto simp: go_simps)
  with new_uni_service_ok Cons.IH show ?case by simp
qed simp

lemma new_unis_ok: "new_unis ss pls t = Ret (us, t') \<Longrightarrow> \<forall>u \<in> set us. uni_ok u"
proof (induction ss pls t arbitrary: us t' rule: new_unis.induct)
  case (2 services pl pls t)
  obtain u t1 us' where u: "NewUniPort services pl t = Ret (Some (u, t1))" "new_unis services pls t1 = Ret (us', t')" "us = u # us'"
    using "2.prems" by (auto simp: go_simps split: option.splits)
  have "uni_ok u" using u(1) new_uni_services_ok
    by (auto simp: NewUniPort_def go_simps uni_ok_def uni_up_def make_chan_def split: if_split_asm)
  with "2.IH"[OF u(1) refl refl u(2)] u(3) show ?case by simp
qed simp

lemma CreateONU_ok: "CreateONU c ref ponId onuId tags = Ret (o1, tags') \<Longrightarrow> onu_ok o1"
  by (auto simp: CreateONU_def go_simps onu_ok_def powered_def dest: new_unis_ok)

lemma onu_reachable_ok: "onu_reachable env client w \<Longrightarrow> world_ok w"
proof (induction rule: onu_reachable.induct)
  case (created c ref ponId onuId tags o1 tags' t ch sent)
  then show ?case by (simp add: world_ok_def CreateONU_ok)
next
  case (step w op w')
  then show ?case using onu_exec_keeps by (auto simp: ensures_def)
qed

text \<open>
  C1: the states of an ONU. In every state that an ONU can reach from its creation, by any sequence of messages, OMCI requests,
  flows, packets, events, power operations, alarms and timers that return, with the packet loops of its UNIs, the loops and timers of its services and the control API
  at work at any moment, and with the tables and channels that
  it shares changed by others in between: its channel is nil exactly until it is first powered on, and
  open while it is powered; its operational state is up exactly while it is powered; the services of a
  UNI are initialised exactly while the UNI is up, and a UNI that is up reads its packets; the two channels of a service are open, and it
  has a stream, while it is initialised, and otherwise they are nil; and no table has a key twice.
\<close>

theorem onu_reachable_invariant:
  assumes "onu_reachable env client w"
  shows "(onu_Channel (w_onu w) = NilChan \<longleftrightarrow> onu_current w = OnuStateCreated)
     \<and> (powered (onu_current w) \<longrightarrow> (\<exists>q. onu_Channel (w_onu w) = Chan (Some 2048) q False))
     \<and> (current (onu_OperState (w_onu w)) = oper_up \<longleftrightarrow> powered (onu_current w))
     \<and> (\<forall>u \<in> set (UniPorts (w_onu w)). (\<forall>s \<in> set (Services u). initialized s \<longleftrightarrow> uni_up u) \<and> (uni_up u \<longrightarrow> uni_listening u))
     \<and> (\<forall>u \<in> set (UniPorts (w_onu w)). \<forall>s \<in> set (Services u).
          if initialized s then chan_open (svc_Channel s) \<and> chan_open (PacketCh s) \<and> svc_Stream s \<noteq> None
          else svc_Channel s = NilChan \<and> PacketCh s = NilChan)
     \<and> gomap_ok (AllocatedGemPorts (w_pon w)) \<and> gomap_ok (AllocatedOnuIds (w_pon w)) \<and> gomap_ok (AllocatedAllocIds (w_pon w))
     \<and> gomap_ok (onuAlarmsInfo (w_onu w))"
proof -
  note ok = onu_reachable_ok[OF assms]
  have "\<forall>u \<in> set (UniPorts (w_onu w)). \<forall>s \<in> set (Services u).
      if initialized s then chan_open (svc_Channel s) \<and> chan_open (PacketCh s) \<and> svc_Stream s \<noteq> None
      else svc_Channel s = NilChan \<and> PacketCh s = NilChan"
    using ok by (fastforce simp: world_ok_def onu_ok_def uni_ok_def service_ok_def open_unbuffered_iff)
  then show ?thesis using ok
    by (cases "onu_current w") (auto simp: world_ok_def onu_ok_def onu_current_def uni_ok_def tables_ok_def powered_def)
qed

definition sample_onu_config :: onu_config where
  "sample_onu_config = \<lparr>oc_oltId = 0, oc_OmciResponseRate = 10, oc_NumUni = 4, oc_NumPots = 0, oc_Technology = XGSPON, oc_Services = [],
     oc_inject = sample_inject, oc_mib_ser = (\<lambda>_. [])\<rparr>"

lemma sample_onu_created: "\<exists>o1 tags'. CreateONU sample_onu_config 1 0 1 \<lparr>nextCtag = [], nextStag = []\<rparr> = Ret (o1, tags')"
proof -
  obtain db where "GenerateMibDatabase (\<lambda>_. []) sample_inject 4 0 XGSPON = Ret db"
    using GenerateMibDatabase_plain[of sample_inject "\<lambda>_. []" 4 0 XGSPON] by (auto simp: sample_inject_def)
  then show ?thesis
    by (simp add: CreateONU_def sample_onu_config_def upt_rec uni_place_def NewUniPort_def maxUniPorts_def)
qed

theorem onu_reachable_invariant_witness:
  "\<exists>w. onu_reachable sample_env (\<lambda>_. False) w \<and> onu_current w = OnuStateInitialized
     \<and> (\<exists>q. onu_Channel (w_onu w) = Chan (Some 2048) q False)"
proof -
  obtain o1 tags' where o1: "CreateONU sample_onu_config 1 0 1 \<lparr>nextCtag = [], nextStag = []\<rparr> = Ret (o1, tags')" using sample_onu_created by blast
  let ?w = "\<lparr>w_onu = o1, w_pon = empty_tables, w_olt = make_chan None, w_sent = []\<rparr>"
  have r: "onu_reachable sample_env (\<lambda>_. False) ?w" using onu_reachable.created[OF o1, of empty_tables] by simp
  have created: "onu_current ?w = OnuStateCreated" using o1 by (auto simp: CreateONU_def go_simps onu_current_def)
  let ?w' = "?w\<lparr>w_onu := initialized_onu o1\<rparr>"
  have "onu_exec sample_env (\<lambda>_. False) (OpEvent OnuTxInitialize) ?w = Ret ?w'"
    using onu_initialize_step[OF onu_reachable_ok[OF r]] created by (simp add: onu_exec_def)
  then have r': "onu_reachable sample_env (\<lambda>_. False) ?w'" by (rule onu_reachable.step[OF r])
  have "onu_current ?w' = OnuStateInitialized" by (simp add: onu_current_def initialized_onu_def)
  with onu_reachable_invariant[OF r'] r' show ?thesis by (auto simp: powered_def)
qed

section \<open>Flows\<close>

text \<open>
  C35: a flow that is still queued when the ONU is disabled. Let an ONU be disabled while the next message of its
  channel removes the flow \<open>f\<close>. If the ONU has no flows then, the disabling has closed the channel, and the
  message closes it again, which stops the process. If \<open>f\<close> is the only flow, the message closes the channel,
  once. If others remain, the channel stays open for them.
\<close>

theorem flow_removed_after_disable:
  assumes "world_ok w" "onu_current w \<in> disable_sources" "chan_room (onu_Channel (w_onu w)) (Suc (ports_up (w_onu w)))"
    and "chan_msgs (onu_Channel (w_onu w)) = FlowRemovedMsg f # q"
  shows "\<exists>w1. onu_Event OnuTxDisable w = Ret (None, w1)
     \<and> (if FlowIds (w_onu w) = [] then ProcessOnuMessages_step env client w1 = Panic CloseOfClosedChannel
        else \<exists>w2. ProcessOnuMessages_step env client w1 = Ret (Some ([], w2))
          \<and> FlowIds (w_onu w2) = remove1 (FlowId f) (FlowIds (w_onu w))
          \<and> (chan_open (onu_Channel (w_onu w2)) \<longleftrightarrow> FlowIds (w_onu w) \<noteq> [FlowId f]))"
proof -
  obtain us ps q' where d: "onu_Event OnuTxDisable w = Ret (None, w\<lparr>w_onu := disabled_onu (w_onu w) us ps
            (Chan (Some 2048) q' (FlowIds (w_onu w) = [])), w_pon := cleaned_tables (w_onu w) (w_pon w)\<rparr>)" (is "_ = Ret (None, ?w1)")
     and q': "q' = chan_msgs (onu_Channel (w_onu w)) @ OnuIndication DOWN # port_alarms (w_onu w)"
    using onu_disable_step[OF assms(1-3)] by blast
  have c: "onu_Channel (w_onu ?w1) = Chan (Some 2048) (FlowRemovedMsg f # q @ OnuIndication DOWN # port_alarms (w_onu w)) (FlowIds (w_onu w) = [])"
    using q' assms(4) by (simp add: disabled_onu_def)
  have ids: "FlowIds (w_onu ?w1) = FlowIds (w_onu w)" "onu_current ?w1 = OnuStateDisabled" by (simp_all add: disabled_onu_def onu_current_def)
  have one: "remove1 x xs = [] \<longleftrightarrow> xs = [] \<or> xs = [x]" for x and xs :: "uint64 list" by (cases xs) auto
  show ?thesis
    using ids c
    by (intro exI[of _ ?w1] conjI d)
       (auto simp: ProcessOnuMessages_step_def handle_onu_message_def handleFlowRemove_def Let_def onu_current_def one)
qed

theorem flow_removed_after_disable_witness:
  "\<exists>w1. onu_Event OnuTxDisable (on_onu (\<lambda>o1. o1\<lparr>onu_Channel := Chan (Some 2048) [FlowRemovedMsg (bbr_flow empty_classifier sample_onu)] False\<rparr>) sample_world)
       = Ret (None, w1) \<and> ProcessOnuMessages_step sample_env (\<lambda>_. False) w1 = Panic CloseOfClosedChannel"
proof -
  let ?f = "bbr_flow empty_classifier sample_onu"
  let ?w = "on_onu (\<lambda>o1. o1\<lparr>onu_Channel := Chan (Some 2048) [FlowRemovedMsg ?f] False\<rparr>) sample_world"
  have "world_ok ?w" using sample_world_ok(1,2) by (simp add: world_ok_def onu_ok_def powered_def onu_current_def)
  moreover have "onu_current ?w \<in> disable_sources" using sample_world_ok(2) by (simp add: onu_current_def disable_sources_def)
  moreover have "chan_room (onu_Channel (w_onu ?w)) (Suc (ports_up (w_onu ?w)))" using sample_world_ok(3) by (simp add: chan_room_def ports_up_def)
  moreover have "chan_msgs (onu_Channel (w_onu ?w)) = FlowRemovedMsg ?f # []" by simp
  ultimately show ?thesis
    using flow_removed_after_disable[of ?w ?f "[]" sample_env "\<lambda>_. False"] sample_world_ok(5) by simp
qed

end
