(* ===== verification/Pon.thy ===== *)
theory Pon
  imports OnuReach
begin

text \<open>
  A PON port (\<open>internal/bbsim/devices/pon.go\<close>): its ONUs and resource tables, its two state machines, and what enabling
  and disabling it does to the ONUs. The ONUs of a port share its tables, the channel of the OLT and the
  stream, so the loops over them pass these from one to the next.
\<close>

section \<open>State\<close>

datatype mode = Default | OnlyONU | OnlyPON | Both

datatype pon_state = pon_created | pon_enabled | pon_disabled
datatype pon_event = pon_enable | pon_disable

definition pon_events :: "(pon_event, pon_state) EventDesc list" where
  "pon_events = [\<lparr>Name = pon_enable, Src = [pon_created, pon_disabled], Dst = pon_enabled\<rparr>,
     \<lparr>Name = pon_disable, Src = [pon_enabled], Dst = pon_disabled\<rparr>]"

definition new_pon_state :: "(pon_event, pon_state) FSM" where
  "new_pon_state = NewFSM pon_created pon_events"

record PonPort =
  pon_ID :: uint32
  Onus :: "Onu list"
  pon_InternalState :: "(pon_event, pon_state) FSM"
  pon_OperState :: "(oper_event, oper_state) FSM"
  pon_Tables :: PonTables
  pon_PacketCount :: uint64

definition CreatePonPort :: "uint32 \<Rightarrow> PonPort" where
  "CreatePonPort i = \<lparr>pon_ID = i, Onus = [], pon_InternalState = new_pon_state, pon_OperState = new_oper_state, pon_Tables = empty_tables,
     pon_PacketCount = 0\<rparr>"

text \<open>The port with the channel of the OLT and the indications sent.\<close>

record pon_world =
  pw_pon :: PonPort
  pw_olt :: "olt_message chan"
  pw_sent :: "Indication list"

section \<open>Loops over the ONUs\<close>

type_synonym pon_shared = "PonTables \<times> olt_message chan \<times> Indication list"

definition onu_view :: "Onu \<Rightarrow> pon_shared \<Rightarrow> onu_world" where
  "onu_view o1 sh = \<lparr>w_onu = o1, w_pon = fst sh, w_olt = fst (snd sh), w_sent = snd (snd sh)\<rparr>"

definition on_view :: "(onu_world \<Rightarrow> onu_world go) \<Rightarrow> Onu \<Rightarrow> pon_shared \<Rightarrow> (Onu \<times> pon_shared) go" where
  "on_view f o1 sh = go_bind (f (onu_view o1 sh)) (\<lambda>w. Ret (w_onu w, w_pon w, w_olt w, w_sent w))"

definition pon_shared :: "pon_world \<Rightarrow> pon_shared" where
  "pon_shared pw = (pon_Tables (pw_pon pw), pw_olt pw, pw_sent pw)"

definition each_onu :: "(onu_world \<Rightarrow> onu_world go) \<Rightarrow> pon_world \<Rightarrow> pon_world go" where
  "each_onu f pw =
     go_bind (go_each (on_view f) (Onus (pw_pon pw)) (pon_shared pw)) (\<lambda>(onus, sh).
     Ret \<lparr>pw_pon = (pw_pon pw)\<lparr>Onus := onus, pon_Tables := fst sh\<rparr>, pw_olt = fst (snd sh), pw_sent = snd (snd sh)\<rparr>)"

section \<open>Enabling and disabling\<close>

text \<open>An event whose error is only logged.\<close>

definition onu_try :: "onu_event \<Rightarrow> onu_world \<Rightarrow> onu_world go" where
  "onu_try e w = go_bind (onu_Event e w) (\<lambda>(_, w'). Ret w')"

definition init_and_discover :: "onu_world \<Rightarrow> onu_world go" where
  "init_and_discover w = go_bind (event_ok OnuTxInitialize w) (\<lambda>(ok, w1). if ok then onu_try OnuTxDiscover w1 else Ret w1)"

definition reenable_onu :: "onu_world \<Rightarrow> onu_world go" where
  "reenable_onu w =
     (if onu_current w = OnuStatePonDisabled then onu_try OnuTxEnable w
      else if onu_current w = OnuStateDisabled then init_and_discover w
      else if onu_current w = OnuStateInitialized then onu_try OnuTxDiscover w
      else Ret w)"

definition enter_pon_enabled :: "mode \<Rightarrow> pon_state \<Rightarrow> pon_world \<Rightarrow> pon_world go" where
  "enter_pon_enabled m src pw =
     (if src = pon_created then (if m = Default \<or> m = OnlyPON then each_onu init_and_discover pw else Ret pw)
      else if src = pon_disabled then (if m = OnlyONU \<or> m = Both then each_onu (onu_try OnuTxInitialize) pw else each_onu reenable_onu pw)
      else Ret pw)"

definition pon_disable_onu :: "onu_world \<Rightarrow> onu_world go" where
  "pon_disable_onu w =
     (if onu_current w = OnuStateInitialized \<or> onu_current w = OnuStateDisabled then Ret w else onu_try OnuTxPonDisable w)"

definition enter_pon :: "mode \<Rightarrow> (pon_event, pon_state) Event \<Rightarrow> pon_world \<Rightarrow> pon_world go" where
  "enter_pon m ev pw =
     (case ev_Dst ev of pon_enabled \<Rightarrow> enter_pon_enabled m (ev_Src ev) pw
      | pon_disabled \<Rightarrow> each_onu pon_disable_onu pw
      | pon_created \<Rightarrow> Ret pw)"

definition on_pon_port :: "(PonPort \<Rightarrow> PonPort) \<Rightarrow> pon_world \<Rightarrow> pon_world" where
  "on_pon_port f pw = pw\<lparr>pw_pon := f (pw_pon pw)\<rparr>"

definition put_pon_state :: "(pon_event, pon_state) FSM \<Rightarrow> pon_world \<Rightarrow> pon_world" where
  "put_pon_state f = on_pon_port (\<lambda>p. p\<lparr>pon_InternalState := f\<rparr>)"

definition pon_Event :: "mode \<Rightarrow> pon_event \<Rightarrow> pon_world \<Rightarrow> ((pon_event, pon_state) fsm_error option \<times> pon_world) go" where
  "pon_Event m = fsm_Event (pon_InternalState \<circ> pw_pon) put_pon_state (enter_callbacks (enter_pon m))"

text \<open>The second indication is sent only if the first one was.\<close>

definition sendPonIndication :: "stream \<Rightarrow> PonPort \<Rightarrow> Indication list \<Rightarrow> Indication list" where
  "sendPonIndication st p sent =
     (let s = oper_state_string (current (pon_OperState p)); (ok, sent1) = Send st (IntfInd (pon_ID p) s) sent
      in if ok then snd (Send st (IntfOperInd ''pon'' (pon_ID p) s 0) sent1) else sent1)"

definition put_pon_oper :: "(oper_event, oper_state) FSM \<Rightarrow> pon_world \<Rightarrow> pon_world" where
  "put_pon_oper f = on_pon_port (\<lambda>p. p\<lparr>pon_OperState := f\<rparr>)"

definition pon_oper_Event :: "stream \<Rightarrow> oper_event \<Rightarrow> pon_world \<Rightarrow> ((oper_event, oper_state) fsm_error option \<times> pon_world) go" where
  "pon_oper_Event st = fsm_Event (pon_OperState \<circ> pw_pon) put_pon_oper
     (enter_callbacks (\<lambda>_ pw. Ret (pw\<lparr>pw_sent := sendPonIndication st (pw_pon pw) (pw_sent pw)\<rparr>)))"

section \<open>Look-ups\<close>

text \<open>Serial numbers are compared by their vendor specific part only.\<close>

definition GetOnuBySn :: "byte list \<Rightarrow> Onu list \<Rightarrow> nat option" where
  "GetOnuBySn vendorSpecific onus = find_idx (\<lambda>o1. VendorSpecific (onu_SerialNumber o1) = vendorSpecific) onus"

definition GetOnuById :: "uint32 \<Rightarrow> Onu list \<Rightarrow> nat option" where
  "GetOnuById i onus = find_idx (\<lambda>o1. onu_ID o1 = i) onus"

definition active_onu :: "Onu \<Rightarrow> bool" where
  "active_onu o1 \<longleftrightarrow> current (onu_InternalState o1) \<notin> {OnuStateInitialized, OnuStateCreated, OnuStateDisabled}"

definition GetNumOfActiveOnus :: "PonPort \<Rightarrow> uint32" where
  "GetNumOfActiveOnus p = fold (\<lambda>o1 n. if active_onu o1 then n + 1 else n) (Onus p) 0"

interpretation onu_by_sn: slice_lookup GetOnuBySn "\<lambda>sn o1. VendorSpecific (onu_SerialNumber o1) = sn"
  by unfold_locales (simp add: GetOnuBySn_def find_idx_Some)

interpretation onu_by_id: slice_lookup GetOnuById "\<lambda>i o1. onu_ID o1 = i"
  by unfold_locales (simp add: GetOnuById_def find_idx_Some)

section \<open>Invariant\<close>

definition pon_ok :: "PonPort \<Rightarrow> bool" where
  "pon_ok p \<longleftrightarrow> transitions (pon_InternalState p) = transitions new_pon_state \<and> transitions (pon_OperState p) = transitions new_oper_state
     \<and> (\<forall>o1 \<in> set (Onus p). onu_ok o1) \<and> tables_ok (pon_Tables p)"

lemma pon_next:
  "map_of (transitions new_pon_state) (e, s) =
     (case e of pon_enable \<Rightarrow> if s \<in> {pon_created, pon_disabled} then Some pon_enabled else None
      | pon_disable \<Rightarrow> if s = pon_enabled then Some pon_disabled else None)"
  by (cases e) (auto simp: new_pon_state_def NewFSM_def pon_events_def)

lemma onu_view_simps [simp]:
  "w_onu (onu_view o1 sh) = o1" "w_pon (onu_view o1 sh) = fst sh"
  "world_ok (onu_view o1 sh) \<longleftrightarrow> onu_ok o1 \<and> tables_ok (fst sh)" "onu_current (onu_view o1 sh) = current (onu_InternalState o1)"
  by (simp_all add: onu_view_def world_ok_def onu_current_def)

text \<open>What every step does to its ONU, whatever the shared tables, holds for the whole loop.\<close>

lemma each_onu_run:
  assumes step: "\<And>w. world_ok w \<Longrightarrow> P (w_onu w) \<Longrightarrow> \<exists>w'. f w = Ret w' \<and> world_ok w' \<and> R (w_onu w) (w_onu w')"
    and "pon_ok (pw_pon pw)" "\<forall>o1 \<in> set (Onus (pw_pon pw)). P o1"
  shows "\<exists>pw' onus t. each_onu f pw = Ret pw' \<and> pw_pon pw' = (pw_pon pw)\<lparr>Onus := onus, pon_Tables := t\<rparr>
     \<and> pon_ok (pw_pon pw') \<and> list_all2 R (Onus (pw_pon pw)) onus"
proof -
  have run: "\<exists>onus sh'. go_each (on_view f) os sh = Ret (onus, sh') \<and> tables_ok (fst sh') \<and> (\<forall>x \<in> set onus. onu_ok x) \<and> list_all2 R os onus"
    if "tables_ok (fst sh)" "\<forall>x \<in> set os. onu_ok x \<and> P x" for os sh
    using that
  proof (induction os arbitrary: sh)
    case (Cons x os)
    obtain w' where w': "f (onu_view x sh) = Ret w'" "world_ok w'" "R x (w_onu w')" using step[of "onu_view x sh"] Cons.prems by auto
    have "tables_ok (w_pon w')" "onu_ok (w_onu w')" using w'(2) by (simp_all add: world_ok_def)
    with Cons.IH[of "(w_pon w', w_olt w', w_sent w')"] Cons.prems(2) obtain onus sh' where
      "go_each (on_view f) os (w_pon w', w_olt w', w_sent w') = Ret (onus, sh')" "tables_ok (fst sh')" "\<forall>x \<in> set onus. onu_ok x" "list_all2 R os onus"
      by auto
    moreover have "on_view f x sh = Ret (w_onu w', w_pon w', w_olt w', w_sent w')" using w'(1) by (simp add: on_view_def)
    ultimately show ?case using w'(3) \<open>onu_ok (w_onu w')\<close> by (intro exI[of _ "w_onu w' # onus"] exI[of _ sh']) simp
  qed simp
  have "tables_ok (fst (pon_shared pw))" "\<forall>x \<in> set (Onus (pw_pon pw)). onu_ok x \<and> P x" using assms(2,3) by (auto simp: pon_shared_def pon_ok_def)
  from run[OF this] obtain onus sh' where "go_each (on_view f) (Onus (pw_pon pw)) (pon_shared pw) = Ret (onus, sh')" "tables_ok (fst sh')"
    "\<forall>x \<in> set onus. onu_ok x" "list_all2 R (Onus (pw_pon pw)) onus" by blast
  with assms(2) show ?thesis
    by (simp add: each_onu_def pon_ok_def) (rule exI[of _ onus], auto)
qed

section \<open>One ONU\<close>

lemma onu_Event_moves:
  assumes "world_ok w" "map_of (transitions new_onu_state) (e, onu_current w) = Some d" "d \<noteq> onu_current w" "onu_Event e w = Ret (r, w')"
  shows "world_ok w' \<and> onu_current w' = d \<and> r = None"
proof -
  note okd = onu_okD[OF assms(1)[unfolded world_ok_def, THEN conjunct1]]
  have "enter_onu \<lparr>ev_Event = e, ev_Src = onu_current w, ev_Dst = d\<rparr> (onu_put (SetState d (onu_InternalState (w_onu w))) w) = Ret w'" "r = None"
    using onu_Event_step[OF okd(1) assms(2,3)] assms(4) by (auto simp: go_simps)
  then show ?thesis using enter_onu_keeps onu_Event_ok[OF assms(1,4)] by (fastforce simp: onu_current_def onu_put_def)
qed

definition pon_disable_sources :: "onu_state set" where
  "pon_disable_sources = {OnuStateEnabled, OnuStateImageActivated, OnuStateImageDownloadError, OnuStateImageCommitted, OnuStateImageDownloadComplete}"

definition after_pon_down :: "onu_state \<Rightarrow> onu_state" where
  "after_pon_down s = (if s \<in> pon_disable_sources then OnuStatePonDisabled else s)"

lemma pon_disable_onu_run:
  assumes "world_ok w"
  shows "\<exists>w'. pon_disable_onu w = Ret w' \<and> world_ok w' \<and> current (onu_InternalState (w_onu w')) = after_pon_down (onu_current w)
     \<and> onu_Channel (w_onu w') = onu_Channel (w_onu w)"
proof (cases "onu_current w \<in> pon_disable_sources")
  case True
  note okd = onu_okD[OF assms[unfolded world_ok_def, THEN conjunct1]]
  have d: "map_of (transitions new_onu_state) (OnuTxPonDisable, onu_current w) = Some OnuStatePonDisabled" "OnuStatePonDisabled \<noteq> onu_current w"
    using True by (auto simp: pon_disable_sources_def onu_next)
  let ?w' = "cleanupOnuState (onu_put (SetState OnuStatePonDisabled (onu_InternalState (w_onu w))) w)"
  have ev: "onu_Event OnuTxPonDisable w = Ret (None, ?w')" using onu_Event_step[OF okd(1) d] by (simp add: enter_onu_def)
  moreover have "onu_Channel (w_onu ?w') = onu_Channel (w_onu w)" by (simp add: cleanupOnuState_def onu_put_def Let_def)
  ultimately show ?thesis
    using True onu_Event_moves[OF assms d ev] by (auto simp: pon_disable_onu_def onu_try_def after_pon_down_def onu_current_def pon_disable_sources_def)
next
  case False
  have "map_of (transitions new_onu_state) (OnuTxPonDisable, onu_current w) = None" using False by (auto simp: pon_disable_sources_def onu_next)
  then show ?thesis using False onu_Event_rejected[of w OnuTxPonDisable] assms
    by (auto simp: pon_disable_onu_def onu_try_def after_pon_down_def onu_current_def world_ok_def onu_ok_def)
qed

definition after_pon_up :: "onu_state \<Rightarrow> onu_state" where
  "after_pon_up s = (if s = OnuStatePonDisabled then OnuStateEnabled
     else if s \<in> {OnuStateDisabled, OnuStateInitialized} then OnuStateDiscovered else s)"

lemma onu_try_moves:
  assumes "world_ok w" "map_of (transitions new_onu_state) (e, onu_current w) = Some d" "d \<noteq> onu_current w" "\<exists>r. onu_Event e w = Ret r"
  shows "\<exists>w'. onu_try e w = Ret w' \<and> world_ok w' \<and> onu_current w' = d"
  using assms(4) onu_Event_moves[OF assms(1-3)] by (fastforce simp: onu_try_def)

lemma discover_returns:
  assumes "world_ok w" "onu_current w = OnuStateInitialized" "chan_room (onu_Channel (w_onu w)) 1"
  shows "\<exists>w'. onu_try OnuTxDiscover w = Ret w' \<and> world_ok w' \<and> onu_current w' = OnuStateDiscovered"
proof -
  obtain q where q: "onu_Channel (w_onu w) = Chan (Some 2048) q False" using assms(1,2) by (auto simp: world_ok_def onu_ok_def powered_def onu_current_def)
  then have "length q < 2048" using assms(3) by (simp add: chan_room_def)
  with onu_discover_step[OF assms(1,2) q] show ?thesis using assms(1,2) by (intro onu_try_moves) (auto simp: onu_next)
qed

lemma init_and_discover_run:
  assumes "world_ok w" "onu_current w \<in> {OnuStateCreated, OnuStateDisabled, OnuStatePonDisabled}"
  shows "\<exists>w'. init_and_discover w = Ret w' \<and> world_ok w' \<and> onu_current w' = OnuStateDiscovered"
proof -
  let ?w1 = "w\<lparr>w_onu := initialized_onu (w_onu w)\<rparr>"
  have ev: "onu_Event OnuTxInitialize w = Ret (None, ?w1)" by (rule onu_initialize_step[OF assms])
  have ok: "world_ok ?w1" using onu_Event_ok[OF assms(1) ev] .
  have "onu_current ?w1 = OnuStateInitialized" "chan_room (onu_Channel (w_onu ?w1)) 1" by (simp_all add: onu_current_def initialized_onu_def chan_room_def)
  from discover_returns[OF ok this] show ?thesis by (simp add: init_and_discover_def event_ok_def ev)
qed

lemma reenable_onu_run:
  assumes "world_ok w" "powered (onu_current w) \<longrightarrow> chan_room (onu_Channel (w_onu w)) 1"
  shows "\<exists>w'. reenable_onu w = Ret w' \<and> world_ok w' \<and> current (onu_InternalState (w_onu w')) = after_pon_up (onu_current w)"
proof -
  consider "onu_current w = OnuStatePonDisabled" | "onu_current w = OnuStateDisabled" | "onu_current w = OnuStateInitialized"
    | "onu_current w \<notin> {OnuStatePonDisabled, OnuStateDisabled, OnuStateInitialized}" by blast
  then show ?thesis
  proof cases
    case 1
    note okd = onu_okD[OF assms(1)[unfolded world_ok_def, THEN conjunct1]]
    obtain q where q: "onu_Channel (w_onu w) = Chan (Some 2048) q False" "length q < 2048"
      using assms 1 by (auto simp: world_ok_def onu_ok_def powered_def onu_current_def chan_room_def)
    have "\<exists>r. onu_Event OnuTxEnable w = Ret r"
      using onu_Event_step[OF okd(1), of OnuTxEnable OnuStateEnabled] 1 q
      by (simp add: onu_next enter_onu_def enter_onu_enabled_def Let_def onu_send_def onu_put_def)
    then obtain w' where "onu_try OnuTxEnable w = Ret w'" "world_ok w'" "onu_current w' = OnuStateEnabled"
      using onu_try_moves[OF assms(1), of OnuTxEnable OnuStateEnabled] 1 by (auto simp: onu_next)
    then show ?thesis using 1 by (simp add: reenable_onu_def after_pon_up_def onu_current_def)
  next
    case 2
    then show ?thesis using init_and_discover_run[OF assms(1)] by (auto simp: reenable_onu_def after_pon_up_def onu_current_def)
  next
    case 3
    then show ?thesis using discover_returns[OF assms(1) 3] assms(2) by (auto simp: reenable_onu_def after_pon_up_def onu_current_def powered_def)
  next
    case 4
    then show ?thesis using assms(1) by (auto simp: reenable_onu_def after_pon_up_def onu_current_def)
  qed
qed

section \<open>A PON goes down and comes up\<close>

lemma pon_Event_step:
  assumes "pon_ok (pw_pon pw)" "map_of (transitions new_pon_state) (e, current (pon_InternalState (pw_pon pw))) = Some d"
    "d \<noteq> current (pon_InternalState (pw_pon pw))"
  shows "pon_Event m e pw = go_bind (enter_pon m \<lparr>ev_Event = e, ev_Src = current (pon_InternalState (pw_pon pw)), ev_Dst = d\<rparr>
           (put_pon_state (SetState d (pon_InternalState (pw_pon pw))) pw)) (\<lambda>pw'. Ret (None, pw'))"
  using assms by (simp add: pon_Event_def fsm_Event_def Let_def pon_ok_def)

lemma active_count: "fold (\<lambda>o1 n. if active_onu o1 then n + 1 else n) os n = (n :: uint32) + of_nat (length (filter active_onu os))"
  by (induction os arbitrary: n) (auto simp: algebra_simps)

text \<open>
  C19: a PON that goes down and comes up again. On an enabled port in a mode that activates ONUs by itself, with
  one free slot in the channel of every powered ONU, disabling and enabling the port both return. Every ONU that was
  enabled, or was done with an image in a state from which the port disables it, is enabled again; an ONU that was disabled
  or initialised is discovered; all others are as they were. The tables and the ONUs are well-formed, and all ONUs but
  those never powered on count as active.
\<close>

theorem pon_cycle:
  assumes "pon_ok (pw_pon pw)" "current (pon_InternalState (pw_pon pw)) = pon_enabled" "m = Default \<or> m = OnlyPON"
    and "\<forall>o1 \<in> set (Onus (pw_pon pw)). powered (current (onu_InternalState o1)) \<longrightarrow> chan_room (onu_Channel o1) 1"
  shows "\<exists>pw1 pw2. pon_Event m pon_disable pw = Ret (None, pw1) \<and> pon_Event m pon_enable pw1 = Ret (None, pw2) \<and> pon_ok (pw_pon pw2)
     \<and> map (\<lambda>o1. current (onu_InternalState o1)) (Onus (pw_pon pw2))
         = map (\<lambda>o1. after_pon_up (after_pon_down (current (onu_InternalState o1)))) (Onus (pw_pon pw))
     \<and> GetNumOfActiveOnus (pw_pon pw2) = of_nat (length (filter (\<lambda>o1. current (onu_InternalState o1) \<noteq> OnuStateCreated) (Onus (pw_pon pw))))"
proof -
  define R1 where "R1 = (\<lambda>(a :: Onu) (b :: Onu). current (onu_InternalState b) = after_pon_down (current (onu_InternalState a)) \<and> onu_Channel b = onu_Channel a)"
  define R2 where "R2 = (\<lambda>(a :: Onu) (b :: Onu). current (onu_InternalState b) = after_pon_up (current (onu_InternalState a)))"
  let ?room = "\<lambda>o1. powered (current (onu_InternalState o1)) \<longrightarrow> chan_room (onu_Channel o1) 1"
  let ?pw0 = "put_pon_state (SetState pon_disabled (pon_InternalState (pw_pon pw))) pw"
  have pw0: "pon_ok (pw_pon ?pw0)" "Onus (pw_pon ?pw0) = Onus (pw_pon pw)" "current (pon_InternalState (pw_pon ?pw0)) = pon_disabled"
    using assms(1) by (simp_all add: put_pon_state_def on_pon_port_def pon_ok_def)
  obtain pw1 os1 t1 where d: "each_onu pon_disable_onu ?pw0 = Ret pw1" "pw_pon pw1 = (pw_pon ?pw0)\<lparr>Onus := os1, pon_Tables := t1\<rparr>"
    "pon_ok (pw_pon pw1)" "list_all2 R1 (Onus (pw_pon pw)) os1"
    using each_onu_run[of "\<lambda>_. True" pon_disable_onu R1 ?pw0] pon_disable_onu_run pw0(1) unfolding R1_def pw0(2) onu_current_def by auto
  have ev1: "pon_Event m pon_disable pw = Ret (None, pw1)"
    using pon_Event_step[OF assms(1), of pon_disable pon_disabled m] assms(2) d(1) by (simp add: pon_next enter_pon_def)
  have st1: "current (pon_InternalState (pw_pon pw1)) = pon_disabled" using pw0(3) d(2) by simp
  let ?pw1 = "put_pon_state (SetState pon_enabled (pon_InternalState (pw_pon pw1))) pw1"
  have pw1: "pon_ok (pw_pon ?pw1)" "Onus (pw_pon ?pw1) = os1" using d(2,3) by (simp_all add: put_pon_state_def on_pon_port_def pon_ok_def)
  have "powered (after_pon_down s) \<longrightarrow> powered s" for s by (auto simp: after_pon_down_def pon_disable_sources_def powered_def)
  then have room1: "\<forall>x \<in> set os1. ?room x" using d(4) assms(4) by (fastforce simp: R1_def in_set_conv_nth list_all2_conv_all_nth)
  obtain pw2 os2 t2 where u: "each_onu reenable_onu ?pw1 = Ret pw2" "pw_pon pw2 = (pw_pon ?pw1)\<lparr>Onus := os2, pon_Tables := t2\<rparr>"
    "pon_ok (pw_pon pw2)" "list_all2 R2 os1 os2"
    using each_onu_run[of ?room reenable_onu R2 ?pw1] reenable_onu_run pw1(1) room1 unfolding R2_def pw1(2) onu_current_def by auto
  have ev2: "pon_Event m pon_enable pw1 = Ret (None, pw2)"
    using pon_Event_step[OF d(3), of pon_enable pon_enabled m] st1 u(1) assms(3) by (auto simp: pon_next enter_pon_def enter_pon_enabled_def)
  have states: "map (\<lambda>o1. current (onu_InternalState o1)) (Onus (pw_pon pw2))
      = map (\<lambda>o1. after_pon_up (after_pon_down (current (onu_InternalState o1)))) (Onus (pw_pon pw))"
    using d(4) u(2,4) by (auto simp: R1_def R2_def list_all2_conv_all_nth intro!: nth_equalityI)
  have "length (filter active_onu (Onus (pw_pon pw2))) = length (filter (\<lambda>s. s \<notin> {OnuStateInitialized, OnuStateCreated, OnuStateDisabled})
      (map (\<lambda>o1. current (onu_InternalState o1)) (Onus (pw_pon pw2))))" by (simp add: filter_map comp_def active_onu_def[abs_def])
  moreover have "after_pon_up (after_pon_down s) \<notin> {OnuStateInitialized, OnuStateCreated, OnuStateDisabled} \<longleftrightarrow> s \<noteq> OnuStateCreated" for s
    by (auto simp: after_pon_up_def after_pon_down_def pon_disable_sources_def)
  ultimately show ?thesis
    using ev1 ev2 u(3) states by (simp add: GetNumOfActiveOnus_def active_count filter_map comp_def)
qed

definition sample_pon :: pon_world where
  "sample_pon = \<lparr>pw_pon = (CreatePonPort 0)\<lparr>Onus := [sample_onu], pon_InternalState := SetState pon_enabled new_pon_state\<rparr>,
     pw_olt = make_chan None, pw_sent = []\<rparr>"

theorem pon_cycle_witness:
  "\<exists>pw1 pw2. pon_Event Default pon_disable sample_pon = Ret (None, pw1) \<and> pon_Event Default pon_enable pw1 = Ret (None, pw2)
     \<and> map (\<lambda>o1. current (onu_InternalState o1)) (Onus (pw_pon pw2)) = [OnuStateEnabled] \<and> GetNumOfActiveOnus (pw_pon pw2) = 1"
proof -
  have o1: "onu_ok sample_onu" "current (onu_InternalState sample_onu) = OnuStateEnabled" "chan_room (onu_Channel sample_onu) 1"
    using sample_world_ok by (simp_all add: sample_world_def world_ok_def onu_current_def chan_room_def)
  have "pon_ok (pw_pon sample_pon)" "current (pon_InternalState (pw_pon sample_pon)) = pon_enabled"
    using o1 by (simp_all add: sample_pon_def CreatePonPort_def pon_ok_def)
  moreover have "\<forall>o1 \<in> set (Onus (pw_pon sample_pon)). powered (current (onu_InternalState o1)) \<longrightarrow> chan_room (onu_Channel o1) 1"
    using o1(3) by (simp add: sample_pon_def)
  ultimately obtain pw1 pw2 where
    "pon_Event Default pon_disable sample_pon = Ret (None, pw1)" "pon_Event Default pon_enable pw1 = Ret (None, pw2)"
    "map (\<lambda>o1. current (onu_InternalState o1)) (Onus (pw_pon pw2))
       = map (\<lambda>o1. after_pon_up (after_pon_down (current (onu_InternalState o1)))) (Onus (pw_pon sample_pon))"
    "GetNumOfActiveOnus (pw_pon pw2) = of_nat (length (filter (\<lambda>o1. current (onu_InternalState o1) \<noteq> OnuStateCreated) (Onus (pw_pon sample_pon))))"
    using pon_cycle[of sample_pon Default] by blast
  then show ?thesis using o1(2) by (simp add: sample_pon_def after_pon_up_def after_pon_down_def pon_disable_sources_def)
qed

end
