(* ===== verification/FlowTables.thy ===== *)
theory FlowTables
  imports Types
begin

text \<open>
  The resources that the OLT learns from flows (\<open>internal/bbsim/devices/olt.go\<close>): which alloc-id and which GEM port is used
  by which flow, in maps nested by PON, ONU, port number, resource and flow. The nested maps
  implement a set of uses, which is what the lemmas are about.
\<close>

section \<open>Nested maps\<close>

type_synonym flow_set = "(uint64, bool) gomap"
type_synonym uni_resources = "(int32, flow_set) gomap"
type_synonym onu_resources = "(uint32, uni_resources) gomap"
type_synonym flow_table = "(uint32, (uint32, onu_resources) gomap) gomap"

text \<open>Reading a missing key gives the nil map, which reads as empty.\<close>

definition sub_map :: "('k, ('a, 'b) gomap) gomap \<Rightarrow> 'k \<Rightarrow> ('a, 'b) gomap" where
  "sub_map m k = (case map_of m k of Some v \<Rightarrow> v | None \<Rightarrow> [])"

definition map_vals :: "('v \<Rightarrow> 'w) \<Rightarrow> ('k, 'v) gomap \<Rightarrow> ('k, 'w) gomap" where
  "map_vals f m = map (\<lambda>(k, v). (k, f v)) m"

section \<open>Operations\<close>

text \<open>Without an entry for the ONU the write goes to a nil map.\<close>

definition store_resource :: "uint32 \<Rightarrow> uint32 \<Rightarrow> uint32 \<Rightarrow> int32 \<Rightarrow> uint64 \<Rightarrow> flow_table \<Rightarrow> flow_table go" where
  "store_resource ponId onuId portNo r flowId m =
     (case map_of (sub_map m ponId) onuId of None \<Rightarrow> Panic NilMapWrite
      | Some ports \<Rightarrow>
          let rs = sub_map ports portNo;
              ports' = AList.update portNo (AList.update r (AList.update flowId True (sub_map rs r)) rs) ports
          in Ret (AList.update ponId (AList.update onuId ports' (sub_map m ponId)) m))"

definition olt_storeAllocId :: "Flow \<Rightarrow> flow_table \<Rightarrow> flow_table go" where
  "olt_storeAllocId flow m =
     store_resource (ucast (AccessIntfId flow)) (ucast (fl_OnuId flow)) (fl_PortNo flow) (fl_AllocId flow) (FlowId flow) m"

text \<open>The boolean is \<open>True\<close> for a nil error.\<close>

definition storeGemPortId :: "uint32 \<Rightarrow> uint32 \<Rightarrow> uint32 \<Rightarrow> int32 \<Rightarrow> uint64 \<Rightarrow> flow_table \<Rightarrow> (bool \<times> flow_table) go" where
  "storeGemPortId ponId onuId portNo gemId flowId m =
     (if map_of (sub_map m ponId) onuId = None then Ret (False, m)
      else go_bind (store_resource ponId onuId portNo gemId flowId m) (\<lambda>m'. Ret (True, m')))"

definition flow_gems :: "Flow \<Rightarrow> int32 list" where
  "flow_gems flow = (if ReplicateFlow flow then map (\<lambda>(_, gem). ucast gem) (PbitToGemport flow) else [GemportId flow])"

fun store_gems :: "Flow \<Rightarrow> int32 list \<Rightarrow> flow_table \<Rightarrow> (bool \<times> flow_table) go" where
  "store_gems flow [] m = Ret (True, m)"
| "store_gems flow (gem # gems) m =
     go_bind (storeGemPortId (ucast (AccessIntfId flow)) (ucast (fl_OnuId flow)) (fl_PortNo flow) gem (FlowId flow) m) (\<lambda>(ok, m').
     if ok then store_gems flow gems m' else Ret (False, m'))"

definition storeGemPortIdByFlow :: "Flow \<Rightarrow> flow_table \<Rightarrow> (bool \<times> flow_table) go" where
  "storeGemPortIdByFlow flow = store_gems flow (flow_gems flow)"

text \<open>The body of the innermost loop of \<open>freeAllocId\<close> and \<open>freeGemPortId\<close>, and the loops around it.\<close>

definition free_flow :: "uint64 \<Rightarrow> int32 \<Rightarrow> uint64 \<Rightarrow> uni_resources \<Rightarrow> uni_resources" where
  "free_flow flow r flowId rs =
     (let rs1 = (if flow = flowId then AList.map_entry r (AList.delete flow) rs else rs)
      in if sub_map rs1 r = [] then AList.delete r rs1 else rs1)"

definition free_resource :: "uint64 \<Rightarrow> int32 \<times> flow_set \<Rightarrow> uni_resources \<Rightarrow> uni_resources" where
  "free_resource flow e rs = fold (\<lambda>(flowId, _). free_flow flow (fst e) flowId) (snd e) rs"

definition free_uni :: "uint64 \<Rightarrow> uni_resources \<Rightarrow> uni_resources" where
  "free_uni flow rs = fold (free_resource flow) rs rs"

definition freeFlowResources :: "Flow \<Rightarrow> flow_table \<Rightarrow> flow_table" where
  "freeFlowResources flow m = map_vals (map_vals (map_vals (free_uni (FlowId flow)))) m"

section \<open>Validation\<close>

datatype flow_error = GemInUse | AllocIdInUse

definition used_by_other_onu :: "uint32 \<Rightarrow> uint32 \<Rightarrow> int32 list \<Rightarrow> flow_table \<Rightarrow> bool" where
  "used_by_other_onu ponId onuId ids m =
     list_ex (\<lambda>(onu, ports). onu \<noteq> onuId \<and> list_ex (\<lambda>(_, rs). list_ex (\<lambda>(r, _). r \<in> set ids) rs) ports) (sub_map m ponId)"

definition validateFlow :: "Flow \<Rightarrow> flow_table \<Rightarrow> flow_table \<Rightarrow> flow_error option" where
  "validateFlow flow gems allocs =
     (if used_by_other_onu (ucast (AccessIntfId flow)) (ucast (fl_OnuId flow)) (flow_gems flow) gems then Some GemInUse
      else if used_by_other_onu (ucast (AccessIntfId flow)) (ucast (fl_OnuId flow)) [fl_AllocId flow] allocs then Some AllocIdInUse
      else None)"

section \<open>Sequences of operations\<close>

text \<open>The GEM ports and the alloc-ids.\<close>

type_synonym flow_tables = "flow_table \<times> flow_table"

datatype flow_result = Stored | Rejected flow_error | UnknownOnu

text \<open>The part of \<open>FlowAdd\<close> that validates and stores the resources of an ONU's flow.\<close>

definition add_flow_resources :: "Flow \<Rightarrow> flow_tables \<Rightarrow> (flow_result \<times> flow_tables) go" where
  "add_flow_resources flow t =
     (case validateFlow flow (fst t) (snd t) of Some e \<Rightarrow> Ret (Rejected e, t)
      | None \<Rightarrow> go_bind (storeGemPortIdByFlow flow (fst t)) (\<lambda>(ok, gems).
          if \<not> ok then Ret (UnknownOnu, gems, snd t)
          else go_bind (olt_storeAllocId flow (snd t)) (\<lambda>allocs. Ret (Stored, gems, allocs))))"

definition remove_flow_resources :: "Flow \<Rightarrow> flow_tables \<Rightarrow> flow_tables" where
  "remove_flow_resources flow t = (freeFlowResources flow (fst t), freeFlowResources flow (snd t))"

text \<open>The entry of an ONU in \<open>ActivateOnu\<close>, a write to a nil map if the PON has no entry, and of a PON in \<open>InitOlt\<close>.\<close>

definition activate_entry :: "uint32 \<Rightarrow> uint32 \<Rightarrow> flow_table \<Rightarrow> flow_table go" where
  "activate_entry ponId onuId m =
     (case map_of m ponId of None \<Rightarrow> Panic NilMapWrite | Some onus \<Rightarrow> Ret (AList.update ponId (AList.update onuId [] onus) m))"

definition init_entries :: "uint32 list \<Rightarrow> flow_table \<Rightarrow> flow_table" where
  "init_entries ponIds m = fold (\<lambda>p. AList.update p []) ponIds m"

datatype flow_op = InitPons "uint32 list" | ClearAll | Activate uint32 uint32 | AddFlow Flow | RemoveFlow Flow

definition flow_exec :: "flow_op \<Rightarrow> flow_tables \<Rightarrow> flow_tables go" where
  "flow_exec op t =
     (case op of
        InitPons ps \<Rightarrow> Ret (init_entries ps (fst t), init_entries ps (snd t))
      | ClearAll \<Rightarrow> Ret ([], [])
      | Activate p onu \<Rightarrow> go_bind (activate_entry p onu (snd t)) (\<lambda>allocs. go_bind (activate_entry p onu (fst t)) (\<lambda>gems. Ret (gems, allocs)))
      | AddFlow flow \<Rightarrow> go_bind (add_flow_resources flow t) (\<lambda>(_, t'). Ret t')
      | RemoveFlow flow \<Rightarrow> Ret (remove_flow_resources flow t))"

section \<open>The set of uses\<close>

text \<open>The flow \<open>f\<close> of the ONU \<open>onu\<close> on the PON \<open>p\<close> uses the resource \<open>r\<close> on the port \<open>u\<close>.\<close>

definition uses :: "flow_table \<Rightarrow> (uint32 \<times> uint32 \<times> uint32 \<times> int32 \<times> uint64) set" where
  "uses m = {(p, onu, u, r, f). map_of (sub_map (sub_map (sub_map (sub_map m p) onu) u) r) f \<noteq> None}"

definition known_onu :: "flow_table \<Rightarrow> uint32 \<Rightarrow> uint32 \<Rightarrow> bool" where
  "known_onu m p onu \<longleftrightarrow> map_of (sub_map m p) onu \<noteq> None"

text \<open>The lists are maps at every level, and a resource is listed only while a flow uses it.\<close>

definition maps_ok :: "('v \<Rightarrow> bool) \<Rightarrow> ('k, 'v) gomap \<Rightarrow> bool" where
  "maps_ok P m \<longleftrightarrow> gomap_ok m \<and> (\<forall>k v. map_of m k = Some v \<longrightarrow> P v)"

definition uni_resources_ok :: "uni_resources \<Rightarrow> bool" where
  "uni_resources_ok = maps_ok (\<lambda>fs. gomap_ok fs \<and> fs \<noteq> [])"

definition flow_table_ok :: "flow_table \<Rightarrow> bool" where
  "flow_table_ok = maps_ok (maps_ok (maps_ok uni_resources_ok))"

lemma map_of_map_vals: "map_of (map_vals f m) k = map_option f (map_of m k)"
  by (induction m) (auto simp: map_vals_def)

lemma sub_map_map_vals [simp]: "f [] = [] \<Longrightarrow> sub_map (map_vals f m) k = f (sub_map m k)"
  by (auto simp: sub_map_def map_of_map_vals split: option.splits)

lemma map_vals_Nil [simp]: "map_vals f [] = []"
  by (simp add: map_vals_def)

lemma sub_map_update [simp]: "sub_map (AList.update k v m) k' = (if k' = k then v else sub_map m k')"
  by (simp add: sub_map_def map_of_AList_update)

lemma maps_ok_map_vals: "maps_ok P m \<Longrightarrow> (\<And>v. P v \<Longrightarrow> Q (f v)) \<Longrightarrow> maps_ok Q (map_vals f m)"
  by (auto simp: maps_ok_def map_of_map_vals) (simp add: map_vals_def gomap_ok_def comp_def case_prod_beta)

lemma maps_ok_update: "maps_ok P m \<Longrightarrow> P v \<Longrightarrow> maps_ok P (AList.update k v m)"
  by (auto simp: maps_ok_def go_maps gomap_ok_def distinct_update)

lemma maps_ok_sub: "maps_ok P m \<Longrightarrow> P [] \<Longrightarrow> P (sub_map m k)"
  by (auto simp: maps_ok_def sub_map_def split: option.splits)

lemma maps_ok_Nil [simp]: "maps_ok P []" "uni_resources_ok []"
  by (simp_all add: maps_ok_def uni_resources_ok_def gomap_ok_def)

subsection \<open>Freeing\<close>

lemma gomap_ok_map_entry [simp]: "gomap_ok m \<Longrightarrow> gomap_ok (AList.map_entry k f m)"
  by (simp add: gomap_ok_def distinct_map_entry)

lemma map_of_entry: "map_of (AList.map_entry k f m) x = (if x = k then map_option f (map_of m k) else map_of m x)"
  by (auto simp: map_of_map_entry split: option.splits)

lemma sub_map_free_flow:
  "sub_map (free_flow flow r flowId rs) r' = (if r' = r \<and> flow = flowId then AList.delete flow (sub_map rs r) else sub_map rs r')"
  by (cases "map_of rs r") (auto simp: free_flow_def Let_def sub_map_def map_of_entry map_of_AList_delete split: option.splits)

lemma free_flow_ok:
  assumes "uni_resources_ok rs"
  shows "uni_resources_ok (free_flow flow r flowId rs)"
proof -
  have ok: "gomap_ok rs" "map_of rs k = Some fs \<Longrightarrow> gomap_ok fs \<and> fs \<noteq> []" for k fs
    using assms by (simp_all add: uni_resources_ok_def maps_ok_def)
  show ?thesis
    unfolding free_flow_def Let_def uni_resources_ok_def maps_ok_def
    using ok by (auto simp: map_of_entry map_of_AList_delete sub_map_def split: if_split_asm option.split_asm)
qed

lemma sub_map_free_resource:
  "sub_map (free_resource flow e rs) r =
     (if r = fst e \<and> flow \<in> fst ` set (snd e) then AList.delete flow (sub_map rs r) else sub_map rs r)"
proof -
  have "sub_map (fold (\<lambda>(flowId, _). free_flow flow x flowId) fs rs) r =
     (if r = x \<and> flow \<in> fst ` set fs then AList.delete flow (sub_map rs r) else sub_map rs r)" for x and fs :: flow_set
    by (induction fs arbitrary: rs) (auto simp: sub_map_free_flow delete_idem)
  then show ?thesis by (simp add: free_resource_def)
qed

lemma free_resource_ok: "uni_resources_ok rs \<Longrightarrow> uni_resources_ok (free_resource flow e rs)"
proof -
  have "uni_resources_ok rs \<Longrightarrow> uni_resources_ok (fold (\<lambda>(flowId, _). free_flow flow x flowId) fs rs)" for x and fs :: flow_set
    by (induction fs arbitrary: rs) (auto intro: free_flow_ok)
  then show "uni_resources_ok rs \<Longrightarrow> ?thesis" by (simp add: free_resource_def)
qed

lemma free_uni_spec:
  assumes "uni_resources_ok rs"
  shows "uni_resources_ok (free_uni flow rs)" "sub_map (free_uni flow rs) r = AList.delete flow (sub_map rs r)"
proof -
  have "uni_resources_ok rs' \<Longrightarrow> uni_resources_ok (fold (free_resource flow) es rs')" for es rs'
    by (induction es arbitrary: rs') (auto intro: free_resource_ok)
  then show "uni_resources_ok (free_uni flow rs)" using assms by (simp add: free_uni_def)
  have f: "sub_map (fold (free_resource flow) es rs') r =
      (if \<exists>e \<in> set es. r = fst e \<and> flow \<in> fst ` set (snd e) then AList.delete flow (sub_map rs' r) else sub_map rs' r)" for es rs'
    by (induction es arbitrary: rs') (simp, simp add: sub_map_free_resource delete_idem, metis)
  have "AList.delete flow (sub_map rs r) = sub_map rs r" if "\<not> (\<exists>e \<in> set rs. r = fst e \<and> flow \<in> fst ` set (snd e))"
    using that by (cases "map_of rs r") (force simp: sub_map_def dest: map_of_SomeD intro!: delete_id)+
  then show "sub_map (free_uni flow rs) r = AList.delete flow (sub_map rs r)" unfolding free_uni_def f by simp
qed

lemma free_uni_Nil [simp]: "free_uni flow [] = []"
  by (simp add: free_uni_def)

lemma flow_table_sub:
  assumes "flow_table_ok m"
  shows "uni_resources_ok (sub_map (sub_map (sub_map m p) onu) u)"
proof -
  have "maps_ok (maps_ok uni_resources_ok) (sub_map m p)" using assms unfolding flow_table_ok_def by (rule maps_ok_sub) simp
  then have "maps_ok uni_resources_ok (sub_map (sub_map m p) onu)" by (rule maps_ok_sub) simp
  then show ?thesis by (rule maps_ok_sub) simp
qed

lemma free_ok: "flow_table_ok m \<Longrightarrow> flow_table_ok (freeFlowResources flow m)"
  unfolding flow_table_ok_def freeFlowResources_def
  by (erule maps_ok_map_vals, erule maps_ok_map_vals, erule maps_ok_map_vals, erule free_uni_spec)

lemma free_uses:
  assumes "flow_table_ok m"
  shows "uses (freeFlowResources flow m) = {(p, onu, u, r, f). (p, onu, u, r, f) \<in> uses m \<and> f \<noteq> FlowId flow}"
  by (auto simp: uses_def freeFlowResources_def free_uni_spec[OF flow_table_sub[OF assms]] map_of_AList_delete split: if_split_asm)

subsection \<open>Storing\<close>

lemma store_spec:
  assumes "flow_table_ok m"
  shows "if known_onu m p onu then \<exists>m'. store_resource p onu u r f m = Ret m' \<and> flow_table_ok m' \<and> uses m' = insert (p, onu, u, r, f) (uses m)
            \<and> known_onu m' = known_onu m
         else store_resource p onu u r f m = Panic NilMapWrite"
proof (cases "map_of (sub_map m p) onu")
  case (Some ports)
  have ports: "ports = sub_map (sub_map m p) onu" using Some by (simp add: sub_map_def[of "sub_map m p"])
  let ?rs = "sub_map ports u"
  let ?ports = "AList.update u (AList.update r (AList.update f True (sub_map ?rs r)) ?rs) ports"
  let ?m = "AList.update p (AList.update onu ?ports (sub_map m p)) m"
  have st: "store_resource p onu u r f m = Ret ?m" using Some by (simp add: store_resource_def Let_def)
  have rs: "uni_resources_ok ?rs" unfolding ports by (rule flow_table_sub[OF assms])
  have "gomap_ok (sub_map ?rs r)" using rs by (auto simp: uni_resources_ok_def maps_ok_def sub_map_def gomap_ok_def split: option.splits)
  then have "uni_resources_ok (AList.update r (AList.update f True (sub_map ?rs r)) ?rs)"
    using rs unfolding uni_resources_ok_def by (intro maps_ok_update) (simp_all add: update_nonempty)
  moreover have "maps_ok (maps_ok uni_resources_ok) (sub_map m p)" using assms unfolding flow_table_ok_def by (rule maps_ok_sub) simp
  moreover from this have "maps_ok uni_resources_ok ports" unfolding ports by (rule maps_ok_sub) simp
  ultimately have "flow_table_ok ?m" using assms unfolding flow_table_ok_def by (intro maps_ok_update)
  moreover have "uses ?m = insert (p, onu, u, r, f) (uses m)"
    by (auto simp: uses_def ports map_of_AList_update split: if_split_asm)
  moreover have "known_onu ?m = known_onu m" using Some by (auto simp: known_onu_def fun_eq_iff map_of_AList_update)
  ultimately show ?thesis using st Some by (auto simp: known_onu_def)
qed (simp add: known_onu_def store_resource_def)

subsection \<open>Validating\<close>

lemma gomap_in: "gomap_ok m \<Longrightarrow> (k, v) \<in> set m \<longleftrightarrow> map_of m k = Some v"
  by (simp add: gomap_ok_def)

lemma used_spec:
  assumes "flow_table_ok m"
  shows "used_by_other_onu p onu ids m \<longleftrightarrow> (\<exists>onu' u r f. onu' \<noteq> onu \<and> r \<in> set ids \<and> (p, onu', u, r, f) \<in> uses m)"
proof -
  have l1: "maps_ok (maps_ok uni_resources_ok) (sub_map m p)" using assms unfolding flow_table_ok_def by (rule maps_ok_sub) simp
  have mem: "used_by_other_onu p onu ids m \<longleftrightarrow> (\<exists>onu' ports u rs r fs. map_of (sub_map m p) onu' = Some ports \<and> onu' \<noteq> onu
      \<and> map_of ports u = Some rs \<and> map_of rs r = Some fs \<and> r \<in> set ids)"
  proof -
    have "used_by_other_onu p onu ids m \<longleftrightarrow> (\<exists>onu' ports u rs r fs. (onu', ports) \<in> set (sub_map m p) \<and> onu' \<noteq> onu
      \<and> (u, rs) \<in> set ports \<and> (r, fs) \<in> set rs \<and> r \<in> set ids)"
      by (fastforce simp: used_by_other_onu_def list_ex_iff)
    also have "\<dots> \<longleftrightarrow> (\<exists>onu' ports u rs r fs. map_of (sub_map m p) onu' = Some ports \<and> onu' \<noteq> onu
      \<and> map_of ports u = Some rs \<and> map_of rs r = Some fs \<and> r \<in> set ids)"
      using l1 unfolding maps_ok_def uni_resources_ok_def by (metis gomap_in)
    finally show ?thesis .
  qed
  show ?thesis
  proof
    assume "used_by_other_onu p onu ids m"
    then obtain onu' ports u rs r fs where e: "map_of (sub_map m p) onu' = Some ports" "onu' \<noteq> onu" "map_of ports u = Some rs" "map_of rs r = Some fs" "r \<in> set ids"
      using mem by blast
    have rs: "sub_map (sub_map (sub_map m p) onu') u = rs" using e by (simp add: sub_map_def[of "sub_map m p"] sub_map_def[of ports])
    with flow_table_sub[OF assms, of p onu' u] e(4) have "fs \<noteq> []" by (auto simp: uni_resources_ok_def maps_ok_def)
    then have "map_of fs (fst (hd fs)) = Some (snd (hd fs))" by (cases fs) auto
    then have "(p, onu', u, r, fst (hd fs)) \<in> uses m" using rs e(4) by (simp add: uses_def sub_map_def[of rs])
    then show "\<exists>onu' u r f. onu' \<noteq> onu \<and> r \<in> set ids \<and> (p, onu', u, r, f) \<in> uses m" using e by blast
  next
    assume "\<exists>onu' u r f. onu' \<noteq> onu \<and> r \<in> set ids \<and> (p, onu', u, r, f) \<in> uses m"
    then obtain onu' u r f where e: "onu' \<noteq> onu" "r \<in> set ids" "(p, onu', u, r, f) \<in> uses m" by blast
    from e(3) have "sub_map (sub_map (sub_map (sub_map m p) onu') u) r \<noteq> []" by (auto simp: uses_def)
    then obtain fs where fs: "map_of (sub_map (sub_map (sub_map m p) onu') u) r = Some fs" by (auto simp: sub_map_def[of "sub_map (sub_map (sub_map m p) onu') u"] split: option.splits)
    then have "sub_map (sub_map (sub_map m p) onu') u \<noteq> []" by auto
    then obtain rs where rs: "map_of (sub_map (sub_map m p) onu') u = Some rs" "sub_map (sub_map (sub_map m p) onu') u = rs" by (auto simp: sub_map_def[of "sub_map (sub_map m p) onu'"] split: option.splits)
    then have "sub_map (sub_map m p) onu' \<noteq> []" by auto
    then obtain ports where "map_of (sub_map m p) onu' = Some ports" "sub_map (sub_map m p) onu' = ports" by (auto simp: sub_map_def[of "sub_map m p"] split: option.splits)
    with fs rs e(1,2) show "used_by_other_onu p onu ids m" unfolding mem by metis
  qed
qed

section \<open>Properties\<close>

text \<open>
  C5: the nested maps implement a set. On well-formed tables, storing a resource of a known ONU returns and adds exactly
  that use; for an unknown ONU it writes to a nil map and panics. Freeing a flow removes exactly its uses, on
  whatever PON, ONU and port they are, and leaves no resource without a flow. A resource is found in use by
  another ONU exactly if a flow of another ONU on that PON uses it. All results are well-formed.
\<close>

theorem flow_table_refines:
  assumes "flow_table_ok m"
  shows "(if known_onu m p onu then \<exists>m'. store_resource p onu u r f m = Ret m' \<and> flow_table_ok m' \<and> uses m' = insert (p, onu, u, r, f) (uses m)
          else store_resource p onu u r f m = Panic NilMapWrite)
     \<and> flow_table_ok (freeFlowResources flow m)
     \<and> uses (freeFlowResources flow m) = {(p, onu, u, r, f). (p, onu, u, r, f) \<in> uses m \<and> f \<noteq> FlowId flow}
     \<and> (used_by_other_onu p onu ids m \<longleftrightarrow> (\<exists>onu' u r f. onu' \<noteq> onu \<and> r \<in> set ids \<and> (p, onu', u, r, f) \<in> uses m))"
  using store_spec[OF assms, of p onu u r f] free_ok[OF assms, of flow] free_uses[OF assms, of flow] used_spec[OF assms, of p onu ids]
  by (cases "known_onu m p onu") auto

theorem flow_table_refines_witness:
  "\<exists>m'. store_resource 0 1 16 1024 7 [(0, [(1, [])])] = Ret m' \<and> uses m' = insert (0, 1, 16, 1024, 7) (uses [(0, [(1, [])])])"
proof -
  have "flow_table_ok [(0, [(1, [])])]" by (simp add: flow_table_ok_def maps_ok_def uni_resources_ok_def gomap_ok_def)
  from flow_table_refines[OF this, of 0 1 16 1024 7 undefined "[]"] show ?thesis by (auto simp: known_onu_def sub_map_def)
qed

section \<open>No resource is shared between ONUs\<close>

definition exclusive :: "flow_table \<Rightarrow> bool" where
  "exclusive m \<longleftrightarrow> (\<forall>p onu onu' u u' r f f'. (p, onu, u, r, f) \<in> uses m \<and> (p, onu', u', r, f') \<in> uses m \<longrightarrow> onu = onu')"

definition table_safe :: "flow_table \<Rightarrow> bool" where
  "table_safe m \<longleftrightarrow> flow_table_ok m \<and> exclusive m"

lemma exclusive_subset: "exclusive m \<Longrightarrow> uses m' \<subseteq> uses m \<Longrightarrow> exclusive m'"
  unfolding exclusive_def by (meson subsetD)

lemma table_safe_Nil [simp]: "table_safe []"
  by (simp add: table_safe_def flow_table_ok_def exclusive_def uses_def sub_map_def)

lemma store_safe:
  assumes "table_safe m" "store_resource p onu u r f m = Ret m'"
    "\<And>onu' u f. (p, onu', u, r, f) \<in> uses m \<Longrightarrow> onu' = onu"
  shows "table_safe m'" "uses m' = insert (p, onu, u, r, f) (uses m)"
proof -
  have m': "flow_table_ok m' \<and> uses m' = insert (p, onu, u, r, f) (uses m)"
    using store_spec[of m p onu u r f] assms(1,2) by (auto simp: table_safe_def split: if_split_asm)
  then show "uses m' = insert (p, onu, u, r, f) (uses m)" by simp
  have ex: "(q, a, v, x, g) \<in> uses m \<Longrightarrow> (q, b, v', x, g') \<in> uses m \<Longrightarrow> a = b" for q a b v v' x g g'
    using assms(1) unfolding table_safe_def exclusive_def by blast
  have "exclusive m'"
    unfolding exclusive_def conjunct2[OF m']
  proof (intro allI impI, elim conjE insertE)
    fix q a b v v' x g g'
    show "(q, a, v, x, g) \<in> uses m \<Longrightarrow> (q, b, v', x, g') \<in> uses m \<Longrightarrow> a = b" by (rule ex)
  qed (auto dest: assms(3))
  then show "table_safe m'" using m' by (simp add: table_safe_def)
qed

lemma store_gems_safe:
  assumes "table_safe m" "store_gems flow gems m = Ret (ok, m')"
    "\<And>onu' u r f. r \<in> set gems \<Longrightarrow> (ucast (AccessIntfId flow), onu', u, r, f) \<in> uses m \<Longrightarrow> onu' = ucast (fl_OnuId flow)"
  shows "table_safe m'"
  using assms
proof (induction gems arbitrary: m)
  case (Cons g gems)
  let ?p = "ucast (AccessIntfId flow) :: uint32" and ?o = "ucast (fl_OnuId flow) :: uint32"
  show ?case
  proof (cases "map_of (sub_map m ?p) ?o")
    case None
    then show ?thesis using Cons.prems by (simp add: storeGemPortId_def)
  next
    case (Some ports)
    then obtain m1 where m1: "store_resource ?p ?o (fl_PortNo flow) g (FlowId flow) m = Ret m1" "store_gems flow gems m1 = Ret (ok, m')"
      using Cons.prems(2) by (auto simp: storeGemPortId_def go_simps)
    note s = store_safe[OF Cons.prems(1) m1(1) Cons.prems(3)[of g]]
    have safe: "table_safe m1" using s(1) by simp
    have m1u: "uses m1 = insert (?p, ?o, fl_PortNo flow, g, FlowId flow) (uses m)" using s(2) by simp
    show ?thesis
    proof (rule Cons.IH[OF safe m1(2)])
      show "onu' = ?o" if "r \<in> set gems" "(?p, onu', u, r, f) \<in> uses m1" for onu' u r f
        using that Cons.prems(3)[of r onu' u f] unfolding m1u by auto
    qed
  qed
qed simp

lemma add_safe:
  assumes "table_safe (fst t)" "table_safe (snd t)" "add_flow_resources flow t = Ret (res, t')"
  shows "table_safe (fst t') \<and> table_safe (snd t')"
proof (cases "validateFlow flow (fst t) (snd t)")
  case None
  let ?p = "ucast (AccessIntfId flow) :: uint32" and ?o = "ucast (fl_OnuId flow) :: uint32"
  have free: "\<And>onu' u r f. r \<in> set (flow_gems flow) \<Longrightarrow> (?p, onu', u, r, f) \<in> uses (fst t) \<Longrightarrow> onu' = ?o"
    "\<And>onu' u f. (?p, onu', u, fl_AllocId flow, f) \<in> uses (snd t) \<Longrightarrow> onu' = ?o"
    using None used_spec[of "fst t" ?p ?o "flow_gems flow"] used_spec[of "snd t" ?p ?o "[fl_AllocId flow]"] assms(1,2)
    by (auto simp: validateFlow_def table_safe_def split: if_split_asm)
  obtain ok gems where g: "store_gems flow (flow_gems flow) (fst t) = Ret (ok, gems)"
    "(if \<not> ok then Ret (UnknownOnu, gems, snd t) else go_bind (olt_storeAllocId flow (snd t)) (\<lambda>allocs. Ret (Stored, gems, allocs))) = Ret (res, t')"
    using assms(3) None by (auto simp: add_flow_resources_def storeGemPortIdByFlow_def go_simps)
  have "table_safe gems" using store_gems_safe[OF assms(1) g(1) free(1)] by simp
  then show ?thesis using g(2) assms(2) store_safe(1)[OF assms(2) _ free(2)] by (auto simp: olt_storeAllocId_def go_simps split: if_split_asm)
qed (use assms in \<open>simp add: add_flow_resources_def\<close>)

lemma entries_safe:
  assumes "table_safe m"
  shows "table_safe (AList.update p [] m)" "activate_entry p onu m = Ret m' \<Longrightarrow> table_safe m'"
proof -
  have "uses (AList.update p [] m) \<subseteq> uses m" by (auto simp: uses_def sub_map_def[of "[]"] split: if_split_asm)
  moreover have "flow_table_ok (AList.update p [] m)" using assms unfolding table_safe_def flow_table_ok_def by (intro maps_ok_update) simp_all
  ultimately show "table_safe (AList.update p [] m)" using assms exclusive_subset by (auto simp: table_safe_def)
next
  assume "activate_entry p onu m = Ret m'"
  then obtain onus where o1: "map_of m p = Some onus" "m' = AList.update p (AList.update onu [] onus) m" by (auto simp: activate_entry_def split: option.splits)
  have onus: "onus = sub_map m p" using o1 by (simp add: sub_map_def)
  have "uses m' \<subseteq> uses m" by (auto simp: uses_def o1(2) onus sub_map_def[of "[]"] split: if_split_asm)
  moreover have "maps_ok (maps_ok uni_resources_ok) onus" using assms o1(1) by (simp add: table_safe_def flow_table_ok_def maps_ok_def[of "maps_ok (maps_ok uni_resources_ok)"])
  then have "flow_table_ok m'" using assms unfolding table_safe_def flow_table_ok_def o1(2) by (intro maps_ok_update) simp_all
  ultimately show "table_safe m'" using assms exclusive_subset by (auto simp: table_safe_def)
qed

lemma init_safe: "table_safe m \<Longrightarrow> table_safe (init_entries ps m)"
  unfolding init_entries_def by (induction ps arbitrary: m) (simp_all add: entries_safe)

lemma remove_safe: "table_safe m \<Longrightarrow> table_safe (freeFlowResources flow m)"
  using free_ok[of m flow] free_uses[of m flow] exclusive_subset[of m "freeFlowResources flow m"] by (auto simp: table_safe_def)

lemma flow_exec_safe:
  assumes "table_safe (fst t)" "table_safe (snd t)" "flow_exec op t = Ret t'"
  shows "table_safe (fst t') \<and> table_safe (snd t')"
  using assms add_safe[OF assms(1,2)]
  by (cases op) (auto simp: flow_exec_def go_simps remove_flow_resources_def init_safe remove_safe dest: entries_safe(2))

text \<open>
  C4: a resource belongs to one ONU. Whatever sequence of activations, added and removed flows, resets and
  initialisations an OLT goes through from empty tables, and if none of them panics, then no GEM port and no alloc-id of
  a PON is used by the flows of two different ONUs, and every resource that is listed has a flow that uses it.
\<close>

theorem flow_resources_exclusive:
  assumes "go_fold flow_exec ops ([], []) = Ret (gems, allocs)"
  shows "flow_table_ok gems \<and> flow_table_ok allocs
     \<and> (\<forall>p onu onu' u u' r f f'. (p, onu, u, r, f) \<in> uses gems \<and> (p, onu', u', r, f') \<in> uses gems \<longrightarrow> onu = onu')
     \<and> (\<forall>p onu onu' u u' r f f'. (p, onu, u, r, f) \<in> uses allocs \<and> (p, onu', u', r, f') \<in> uses allocs \<longrightarrow> onu = onu')"
proof -
  have "table_safe (fst t') \<and> table_safe (snd t')" if "table_safe (fst t)" "table_safe (snd t)" "go_fold flow_exec ops t = Ret t'" for t t'
    using that
  proof (induction ops arbitrary: t)
    case (Cons op ops)
    obtain t1 where t1: "flow_exec op t = Ret t1" "go_fold flow_exec ops t1 = Ret t'" using Cons.prems(3) by (auto simp: go_simps)
    with flow_exec_safe[OF Cons.prems(1,2) t1(1)] Cons.IH[OF _ _ t1(2)] show ?case by blast
  qed simp
  from this[OF _ _ assms] have "table_safe gems" "table_safe allocs" by simp_all
  then show ?thesis unfolding table_safe_def exclusive_def by blast
qed

definition sample_flow :: "int32 \<Rightarrow> uint64 \<Rightarrow> Flow" where
  "sample_flow onu f = \<lparr>AccessIntfId = 0, fl_OnuId = onu, fl_UniId = 0, FlowId = f, FlowType = flowTypeDownstream, fl_AllocId = 1024,
     GemportId = 1024, fl_Classifier = \<lparr>OVid = 0, IVid = 0, OPbits = 0, EthType = 0, IpProto = 0, SrcPort = 0, DstPort = 0\<rparr>,
     Cookie = 0, fl_PortNo = 16, ReplicateFlow = False, PbitToGemport = []\<rparr>"

definition sample_flow_ops :: "flow_op list" where
  "sample_flow_ops = [InitPons [0], Activate 0 1, Activate 0 2, AddFlow (sample_flow 1 7), AddFlow (sample_flow 2 8)]"

theorem flow_resources_exclusive_witness:
  "\<exists>gems allocs. go_fold flow_exec sample_flow_ops ([], []) = Ret (gems, allocs) \<and> uses gems \<noteq> {}
     \<and> (\<forall>u f. (0, 2, u, 1024, f) \<notin> uses gems)"
proof -
  let ?t = "[(0, [(1, [(16, [(1024, [(7, True)])])]), (2, [])])] :: flow_table"
  have run: "go_fold flow_exec sample_flow_ops ([], []) = Ret (?t, ?t)"
    by code_simp
  have "(0, 1, 16, 1024, 7) \<in> uses ?t" by (auto simp: uses_def sub_map_def)
  with flow_resources_exclusive[OF run] have "\<forall>u f. (0, 2, u, 1024, f) \<notin> uses ?t" by fastforce
  with run \<open>(0, 1, 16, 1024, 7) \<in> uses ?t\<close> show ?thesis by blast
qed

end
