(* ===== verification/Olt.thy ===== *)
theory Olt
  imports Pon FlowTables
begin

text \<open>
  The OLT (\<open>internal/bbsim/devices/olt.go\<close>): look-ups, the calls of VOLTHA that activate and delete ONUs, add and
  remove flows and switch the OLT and its PON ports, its state machine and the body of its message loop. Events for
  the publisher are left out.
\<close>

section \<open>State\<close>

datatype olt_state = OltCreated | OltInitialized | OltEnabled | OltDisabled | OltDeleted
datatype olt_event = OltTxInitialize | OltTxEnable | OltTxDisable | OltTxDelete

definition olt_events :: "(olt_event, olt_state) EventDesc list" where
  "olt_events =
    [\<lparr>Name = OltTxInitialize, Src = [OltCreated, OltDeleted], Dst = OltInitialized\<rparr>,
     \<lparr>Name = OltTxEnable, Src = [OltInitialized, OltDisabled], Dst = OltEnabled\<rparr>,
     \<lparr>Name = OltTxDisable, Src = [OltEnabled], Dst = OltDisabled\<rparr>,
     \<lparr>Name = OltTxDelete, Src = [OltDisabled, OltEnabled], Dst = OltDeleted\<rparr>]"

definition new_olt_state :: "(olt_event, olt_state) FSM" where
  "new_olt_state = NewFSM OltCreated olt_events"

record NniPort =
  nni_ID :: uint32
  nni_OperState :: "(oper_event, oper_state) FSM"
  nni_PacketCount :: uint64

text \<open>\<open>OltServer\<close> tells whether a gRPC server runs, \<open>enableContext\<close> whether \<open>Enable\<close> has been called.\<close>

record OltDevice =
  olt_InternalState :: "(olt_event, olt_state) FSM"
  olt_OperState :: "(oper_event, oper_state) FSM"
  olt_channel :: "olt_message chan"
  olt_Flows :: "(uint64, Flow) gomap"
  ControlledActivation :: mode
  enablePerf :: bool
  NniSpeed :: uint32
  Pons :: "PonPort list"
  Nnis :: "NniPort list"
  GemPortIDs :: flow_table
  AllocIDs :: flow_table
  OltServer :: bool
  enableContext :: bool
  PreviouslyConnected :: bool
  olt_sent :: "Indication list"

section \<open>Look-ups\<close>

definition GetPonById :: "uint32 \<Rightarrow> PonPort list \<Rightarrow> nat option" where
  "GetPonById i ps = find_idx (\<lambda>p. pon_ID p = i) ps"

definition getNniById :: "uint32 \<Rightarrow> NniPort list \<Rightarrow> nat option" where
  "getNniById i ns = find_idx (\<lambda>n. nni_ID n = i) ns"

text \<open>The nested loops over the ports and their ONUs that stop at the first ONU with a property.\<close>

definition find_onu :: "(Onu \<Rightarrow> bool) \<Rightarrow> PonPort list \<Rightarrow> (nat \<times> nat) option" where
  "find_onu here ps =
     (case find_idx (\<lambda>p. list_ex here (Onus p)) ps of None \<Rightarrow> None
      | Some i \<Rightarrow> map_option (Pair i) (find_idx here (Onus (ps ! i))))"

definition GetOnuByFlowId :: "uint64 \<Rightarrow> PonPort list \<Rightarrow> (nat \<times> nat) option" where
  "GetOnuByFlowId flowId = find_onu (\<lambda>o1. flowId \<in> set (FlowIds o1))"

interpretation pon_by_id: slice_lookup GetPonById "\<lambda>i p. pon_ID p = i"
  by unfold_locales (simp add: GetPonById_def find_idx_Some)

lemma find_onu_SomeD:
  "find_onu here ps = Some (i, j) \<Longrightarrow> i < length ps \<and> j < length (Onus (ps ! i)) \<and> here (Onus (ps ! i) ! j)"
  by (auto simp: find_onu_def find_idx_Some split: option.splits)

lemma find_onu_None: "find_onu here ps = None \<longleftrightarrow> (\<forall>p \<in> set ps. \<forall>o1 \<in> set (Onus p). \<not> here o1)"
proof (cases "find_idx (\<lambda>p. list_ex here (Onus p)) ps")
  case (Some i)
  then have "i < length ps" "list_ex here (Onus (ps ! i))" by (auto simp: find_idx_Some)
  then obtain o1 where o1: "ps ! i \<in> set ps" "o1 \<in> set (Onus (ps ! i))" "here o1" by (auto simp: list_ex_iff)
  then have "find_idx here (Onus (ps ! i)) \<noteq> None" by auto
  then show ?thesis using Some o1 by (auto simp: find_onu_def)
next
  case None
  then have "\<forall>p \<in> set ps. \<forall>o1 \<in> set (Onus p). \<not> here o1" by (auto simp: list_ex_iff)
  then show ?thesis unfolding find_onu_def None by simp
qed

interpretation nni_by_id: slice_lookup getNniById "\<lambda>i n. nni_ID n = i"
  by unfold_locales (simp add: getNniById_def find_idx_Some)

section \<open>One ONU of the OLT\<close>

definition the_onu :: "nat \<Rightarrow> nat \<Rightarrow> OltDevice \<Rightarrow> Onu" where
  "the_onu i j d = Onus (Pons d ! i) ! j"

definition set_onu :: "nat \<Rightarrow> nat \<Rightarrow> Onu \<Rightarrow> OltDevice \<Rightarrow> OltDevice" where
  "set_onu i j o1 d = d\<lparr>Pons := (Pons d)[i := (Pons d ! i)\<lparr>Onus := (Onus (Pons d ! i))[j := o1]\<rparr>]\<rparr>"

definition on_olt_onu :: "nat \<Rightarrow> nat \<Rightarrow> (onu_world \<Rightarrow> onu_world go) \<Rightarrow> OltDevice \<Rightarrow> OltDevice go" where
  "on_olt_onu i j f d =
     go_bind (f (onu_view (the_onu i j d) (pon_Tables (Pons d ! i), olt_channel d, olt_sent d))) (\<lambda>w.
     Ret (d\<lparr>Pons := (Pons d)[i := (Pons d ! i)\<lparr>Onus := (Onus (Pons d ! i))[j := w_onu w], pon_Tables := w_pon w\<rparr>],
            olt_channel := w_olt w, olt_sent := w_sent w\<rparr>))"

definition olt_send :: "olt_message \<Rightarrow> OltDevice \<Rightarrow> OltDevice go" where
  "olt_send m d = go_bind (chan_send (olt_channel d) m) (\<lambda>c. Ret (d\<lparr>olt_channel := c\<rparr>))"

definition send_to_onu :: "nat \<Rightarrow> nat \<Rightarrow> onu_message \<Rightarrow> OltDevice \<Rightarrow> OltDevice go" where
  "send_to_onu i j m d =
     go_bind (chan_send (onu_Channel (the_onu i j d)) m) (\<lambda>c. Ret (set_onu i j ((the_onu i j d)\<lparr>onu_Channel := c\<rparr>) d))"

section \<open>Calls of VOLTHA\<close>

text \<open>The boolean is \<open>True\<close> for a nil error. An unknown serial number is not checked before it is used.\<close>

definition ActivateOnu :: "uint32 \<Rightarrow> uint32 \<Rightarrow> byte list \<Rightarrow> OltDevice \<Rightarrow> (bool \<times> OltDevice) go" where
  "ActivateOnu intfId onuId sn d =
     (case GetPonById intfId (Pons d) of None \<Rightarrow> Ret (False, d)
      | Some i \<Rightarrow>
          go_bind (activate_entry intfId onuId (AllocIDs d)) (\<lambda>allocs.
          go_bind (activate_entry intfId onuId (GemPortIDs d)) (\<lambda>gems.
          case GetOnuBySn sn (Onus (Pons d ! i)) of None \<Rightarrow> Panic NilDereference
          | Some j \<Rightarrow>
              go_bind (on_olt_onu i j (\<lambda>w. onu_try OnuTxEnable (on_onu (\<lambda>o1. o1\<lparr>onu_ID := onuId\<rparr>) w))
                (d\<lparr>AllocIDs := allocs, GemPortIDs := gems\<rparr>)) (\<lambda>d'. Ret (True, d')))))"

text \<open>The third component tells whether the goroutine that discovers the ONU again was started.\<close>

definition DeleteOnu :: "uint32 \<Rightarrow> uint32 \<Rightarrow> OltDevice \<Rightarrow> (bool \<times> bool \<times> OltDevice) go" where
  "DeleteOnu intfId onuId d =
     (case GetPonById intfId (Pons d) of None \<Rightarrow> Ret (False, False, d)
      | Some i \<Rightarrow>
          (case GetOnuById onuId (Onus (Pons d ! i)) of None \<Rightarrow> Ret (False, False, d)
           | Some j \<Rightarrow>
               go_bind (if current (onu_InternalState (the_onu i j d)) \<noteq> OnuStateDisabled then on_olt_onu i j (onu_try OnuTxDisable) d else Ret d)
                 (\<lambda>d'. Ret (True, current (olt_InternalState d') = OltEnabled \<and> current (pon_InternalState (Pons d' ! i)) = pon_enabled, d'))))"

definition multicast_flow :: "Flow \<Rightarrow> bool" where
  "multicast_flow flow \<longleftrightarrow> FlowType flow = flowTypeOther ''multicast''"

definition FlowAdd :: "Flow \<Rightarrow> OltDevice \<Rightarrow> (bool \<times> OltDevice) go" where
  "FlowAdd flow d =
     (let d1 = (if enablePerf d then d else d\<lparr>olt_Flows := AList.update (FlowId flow) flow (olt_Flows d)\<rparr>) in
      if AccessIntfId flow = -1 then Ret (True, d1)
      else if multicast_flow flow then Ret (True, d1)
      else case GetPonById (ucast (AccessIntfId flow)) (Pons d1) of None \<Rightarrow> Panic NilDereference
      | Some i \<Rightarrow>
          (case GetOnuById (ucast (fl_OnuId flow)) (Onus (Pons d1 ! i)) of None \<Rightarrow> Ret (False, d1)
           | Some j \<Rightarrow>
               let o1 = the_onu i j d1 in
               if current (onu_InternalState o1) \<in> {OnuStatePonDisabled, OnuStateDisabled} then Ret (False, d1)
               else let d2 = (if enablePerf d then d1 else set_onu i j (o1\<lparr>Flows := Flows o1 @ [FlowId flow]\<rparr>) d1) in
                 go_bind (add_flow_resources flow (GemPortIDs d2, AllocIDs d2)) (\<lambda>(res, gems, allocs).
                 let d3 = d2\<lparr>GemPortIDs := gems, AllocIDs := allocs\<rparr> in
                 if res \<noteq> Stored then Ret (False, d3)
                 else go_bind (send_to_onu i j (FlowAddMsg flow) d3) (\<lambda>d4. Ret (True, d4)))))"

text \<open>A stored flow whose PON or ONU is gone is left in place, without an error.\<close>

definition forget_flow :: "uint64 \<Rightarrow> Flow \<Rightarrow> OltDevice \<Rightarrow> OltDevice option" where
  "forget_flow key stored d =
     (if AccessIntfId stored = -1 then Some (d\<lparr>olt_Flows := AList.delete key (olt_Flows d)\<rparr>)
      else case GetPonById (ucast (AccessIntfId stored)) (Pons d) of None \<Rightarrow> None
      | Some i \<Rightarrow>
          (case GetOnuById (ucast (fl_OnuId stored)) (Onus (Pons d ! i)) of None \<Rightarrow> None
           | Some j \<Rightarrow> Some ((set_onu i j (DeleteFlow key (the_onu i j d)) d)\<lparr>olt_Flows := AList.delete key (olt_Flows d)\<rparr>)))"

definition notify_removed :: "Flow \<Rightarrow> OltDevice \<Rightarrow> (bool \<times> OltDevice) go" where
  "notify_removed flow d =
     (if AccessIntfId flow = -1 \<or> multicast_flow flow then Ret (True, d)
      else case GetOnuByFlowId (FlowId flow) (Pons d) of None \<Rightarrow> Ret (False, d)
      | Some (i, j) \<Rightarrow> go_bind (send_to_onu i j (FlowRemovedMsg flow) d) (\<lambda>d'. Ret (True, d')))"

definition FlowRemove :: "Flow \<Rightarrow> OltDevice \<Rightarrow> (bool \<times> OltDevice) go" where
  "FlowRemove flow d =
     (let (gems, allocs) = remove_flow_resources flow (GemPortIDs d, AllocIDs d);
          d1 = d\<lparr>GemPortIDs := gems, AllocIDs := allocs\<rparr> in
      if enablePerf d then notify_removed flow d1
      else case map_of (olt_Flows d1) (FlowId flow) of None \<Rightarrow> Ret (False, d1)
      | Some stored \<Rightarrow>
          (case forget_flow (FlowId flow) stored d1 of None \<Rightarrow> Ret (True, d1)
           | Some d2 \<Rightarrow> notify_removed flow d2))"

text \<open>An OMCI message of VOLTHA; the ONU gets the decoded message and its bytes, and a disabled ONU gets nothing.\<close>

definition OmciMsgOut :: "omci_env \<Rightarrow> uint32 \<Rightarrow> uint32 \<Rightarrow> byte list \<Rightarrow> OltDevice \<Rightarrow> (bool \<times> OltDevice) go" where
  "OmciMsgOut env intfId onuId pkt d =
     (case GetPonById intfId (Pons d) of None \<Rightarrow> Ret (False, d)
      | Some i \<Rightarrow>
          (case GetOnuById onuId (Onus (Pons d ! i)) of None \<Rightarrow> Ret (False, d)
           | Some j \<Rightarrow>
               go_bind (ParseOpenOltOmciPacket (\<lambda>b. map_option (\<lambda>m. (m, b)) (oe_decode env b)) pkt) (\<lambda>res.
               case res of Inl _ \<Rightarrow> Ret (False, d)
               | Inr (m, b) \<Rightarrow>
                   if current (onu_InternalState (the_onu i j d)) = OnuStateDisabled then Ret (True, d)
                   else go_bind (send_to_onu i j (OmciMessage m b) d) (\<lambda>d'. Ret (True, d')))))"

definition DisableOlt :: "OltDevice \<Rightarrow> OltDevice go" where
  "DisableOlt d =
     go_bind (go_fold (\<lambda>p. olt_send (PonIndicationMsg DOWN (pon_ID p)))
       (filter (\<lambda>p. current (pon_InternalState p) = pon_enabled) (Pons d)) d) (olt_send (OltIndicationMsg DOWN))"

definition ReenableOlt :: "OltDevice \<Rightarrow> OltDevice go" where
  "ReenableOlt d =
     go_bind (olt_send (OltIndicationMsg UP) d) (go_fold (\<lambda>p. olt_send (PonIndicationMsg UP (pon_ID p)))
       (filter (\<lambda>p. current (pon_InternalState p) = pon_disabled) (Pons d)))"

text \<open>What the two calls for a port share; an unknown port is used after the message has been sent.\<close>

definition SwitchPonIf :: "stream \<Rightarrow> OperState \<Rightarrow> uint32 \<Rightarrow> OltDevice \<Rightarrow> OltDevice go" where
  "SwitchPonIf st s ponID d =
     go_bind (olt_send (PonIndicationMsg s ponID) d) (\<lambda>d1.
     case GetPonById ponID (Pons d1) of None \<Rightarrow> Panic NilDereference
     | Some i \<Rightarrow> go_fold (\<lambda>j. on_olt_onu i j (\<lambda>w. Ret (sendOnuIndication st s w))) [0..<length (Onus (Pons d1 ! i))] d1)"

definition DisablePonIf :: "stream \<Rightarrow> uint32 \<Rightarrow> OltDevice \<Rightarrow> OltDevice go" where
  "DisablePonIf st = SwitchPonIf st DOWN"

definition EnablePonIf :: "stream \<Rightarrow> uint32 \<Rightarrow> OltDevice \<Rightarrow> OltDevice go" where
  "EnablePonIf st = SwitchPonIf st UP"

section \<open>State machine and message loop\<close>

definition clearAllResources :: "OltDevice \<Rightarrow> OltDevice" where
  "clearAllResources d = d\<lparr>GemPortIDs := [], AllocIDs := [],
     Pons := map (\<lambda>p. p\<lparr>pon_Tables := removeAllOnuIds (removeAllGemPorts (removeAllAllocIds (pon_Tables p)))\<rparr>) (Pons d)\<rparr>"

text \<open>The NNI is taken from the slice unchecked; the address of the server can be listened on.\<close>

definition InitOlt :: "OltDevice \<Rightarrow> OltDevice go" where
  "InitOlt d =
     (if OltServer d then Panic FatalLog
      else case Nnis d of [] \<Rightarrow> Panic IndexOutOfRange
      | n # ns \<Rightarrow>
          let ids = map of_nat [0..<length (Pons d)] in
          Ret (d\<lparr>OltServer := True, olt_channel := make_chan None, Nnis := n\<lparr>nni_OperState := SetState oper_down (nni_OperState n)\<rparr> # ns,
                 AllocIDs := init_entries ids (AllocIDs d), GemPortIDs := init_entries ids (GemPortIDs d)\<rparr>))"

definition StopOltServer :: "OltDevice \<Rightarrow> OltDevice" where
  "StopOltServer d = d\<lparr>OltServer := False\<rparr>"

definition enter_olt :: "(olt_event, olt_state) Event \<Rightarrow> OltDevice \<Rightarrow> OltDevice go" where
  "enter_olt ev d =
     (case ev_Dst ev of OltInitialized \<Rightarrow> InitOlt d | OltDeleted \<Rightarrow> Ret (clearAllResources d) | _ \<Rightarrow> Ret d)"

definition put_olt_state :: "(olt_event, olt_state) FSM \<Rightarrow> OltDevice \<Rightarrow> OltDevice" where
  "put_olt_state f d = d\<lparr>olt_InternalState := f\<rparr>"

definition olt_Event :: "olt_event \<Rightarrow> OltDevice \<Rightarrow> ((olt_event, olt_state) fsm_error option \<times> OltDevice) go" where
  "olt_Event = fsm_Event olt_InternalState put_olt_state (enter_callbacks enter_olt)"

definition olt_Send :: "stream \<Rightarrow> Indication \<Rightarrow> OltDevice \<Rightarrow> OltDevice" where
  "olt_Send st ind d = d\<lparr>olt_sent := snd (Send st ind (olt_sent d))\<rparr>"

definition sendOltIndication :: "stream \<Rightarrow> OperState \<Rightarrow> OltDevice \<Rightarrow> OltDevice" where
  "sendOltIndication st s = olt_Send st (OltInd (oper_string s))"

definition oper_tx :: "OperState \<Rightarrow> oper_event" where
  "oper_tx s = (case s of UP \<Rightarrow> tx_enable | DOWN \<Rightarrow> tx_disable)"

definition sendNniIndication :: "stream \<Rightarrow> OperState \<Rightarrow> uint32 \<Rightarrow> OltDevice \<Rightarrow> OltDevice go" where
  "sendNniIndication st s nniId d =
     (case getNniById nniId (Nnis d) of None \<Rightarrow> Panic NilDereference
      | Some k \<Rightarrow>
          let n = Nnis d ! k; n' = n\<lparr>nni_OperState := snd (fsm_fire (oper_tx s) (nni_OperState n))\<rparr> in
          Ret (olt_Send st (IntfOperInd ''nni'' (nni_ID n') (oper_state_string (current (nni_OperState n'))) (NniSpeed d))
                 (d\<lparr>Nnis := (Nnis d)[k := n']\<rparr>)))"

definition on_olt_pon :: "nat \<Rightarrow> (pon_world \<Rightarrow> pon_world go) \<Rightarrow> OltDevice \<Rightarrow> OltDevice go" where
  "on_olt_pon i f d =
     go_bind (f \<lparr>pw_pon = Pons d ! i, pw_olt = olt_channel d, pw_sent = olt_sent d\<rparr>) (\<lambda>pw.
     Ret (d\<lparr>Pons := (Pons d)[i := pw_pon pw], olt_channel := pw_olt pw, olt_sent := pw_sent pw\<rparr>))"

definition pon_indication :: "stream \<Rightarrow> mode \<Rightarrow> OperState \<Rightarrow> pon_world \<Rightarrow> pon_world go" where
  "pon_indication st m s pw =
     go_bind (pon_oper_Event st (oper_tx s) pw) (\<lambda>(_, pw1).
     go_bind (pon_Event m (case s of UP \<Rightarrow> pon_enable | DOWN \<Rightarrow> pon_disable) pw1) (\<lambda>(_, pw2). Ret pw2))"

text \<open>The body of \<open>processOltMessages\<close>.\<close>

definition handle_olt_message :: "stream \<Rightarrow> olt_message \<Rightarrow> OltDevice \<Rightarrow> OltDevice go" where
  "handle_olt_message st msg d =
     (case msg of
        OltIndicationMsg s \<Rightarrow>
          go_bind (olt_Event (case s of UP \<Rightarrow> OltTxEnable | DOWN \<Rightarrow> OltTxDisable) d) (\<lambda>(_, d1).
          Ret (sendOltIndication st s (d1\<lparr>olt_OperState := snd (fsm_fire (oper_tx s) (olt_OperState d1))\<rparr>)))
      | AlarmIndicationMsg a \<Rightarrow> Ret (olt_Send st (AlarmInd a) d)
      | NniIndicationMsg s n \<Rightarrow> sendNniIndication st s n d
      | PonIndicationMsg s p \<Rightarrow>
          (case GetPonById p (Pons d) of None \<Rightarrow> Panic NilDereference
           | Some i \<Rightarrow> on_olt_pon i (pon_indication st (ControlledActivation d) s) d))"

section \<open>Adding and removing a flow\<close>

definition other_uses :: "Flow \<Rightarrow> flow_table \<Rightarrow> (uint32 \<times> uint32 \<times> uint32 \<times> int32 \<times> uint64) set" where
  "other_uses flow m = {(p, onu, u, r, f). (p, onu, u, r, f) \<in> uses m \<and> f \<noteq> FlowId flow}"

lemma store_other_uses:
  assumes "flow_table_ok m" "store_resource p onu u r (FlowId flow) m = Ret m'"
  shows "flow_table_ok m' \<and> other_uses flow m' = other_uses flow m"
  using store_spec[OF assms(1), of p onu u r "FlowId flow"] assms(2) by (auto simp: other_uses_def split: if_split_asm)

lemma store_gems_other_uses:
  "flow_table_ok m \<Longrightarrow> store_gems flow gems m = Ret (ok, m') \<Longrightarrow> flow_table_ok m' \<and> other_uses flow m' = other_uses flow m"
proof (induction gems arbitrary: m)
  case (Cons g gems)
  show ?case
  proof (cases "map_of (sub_map m (ucast (AccessIntfId flow))) (ucast (fl_OnuId flow))")
    case None
    then show ?thesis using Cons.prems by (simp add: storeGemPortId_def)
  next
    case (Some ports)
    then obtain m1 where m1: "store_resource (ucast (AccessIntfId flow)) (ucast (fl_OnuId flow)) (fl_PortNo flow) g (FlowId flow) m = Ret m1"
      "store_gems flow gems m1 = Ret (ok, m')"
      using Cons.prems(2) by (auto simp: storeGemPortId_def go_simps)
    from store_other_uses[OF Cons.prems(1) m1(1)] Cons.IH[OF _ m1(2)] show ?thesis by simp
  qed
qed simp

lemma add_other_uses:
  assumes "flow_table_ok gems" "flow_table_ok allocs" "add_flow_resources flow (gems, allocs) = Ret (Stored, gems', allocs')"
  shows "flow_table_ok gems' \<and> flow_table_ok allocs' \<and> other_uses flow gems' = other_uses flow gems \<and> other_uses flow allocs' = other_uses flow allocs"
proof -
  have "store_gems flow (flow_gems flow) gems = Ret (True, gems')"
    "store_resource (ucast (AccessIntfId flow)) (ucast (fl_OnuId flow)) (fl_PortNo flow) (fl_AllocId flow) (FlowId flow) allocs = Ret allocs'"
    using assms(3) by (auto simp: add_flow_resources_def storeGemPortIdByFlow_def olt_storeAllocId_def go_simps split: option.splits if_split_asm)
  then show ?thesis using store_gems_other_uses[OF assms(1)] store_other_uses[OF assms(2)] by blast
qed

text \<open>A flow whose id is not used anywhere.\<close>

definition fresh_flow :: "Flow \<Rightarrow> OltDevice \<Rightarrow> bool" where
  "fresh_flow flow d \<longleftrightarrow> map_of (olt_Flows d) (FlowId flow) = None
     \<and> other_uses flow (GemPortIDs d) = uses (GemPortIDs d) \<and> other_uses flow (AllocIDs d) = uses (AllocIDs d)
     \<and> (\<forall>p \<in> set (Pons d). \<forall>o1 \<in> set (Onus p). FlowId flow \<notin> set (Flows o1) \<and> FlowId flow \<notin> set (FlowIds o1))"

definition olt_tables_ok :: "OltDevice \<Rightarrow> bool" where
  "olt_tables_ok d \<longleftrightarrow> flow_table_ok (GemPortIDs d) \<and> flow_table_ok (AllocIDs d)"

lemma the_onu_set_onu [simp]:
  "i < length (Pons d) \<Longrightarrow> j < length (Onus (Pons d ! i)) \<Longrightarrow> the_onu i j (set_onu i j o1 d) = o1"
  "i < length (Pons d) \<Longrightarrow> set_onu i j o2 (set_onu i j o1 d) = set_onu i j o2 d"
  by (simp_all add: the_onu_def set_onu_def)

lemma the_onu_upd [simp]:
  "the_onu i j (d\<lparr>olt_Flows := x\<rparr>) = the_onu i j d" "the_onu i j (d\<lparr>GemPortIDs := y\<rparr>) = the_onu i j d" "the_onu i j (d\<lparr>AllocIDs := y\<rparr>) = the_onu i j d"
  "set_onu i j o1 (d\<lparr>olt_Flows := x\<rparr>) = (set_onu i j o1 d)\<lparr>olt_Flows := x\<rparr>"
  "set_onu i j o1 (d\<lparr>GemPortIDs := y\<rparr>) = (set_onu i j o1 d)\<lparr>GemPortIDs := y\<rparr>"
  "set_onu i j o1 (d\<lparr>AllocIDs := y\<rparr>) = (set_onu i j o1 d)\<lparr>AllocIDs := y\<rparr>"
  "GemPortIDs (set_onu i j o1 d) = GemPortIDs d" "AllocIDs (set_onu i j o1 d) = AllocIDs d" "olt_Flows (set_onu i j o1 d) = olt_Flows d"
  "enablePerf (set_onu i j o1 d) = enablePerf d"
  by (simp_all add: the_onu_def set_onu_def)

text \<open>What a flow for an ONU that was accepted has changed.\<close>

lemma FlowAdd_accepted:
  assumes "FlowAdd flow d = Ret (True, d1)" "\<not> enablePerf d" "AccessIntfId flow \<noteq> -1" "\<not> multicast_flow flow"
  shows "\<exists>i j gems allocs c. GetPonById (ucast (AccessIntfId flow)) (Pons d) = Some i \<and> GetOnuById (ucast (fl_OnuId flow)) (Onus (Pons d ! i)) = Some j
     \<and> add_flow_resources flow (GemPortIDs d, AllocIDs d) = Ret (Stored, gems, allocs)
     \<and> chan_send (onu_Channel (the_onu i j d)) (FlowAddMsg flow) = Ret c
     \<and> d1 = (set_onu i j ((the_onu i j d)\<lparr>Flows := Flows (the_onu i j d) @ [FlowId flow], onu_Channel := c\<rparr>) d)
              \<lparr>olt_Flows := AList.update (FlowId flow) flow (olt_Flows d), GemPortIDs := gems, AllocIDs := allocs\<rparr>"
proof -
  let ?d0 = "d\<lparr>olt_Flows := AList.update (FlowId flow) flow (olt_Flows d)\<rparr>"
  obtain i where i: "GetPonById (ucast (AccessIntfId flow)) (Pons d) = Some i"
    using assms by (auto simp: FlowAdd_def Let_def split: option.splits)
  obtain j where j: "GetOnuById (ucast (fl_OnuId flow)) (Onus (Pons d ! i)) = Some j"
    using assms i by (auto simp: FlowAdd_def Let_def split: option.splits)
  note lt = pon_by_id.lookup_in_range[OF i] onu_by_id.lookup_in_range[OF j]
  let ?o = "(the_onu i j d)\<lparr>Flows := Flows (the_onu i j d) @ [FlowId flow]\<rparr>"
  obtain res gems allocs where a: "add_flow_resources flow (GemPortIDs d, AllocIDs d) = Ret (res, gems, allocs)"
    "(if res \<noteq> Stored then Ret (False, (set_onu i j ?o ?d0)\<lparr>GemPortIDs := gems, AllocIDs := allocs\<rparr>)
      else go_bind (send_to_onu i j (FlowAddMsg flow) ((set_onu i j ?o ?d0)\<lparr>GemPortIDs := gems, AllocIDs := allocs\<rparr>)) (\<lambda>d4. Ret (True, d4))) = Ret (True, d1)"
    using assms i j by (auto simp: FlowAdd_def Let_def go_simps split: if_split_asm)
  have "res = Stored" using a(2) by (simp split: if_split_asm)
  with a lt obtain c where "chan_send (onu_Channel (the_onu i j d)) (FlowAddMsg flow) = Ret c"
    "d1 = (set_onu i j (?o\<lparr>onu_Channel := c\<rparr>) ?d0)\<lparr>GemPortIDs := gems, AllocIDs := allocs\<rparr>"
    by (auto simp: send_to_onu_def go_simps)
  then show ?thesis using i j a(1) \<open>res = Stored\<close> by (intro exI[of _ i] exI[of _ j] exI[of _ gems] exI[of _ allocs] exI[of _ c]) simp
qed

lemma GetOnuByFlowId_set_onu:
  assumes "i < length (Pons d)" "j < length (Onus (Pons d ! i))"
    and "\<forall>p \<in> set (Pons d). \<forall>o1 \<in> set (Onus p). f \<notin> set (FlowIds o1)" "FlowIds x = FlowIds (the_onu i j d)"
  shows "GetOnuByFlowId f (Pons (set_onu i j x d)) = None"
proof -
  have x: "f \<notin> set (FlowIds x)" using assms(3,4) nth_mem[OF assms(1)] nth_mem[OF assms(2)] unfolding the_onu_def by metis
  have "f \<notin> set (FlowIds y)" if "p \<in> set (Pons (set_onu i j x d))" "y \<in> set (Onus p)" for p y
  proof -
    have "p = (Pons d ! i)\<lparr>Onus := (Onus (Pons d ! i))[j := x]\<rparr> \<or> p \<in> set (Pons d)"
      using that(1) set_update_subset_insert by (fastforce simp: set_onu_def)
    then have "y = x \<or> (\<exists>p \<in> set (Pons d). y \<in> set (Onus p))"
      using that(2) nth_mem[OF assms(1)] set_update_subset_insert[of "Onus (Pons d ! i)" j x] by auto
    then show ?thesis using x assms(3) by auto
  qed
  then have "find_idx (\<lambda>p. list_ex (\<lambda>o1. f \<in> set (FlowIds o1)) (Onus p)) (Pons (set_onu i j x d)) = None" by (simp add: list_ex_iff)
  then show ?thesis unfolding GetOnuByFlowId_def find_onu_def by (simp only: option.case)
qed

text \<open>
  C20: a flow that is added and removed again. Let the OLT accept a flow for an ONU under an id that is not in use, and let
  the flow be removed before the ONU has handled the message. Then the stored flows, the uses of GEM ports and
  alloc-ids and the flows that the OLT keeps for the ONU are what they were. But the removal returns an error, because the
  ONU is looked for by the flows it has handled: it is not told, its channel still holds the message that adds the
  flow, and so it keeps a flow that the OLT has forgotten.
\<close>

theorem flow_add_then_remove:
  assumes "FlowAdd flow d = Ret (True, d1)" "\<not> enablePerf d" "AccessIntfId flow \<noteq> -1" "\<not> multicast_flow flow"
    and "olt_tables_ok d" "fresh_flow flow d"
  shows "\<exists>d2 i j. FlowRemove flow d1 = Ret (False, d2) \<and> map_of (olt_Flows d2) = map_of (olt_Flows d)
     \<and> uses (GemPortIDs d2) = uses (GemPortIDs d) \<and> uses (AllocIDs d2) = uses (AllocIDs d)
     \<and> i < length (Pons d) \<and> j < length (Onus (Pons d ! i)) \<and> Flows (the_onu i j d2) = Flows (the_onu i j d)
     \<and> chan_msgs (onu_Channel (the_onu i j d2)) = chan_msgs (onu_Channel (the_onu i j d)) @ [FlowAddMsg flow]"
proof -
  obtain i j gems allocs c where a: "GetPonById (ucast (AccessIntfId flow)) (Pons d) = Some i" "GetOnuById (ucast (fl_OnuId flow)) (Onus (Pons d ! i)) = Some j"
    "add_flow_resources flow (GemPortIDs d, AllocIDs d) = Ret (Stored, gems, allocs)" "chan_send (onu_Channel (the_onu i j d)) (FlowAddMsg flow) = Ret c"
    "d1 = (set_onu i j ((the_onu i j d)\<lparr>Flows := Flows (the_onu i j d) @ [FlowId flow], onu_Channel := c\<rparr>) d)
            \<lparr>olt_Flows := AList.update (FlowId flow) flow (olt_Flows d), GemPortIDs := gems, AllocIDs := allocs\<rparr>"
    using FlowAdd_accepted[OF assms(1-4)] by blast
  note lt = pon_by_id.lookup_in_range[OF a(1)] onu_by_id.lookup_in_range[OF a(2)]
  have notin: "FlowId flow \<notin> set (Flows (the_onu i j d))" using assms(6) nth_mem[OF lt(1)] nth_mem[OF lt(2)] unfolding fresh_flow_def the_onu_def by blast
  let ?onu = "(the_onu i j d)\<lparr>onu_Channel := c\<rparr>"
  let ?d2 = "(set_onu i j ?onu d)\<lparr>olt_Flows := AList.delete (FlowId flow) (AList.update (FlowId flow) flow (olt_Flows d)),
      GemPortIDs := freeFlowResources flow gems, AllocIDs := freeFlowResources flow allocs\<rparr>"
  have pons: "GetPonById (ucast (AccessIntfId flow)) (Pons (set_onu i j x d)) = Some i" for x
    using a(1) unfolding pon_by_id.lookup_Some by (simp add: set_onu_def nth_list_update)
  have onus: "GetOnuById (ucast (fl_OnuId flow)) (Onus (Pons (set_onu i j x d) ! i)) = Some j" if "onu_ID x = onu_ID (the_onu i j d)" for x
    using a(2) lt that unfolding onu_by_id.lookup_Some by (auto simp: set_onu_def nth_list_update the_onu_def)
  have forget: "forget_flow (FlowId flow) flow (d1\<lparr>GemPortIDs := freeFlowResources flow gems, AllocIDs := freeFlowResources flow allocs\<rparr>) = Some ?d2"
    using assms(3) lt notin pons onus by (simp add: forget_flow_def a(5) DeleteFlow_def remove1_append)
  have none: "GetOnuByFlowId (FlowId flow) (Pons ?d2) = None"
    using GetOnuByFlowId_set_onu[OF lt, of "FlowId flow" ?onu] assms(6) by (simp add: fresh_flow_def)
  have rem: "FlowRemove flow d1 = Ret (False, ?d2)"
    using forget none assms(2-4) by (simp add: FlowRemove_def remove_flow_resources_def a(5) map_of_AList_update notify_removed_def)
  have "flow_table_ok gems" "flow_table_ok allocs" "other_uses flow gems = uses (GemPortIDs d)" "other_uses flow allocs = uses (AllocIDs d)"
    using add_other_uses[OF _ _ a(3)] assms(5,6) by (simp_all add: olt_tables_ok_def fresh_flow_def)
  then have "uses (GemPortIDs ?d2) = uses (GemPortIDs d)" "uses (AllocIDs ?d2) = uses (AllocIDs d)" by (simp_all add: free_uses other_uses_def)
  moreover have "map_of (olt_Flows ?d2) = map_of (olt_Flows d)" using assms(6) by (auto simp: fresh_flow_def map_of_AList_delete map_of_AList_update)
  moreover have "chan_msgs c = chan_msgs (onu_Channel (the_onu i j d)) @ [FlowAddMsg flow]" using a(4) by (auto simp: go_simps)
  ultimately show ?thesis using rem lt by (intro exI[of _ ?d2] exI[of _ i] exI[of _ j]) simp
qed

definition sample_olt :: OltDevice where
  "sample_olt = \<lparr>olt_InternalState = SetState OltEnabled new_olt_state, olt_OperState = SetState oper_up new_oper_state, olt_channel = make_chan None,
     olt_Flows = [], ControlledActivation = Default, enablePerf = False, NniSpeed = 10000, Pons = [pw_pon sample_pon],
     Nnis = [\<lparr>nni_ID = 0, nni_OperState = new_oper_state, nni_PacketCount = 0\<rparr>], GemPortIDs = [(0, [(1, [])])], AllocIDs = [(0, [(1, [])])],
     OltServer = True, enableContext = True, PreviouslyConnected = True, olt_sent = []\<rparr>"

theorem flow_add_then_remove_witness:
  "\<exists>d1 d2. FlowAdd (sample_flow 1 7) sample_olt = Ret (True, d1) \<and> FlowRemove (sample_flow 1 7) d1 = Ret (False, d2)
     \<and> map_of (olt_Flows d2) = map_of (olt_Flows sample_olt)"
proof -
  have o1: "onu_ID sample_onu = 1" "current (onu_InternalState sample_onu) = OnuStateEnabled" "onu_Channel sample_onu = Chan (Some 2048) [] False"
    "Flows sample_onu = []" "FlowIds sample_onu = []"
    by (simp_all add: sample_onu_def make_chan_def)
  let ?t = "[(0, [(1, [(16, [(1024, [(7, True)])])])])] :: flow_table"
  have res: "add_flow_resources (sample_flow 1 7) ([(0, [(1, [])])], [(0, [(1, [])])]) = Ret (Stored, ?t, ?t)" by code_simp
  have f: "AccessIntfId (sample_flow 1 7) = 0" "fl_OnuId (sample_flow 1 7) = 1" "\<not> multicast_flow (sample_flow 1 7)" "FlowId (sample_flow 1 7) = 7"
    by (simp_all add: sample_flow_def multicast_flow_def)
  have add: "\<exists>d1. FlowAdd (sample_flow 1 7) sample_olt = Ret (True, d1)"
    using res by (simp add: FlowAdd_def f sample_olt_def sample_pon_def CreatePonPort_def GetPonById_def GetOnuById_def the_onu_def set_onu_def o1 send_to_onu_def)
  then obtain d1 where d1: "FlowAdd (sample_flow 1 7) sample_olt = Ret (True, d1)" ..
  have none: "uses [(0, [(1, [])])] = {}" by (auto simp: uses_def sub_map_def split: if_split_asm)
  have "fresh_flow (sample_flow 1 7) sample_olt" using none o1 by (simp add: fresh_flow_def sample_olt_def sample_pon_def f other_uses_def)
  moreover have "olt_tables_ok sample_olt" by (simp add: olt_tables_ok_def sample_olt_def flow_table_ok_def maps_ok_def uni_resources_ok_def gomap_ok_def)
  moreover have "\<not> enablePerf sample_olt" by (simp add: sample_olt_def)
  moreover have "AccessIntfId (sample_flow 1 7) \<noteq> -1" by (simp add: f)
  ultimately show ?thesis using flow_add_then_remove[OF d1 _ _ f(3)] d1 by blast
qed

section \<open>Restarting\<close>

lemma find_idx_map: "find_idx p (map f xs) = find_idx (p \<circ> f) xs"
  by (induction xs) auto

lemma olt_next:
  "map_of (transitions new_olt_state) (e, s) =
     (case e of OltTxInitialize \<Rightarrow> if s \<in> {OltCreated, OltDeleted} then Some OltInitialized else None
      | OltTxEnable \<Rightarrow> if s \<in> {OltInitialized, OltDisabled} then Some OltEnabled else None
      | OltTxDisable \<Rightarrow> if s = OltEnabled then Some OltDisabled else None
      | OltTxDelete \<Rightarrow> if s \<in> {OltDisabled, OltEnabled} then Some OltDeleted else None)"
  by (cases e) (auto simp: new_olt_state_def NewFSM_def olt_events_def)

lemma map_of_init_entries: "map_of (init_entries ps m) p = (if p \<in> set ps then Some [] else map_of m p)"
  unfolding init_entries_def by (induction ps arbitrary: m) (auto simp: map_of_AList_update)

text \<open>An ONU is enabled if it waits for it; the event is rejected in the other states.\<close>

lemma onu_enable_returns:
  assumes "world_ok w" "chan_room (onu_Channel (w_onu w)) 1" "map_of (AllocatedOnuIds (w_pon w)) (onu_ID (w_onu w)) = None"
  shows "\<exists>w'. onu_try OnuTxEnable w = Ret w' \<and> onu_ID (w_onu w') = onu_ID (w_onu w)
     \<and> onu_current w' = (if onu_current w \<in> {OnuStateDiscovered, OnuStatePonDisabled} then OnuStateEnabled else onu_current w)"
proof (cases "onu_current w \<in> {OnuStateDiscovered, OnuStatePonDisabled}")
  case True
  then obtain q where q: "onu_Channel (w_onu w) = Chan (Some 2048) q False" "length q < 2048"
    using assms(1,2) by (auto simp: world_ok_def onu_ok_def powered_def onu_current_def chan_room_def)
  show ?thesis using onu_enable_step[OF assms(1) True q assms(3)] True by (auto simp: onu_try_def onu_current_def)
next
  case False
  then have "map_of (transitions new_onu_state) (OnuTxEnable, onu_current w) = None" by (auto simp: onu_next)
  then show ?thesis using onu_Event_rejected[OF onu_okD(1), of w OnuTxEnable] assms(1) False by (auto simp: onu_try_def world_ok_def)
qed

lemma ActivateOnu_after_clear:
  assumes "GetPonById p (Pons d) = Some i" "activate_entry p onu (AllocIDs d) = Ret al" "activate_entry p onu (GemPortIDs d) = Ret g"
    "pon_Tables (Pons d ! i) = empty_tables"
  shows "case GetOnuBySn sn (Onus (Pons d ! i)) of None \<Rightarrow> ActivateOnu p onu sn d = Panic NilDereference
     | Some j \<Rightarrow> onu_ok (the_onu i j d) \<and> chan_room (onu_Channel (the_onu i j d)) 1 \<longrightarrow>
         (\<exists>d'. ActivateOnu p onu sn d = Ret (True, d') \<and> onu_ID (the_onu i j d') = onu
            \<and> current (onu_InternalState (the_onu i j d')) = (let s = current (onu_InternalState (the_onu i j d))
                in if s \<in> {OnuStateDiscovered, OnuStatePonDisabled} then OnuStateEnabled else s))"
proof (cases "GetOnuBySn sn (Onus (Pons d ! i))")
  case None
  then show ?thesis using assms(1-3) by (simp add: ActivateOnu_def)
next
  case (Some j)
  have r: "i < length (Pons d)" "j < length (Onus (Pons d ! i))"
    using pon_by_id.lookup_in_range[OF assms(1)] onu_by_sn.lookup_in_range[OF Some] by simp_all
  let ?d = "d\<lparr>AllocIDs := al, GemPortIDs := g\<rparr>"
  let ?w = "on_onu (\<lambda>o1. o1\<lparr>onu_ID := onu\<rparr>) (onu_view (the_onu i j ?d) (pon_Tables (Pons ?d ! i), olt_channel ?d, olt_sent ?d))"
  have "\<exists>d'. ActivateOnu p onu sn d = Ret (True, d') \<and> onu_ID (the_onu i j d') = onu
      \<and> current (onu_InternalState (the_onu i j d')) = (let s = current (onu_InternalState (the_onu i j d))
          in if s \<in> {OnuStateDiscovered, OnuStatePonDisabled} then OnuStateEnabled else s)"
    if ok: "onu_ok (the_onu i j d)" "chan_room (onu_Channel (the_onu i j d)) 1"
  proof -
    have "world_ok ?w" "chan_room (onu_Channel (w_onu ?w)) 1" "map_of (AllocatedOnuIds (w_pon ?w)) (onu_ID (w_onu ?w)) = None"
      using ok assms(4) by (simp_all add: world_ok_def onu_ok_def onu_view_def the_onu_def empty_tables_def tables_ok_def)
    from onu_enable_returns[OF this] obtain w' where w': "onu_try OnuTxEnable ?w = Ret w'" "onu_ID (w_onu w') = onu"
      "onu_current w' = (if onu_current ?w \<in> {OnuStateDiscovered, OnuStatePonDisabled} then OnuStateEnabled else onu_current ?w)"
      by auto
    show ?thesis using assms(1-3) Some w' r
      by (auto simp: ActivateOnu_def on_olt_onu_def the_onu_def onu_current_def onu_view_def Let_def)
  qed
  then show ?thesis using Some by simp
qed

text \<open>
  C21: resources over a restart. Deleting a running OLT clears the tables that were learnt from flows and those of every PON
  port. From then on until the OLT is initialised again, every activation of an ONU on a known port writes to a nil map
  and stops the process; \<open>RestartOLT\<close> leaves the server running for five seconds in this state. Initialising
  it returns once the server has been stopped; after that no resource is in use, and on every known port a serial number that is known there is activated again: the call succeeds, the ONU gets
  the id that was asked for, and it is enabled if it was discovered or its PON had been disabled. (The ONU satisfies its invariant and its channel has
  room.) An unknown serial number is dereferenced and stops the process.
\<close>

theorem olt_restart_resources:
  assumes "transitions (olt_InternalState d) = transitions new_olt_state" "current (olt_InternalState d) \<in> {OltEnabled, OltDisabled}"
    and "Nnis d \<noteq> []" "\<forall>i < length (Pons d). pon_ID (Pons d ! i) = of_nat i"
  shows "\<exists>d1 d2. olt_Event OltTxDelete d = Ret (None, d1) \<and> (\<forall>p \<in> set (Pons d1). pon_Tables p = empty_tables)
     \<and> (\<forall>p onu sn. GetPonById p (Pons d) \<noteq> None \<longrightarrow> ActivateOnu p onu sn d1 = Panic NilMapWrite)
     \<and> olt_Event OltTxInitialize (StopOltServer d1) = Ret (None, d2) \<and> uses (GemPortIDs d2) = {} \<and> uses (AllocIDs d2) = {}
     \<and> (\<forall>p i onu sn. GetPonById p (Pons d) = Some i \<longrightarrow>
          (case GetOnuBySn sn (Onus (Pons d ! i)) of None \<Rightarrow> ActivateOnu p onu sn d2 = Panic NilDereference
           | Some j \<Rightarrow> onu_ok (the_onu i j d) \<and> chan_room (onu_Channel (the_onu i j d)) 1 \<longrightarrow>
               (\<exists>d3. ActivateOnu p onu sn d2 = Ret (True, d3) \<and> onu_ID (the_onu i j d3) = onu
                  \<and> current (onu_InternalState (the_onu i j d3)) = (let s = current (onu_InternalState (the_onu i j d))
                      in if s \<in> {OnuStateDiscovered, OnuStatePonDisabled} then OnuStateEnabled else s))))"
proof -
  let ?d1 = "clearAllResources (put_olt_state (SetState OltDeleted (olt_InternalState d)) d)"
  have ev1: "olt_Event OltTxDelete d = Ret (None, ?d1)"
    using assms(1,2) by (auto simp: olt_Event_def fsm_Event_def olt_next enter_olt_def Let_def)
  have d1: "GemPortIDs ?d1 = []" "AllocIDs ?d1 = []" "Nnis ?d1 = Nnis d" "length (Pons ?d1) = length (Pons d)"
    "transitions (olt_InternalState ?d1) = transitions new_olt_state" "current (olt_InternalState ?d1) = OltDeleted"
    using assms(1) by (simp_all add: clearAllResources_def put_olt_state_def)
  have ids: "GetPonById p (Pons ?d1) = GetPonById p (Pons d)" for p
    by (simp add: GetPonById_def clearAllResources_def put_olt_state_def find_idx_map comp_def)
  have tables: "\<forall>p \<in> set (Pons ?d1). pon_Tables p = empty_tables"
    by (auto simp: clearAllResources_def empty_tables_def removeAllOnuIds_def removeAllGemPorts_def removeAllAllocIds_def)
  have nil: "ActivateOnu p onu sn ?d1 = Panic NilMapWrite" if "GetPonById p (Pons d) \<noteq> None" for p onu sn
    using that ids d1 by (auto simp: ActivateOnu_def activate_entry_def)
  let ?ids = "map of_nat [0..<length (Pons d)] :: uint32 list"
  obtain n ns where n: "Nnis d = n # ns" using assms(3) by (cases "Nnis d") auto
  obtain d2 where ev2: "olt_Event OltTxInitialize (StopOltServer ?d1) = Ret (None, d2)"
    and t2: "GemPortIDs d2 = init_entries ?ids []" "AllocIDs d2 = init_entries ?ids []" "Pons d2 = Pons ?d1"
    using d1 n by (simp add: olt_Event_def fsm_Event_def olt_next enter_olt_def InitOlt_def put_olt_state_def StopOltServer_def Let_def)
  have free: "uses (init_entries ?ids []) = {}" by (auto simp: uses_def sub_map_def map_of_init_entries split: if_split_asm)
  have again: "case GetOnuBySn sn (Onus (Pons d ! i)) of None \<Rightarrow> ActivateOnu p onu sn d2 = Panic NilDereference
       | Some j \<Rightarrow> onu_ok (the_onu i j d) \<and> chan_room (onu_Channel (the_onu i j d)) 1 \<longrightarrow>
           (\<exists>d3. ActivateOnu p onu sn d2 = Ret (True, d3) \<and> onu_ID (the_onu i j d3) = onu
              \<and> current (onu_InternalState (the_onu i j d3)) = (let s = current (onu_InternalState (the_onu i j d))
                  in if s \<in> {OnuStateDiscovered, OnuStatePonDisabled} then OnuStateEnabled else s))"
    if p: "GetPonById p (Pons d) = Some i" for p i onu sn
  proof -
    have i: "i < length (Pons d)" "p \<in> set ?ids"
      using p assms(4) pon_by_id.lookup_in_range[of p "Pons d"] pon_by_id.lookup_matches[of p "Pons d"] by fastforce+
    then obtain al g where e: "activate_entry p onu (AllocIDs d2) = Ret al" "activate_entry p onu (GemPortIDs d2) = Ret g"
      by (simp add: t2 activate_entry_def map_of_init_entries)
    have same: "Onus (Pons d2 ! i) = Onus (Pons d ! i)" "the_onu i j d2 = the_onu i j d" for j
      using i(1) by (simp_all add: t2(3) the_onu_def clearAllResources_def put_olt_state_def)
    have "pon_Tables (Pons d2 ! i) = empty_tables" using tables i(1) d1(4) by (simp add: t2(3))
    moreover have "GetPonById p (Pons d2) = Some i" using p ids by (simp add: t2(3))
    ultimately show ?thesis using ActivateOnu_after_clear[OF _ e, of i sn] unfolding same by blast
  qed
  show ?thesis
    by (intro exI[of _ ?d1] exI[of _ d2] conjI allI impI ev1 tables nil ev2 again) (use free t2 in simp_all)
qed

theorem olt_restart_resources_witness:
  "\<exists>d1 d2 d3. olt_Event OltTxDelete sample_olt = Ret (None, d1) \<and> ActivateOnu 0 1 [] d1 = Panic NilMapWrite
     \<and> olt_Event OltTxInitialize (StopOltServer d1) = Ret (None, d2)
     \<and> ActivateOnu 0 7 (VendorSpecific (onu_SerialNumber sample_onu)) d2 = Ret (True, d3) \<and> onu_ID (the_onu 0 0 d3) = 7"
proof -
  have s: "transitions (olt_InternalState sample_olt) = transitions new_olt_state" "current (olt_InternalState sample_olt) \<in> {OltEnabled, OltDisabled}"
    "Nnis sample_olt \<noteq> []" "\<forall>i < length (Pons sample_olt). pon_ID (Pons sample_olt ! i) = of_nat i"
    by (simp_all add: sample_olt_def sample_pon_def CreatePonPort_def)
  have p: "GetPonById 0 (Pons sample_olt) = Some 0" "Onus (Pons sample_olt ! 0) = [sample_onu]" "the_onu 0 0 sample_olt = sample_onu"
    by (simp_all add: sample_olt_def sample_pon_def CreatePonPort_def GetPonById_def the_onu_def)
  have j: "GetOnuBySn (VendorSpecific (onu_SerialNumber sample_onu)) (Onus (Pons sample_olt ! 0)) = Some 0"
    by (simp add: p(2) GetOnuBySn_def)
  have o1: "onu_ok (the_onu 0 0 sample_olt) \<and> chan_room (onu_Channel (the_onu 0 0 sample_olt)) 1"
    using sample_world_ok by (simp add: p(3) sample_world_def world_ok_def chan_room_def)
  obtain d1 d2 where d: "olt_Event OltTxDelete sample_olt = Ret (None, d1)"
    "\<forall>p onu sn. GetPonById p (Pons sample_olt) \<noteq> None \<longrightarrow> ActivateOnu p onu sn d1 = Panic NilMapWrite"
    "olt_Event OltTxInitialize (StopOltServer d1) = Ret (None, d2)"
    "\<forall>p i onu sn. GetPonById p (Pons sample_olt) = Some i \<longrightarrow>
          (case GetOnuBySn sn (Onus (Pons sample_olt ! i)) of None \<Rightarrow> ActivateOnu p onu sn d2 = Panic NilDereference
           | Some j \<Rightarrow> onu_ok (the_onu i j sample_olt) \<and> chan_room (onu_Channel (the_onu i j sample_olt)) 1 \<longrightarrow>
               (\<exists>d3. ActivateOnu p onu sn d2 = Ret (True, d3) \<and> onu_ID (the_onu i j d3) = onu
                  \<and> current (onu_InternalState (the_onu i j d3)) = (let s = current (onu_InternalState (the_onu i j sample_olt))
                      in if s \<in> {OnuStateDiscovered, OnuStatePonDisabled} then OnuStateEnabled else s)))"
    using olt_restart_resources[OF s] by (elim exE conjE)
  have "ActivateOnu 0 1 [] d1 = Panic NilMapWrite" using d(2) p(1) by simp
  moreover obtain d3 where "ActivateOnu 0 7 (VendorSpecific (onu_SerialNumber sample_onu)) d2 = Ret (True, d3)" "onu_ID (the_onu 0 0 d3) = 7"
    using d(4)[rule_format, OF p(1), where onu = 7 and sn = "VendorSpecific (onu_SerialNumber sample_onu)"] unfolding j using o1 by auto
  ultimately show ?thesis using d(1,3) by blast
qed

end
