(* ===== verification/DhcpServer.thy ===== *)
theory DhcpServer
  imports Dhcp
begin

text \<open>
  The DHCP server behind the NNI (\<open>internal/bbsim/responders/dhcp/dhcp_server.go\<close>), and the exchange of the client of a service with it.
  The serialiser \<open>ser\<close> of gopacket gives the bytes of the untagged frame to a MAC address, or fails.
\<close>

section \<open>Definitions\<close>

definition getPacketHostName :: "DHCPv4 \<Rightarrow> byte list option" where
  "getPacketHostName dhcpLayer = map_option opt_Data (find (\<lambda>opt. opt_Type opt = 12) (Options dhcpLayer))"

definition getOption82 :: "DHCPv4 \<Rightarrow> byte list" where
  "getOption82 dhcpLayer = (case find (\<lambda>opt. opt_Type opt = 82) (Options dhcpLayer) of None \<Rightarrow> [] | Some opt \<Rightarrow> opt_Data opt)"

text \<open>The bytes 2 to 5 of the address are read unchecked, and the sum is a byte.\<close>

definition createIpFromMacAddress :: "byte list \<Rightarrow> byte list go" where
  "createIpFromMacAddress mac =
     (if length mac < 6 then Panic IndexOutOfRange else Ret [10 + mac ! 2, mac ! 3, mac ! 4, mac ! 5])"

definition createDefaultDhcpReply :: "uint32 \<Rightarrow> byte list \<Rightarrow> DHCPv4 go" where
  "createDefaultDhcpReply xid mac =
     go_bind (createIpFromMacAddress mac) (\<lambda>clientIp.
     Ret \<lparr>Operation = 2, Xid = xid, ClientHWAddr = mac, YourClientIP = clientIp, Options = []\<rparr>)"

definition getDefaultDhcpServerOptions :: "byte list \<Rightarrow> byte list \<Rightarrow> DHCPOption list" where
  "getDefaultDhcpServerOptions host option82 = [\<lparr>opt_Type = 12, opt_Data = host\<rparr>, \<lparr>opt_Type = 82, opt_Data = option82\<rparr>]"

text \<open>The layer of an answer of the given message type.\<close>

definition server_reply :: "byte \<Rightarrow> DHCPv4 \<Rightarrow> DHCPv4 option go" where
  "server_reply ty dhcpLayer =
     (case getPacketHostName dhcpLayer of None \<Rightarrow> Ret None
      | Some host \<Rightarrow>
          go_bind (createDefaultDhcpReply (Xid dhcpLayer) (ClientHWAddr dhcpLayer)) (\<lambda>r.
          Ret (Some (r\<lparr>Options := [\<lparr>opt_Type = 53, opt_Data = [ty]\<rparr>] @ getDefaultDhcpServerOptions host (getOption82 dhcpLayer)
                 @ [\<lparr>opt_Type = 61, opt_Data = 1 # ClientHWAddr dhcpLayer\<rparr>]\<rparr>))))"

definition tag_reply :: "uint16 \<times> uint16 \<Rightarrow> byte list \<Rightarrow> byte list" where
  "tag_reply tags bytes =
     (if snd tags \<noteq> 0 then PushDoubleTag (uint (fst tags)) (uint (snd tags)) bytes 0 else PushSingleTag (uint (fst tags)) bytes 0)"

text \<open>What \<open>handleDiscover\<close> and \<open>handleRequest\<close> share; \<open>None\<close> is an error.\<close>

definition handle_server :: "dhcp_serializer \<Rightarrow> byte \<Rightarrow> Packet \<Rightarrow> byte list option go" where
  "handle_server ser ty pkt =
     (case (GetTagsFromPacket (Data pkt), LayerDHCPv4 pkt) of
        (Some tags, Some dhcpLayer) \<Rightarrow>
          go_bind (server_reply ty dhcpLayer) (\<lambda>r.
          Ret (case r of None \<Rightarrow> None | Some reply \<Rightarrow> map_option (tag_reply tags) (ser (ClientHWAddr dhcpLayer) reply)))
      | _ \<Rightarrow> Ret None)"

definition handleDiscover :: "dhcp_serializer \<Rightarrow> Packet \<Rightarrow> byte list option go" where
  "handleDiscover ser = handle_server ser 2"

definition handleRequest :: "dhcp_serializer \<Rightarrow> Packet \<Rightarrow> byte list option go" where
  "handleRequest ser = handle_server ser 5"

text \<open>The layer is used unchecked; a reply is only logged.\<close>

definition HandleServerPacket :: "dhcp_serializer \<Rightarrow> Packet \<Rightarrow> byte list option go" where
  "HandleServerPacket ser pkt =
     (case LayerDHCPv4 pkt of None \<Rightarrow> Panic NilDereference
      | Some dhcpLayer \<Rightarrow>
          (case GetDhcpMessageType (Options dhcpLayer) of
             Some MsgDiscover \<Rightarrow> handleDiscover ser pkt
           | Some MsgRequest \<Rightarrow> handleRequest ser pkt
           | _ \<Rightarrow> Ret None))"

section \<open>Leases\<close>

lemma client_host: "client_layer c m d \<Longrightarrow> getPacketHostName d \<noteq> None"
  by (auto simp: client_layer_def getPacketHostName_def find_None_iff)

lemma server_reply_answers:
  assumes "getPacketHostName d \<noteq> None" "length (ClientHWAddr d) = 6"
  shows "\<exists>r. server_reply ty d = Ret (Some r) \<and> Operation r = 2 \<and> Xid r = Xid d \<and> ClientHWAddr r = ClientHWAddr d
     \<and> createIpFromMacAddress (ClientHWAddr d) = Ret (YourClientIP r) \<and> GetDhcpMessageType (Options r) = msg_type_of_data [ty]"
  using assms by (auto simp: server_reply_def createDefaultDhcpReply_def createIpFromMacAddress_def)

lemma msg_type_data [simp]: "msg_type_of_data [2] = Some MsgOffer" "msg_type_of_data [5] = Some MsgAck"
  by simp_all

lemma ip_determines_mac:
  assumes "length m = 6" "createIpFromMacAddress m = Ret ip"
  shows "\<forall>mac. createIpFromMacAddress mac = Ret ip \<longrightarrow> take 4 (drop 2 mac) = drop 2 m"
proof (intro allI impI)
  fix mac assume "createIpFromMacAddress mac = Ret ip"
  then have eq: "length mac \<ge> 6" "mac ! 2 = m ! 2" "mac ! 3 = m ! 3" "mac ! 4 = m ! 4" "mac ! 5 = m ! 5"
    using assms by (auto simp: createIpFromMacAddress_def split: if_split_asm)
  show "take 4 (drop 2 mac) = drop 2 m"
  proof (rule nth_equalityI)
    fix i assume "i < length (take 4 (drop 2 mac))"
    then consider "i = 0" | "i = 1" | "i = 2" | "i = 3" by fastforce
    then show "take 4 (drop 2 mac) ! i = drop 2 m ! i" using eq assms(1) by cases simp_all
  qed (use eq(1) assms(1) in simp)
qed

text \<open>A packet with a DHCP layer and a VLAN tag.\<close>

definition carries :: "Packet \<Rightarrow> DHCPv4 \<Rightarrow> bool" where
  "carries pkt d \<longleftrightarrow> LayerDHCPv4 pkt = Some d \<and> GetTagsFromPacket (Data pkt) \<noteq> None"

lemma low_12_bits: "(w :: uint16) AND 0x0FFF < 4096"
proof -
  have "unat (take_bit 12 w) < 2 ^ 12" unfolding unsigned_take_bit_eq by (rule take_bit_nat_less_exp)
  then show ?thesis by (simp add: word_less_nat_alt mask_12 flip: take_bit_eq_mask del: mask_numeral)
qed

lemma vlan_12_bits: "getDot1QLayer f = Some d \<Longrightarrow> VLANIdentifier d < 4096"
  by (auto simp: getDot1QLayer_def decodeDot1Q_def low_12_bits split: option.split_asm if_split_asm)

lemma tags_12_bits: "GetTagsFromPacket f = Some (a, b) \<Longrightarrow> a < 4096 \<and> b < 4096"
  by (auto simp: GetTagsFromPacket_def GetVlanTag_def vlan_12_bits split: option.split_asm bind_split_asm)

lemma server_answers:
  assumes "carries pkt d" "client_layer c m d" "length (dc_hwAddress c) = 6"
    "\<And>r. ClientHWAddr r = dc_hwAddress c \<Longrightarrow> ser (dc_hwAddress c) r \<noteq> None"
    "m = MsgDiscover \<and> ty = 2 \<or> m = MsgRequest \<and> ty = 5"
  shows "\<exists>tags r b. HandleServerPacket ser pkt = Ret (Some (tag_reply tags b)) \<and> ser (dc_hwAddress c) r = Some b
     \<and> GetTagsFromPacket (Data pkt) = Some tags \<and> Operation r = 2 \<and> Xid r = Xid d \<and> ClientHWAddr r = dc_hwAddress c
     \<and> createIpFromMacAddress (dc_hwAddress c) = Ret (YourClientIP r) \<and> GetDhcpMessageType (Options r) = msg_type_of_data [ty]"
proof -
  note l = client_host[OF assms(2)] assms(2)[unfolded client_layer_def]
  obtain r where r: "server_reply ty d = Ret (Some r)" "Operation r = 2" "Xid r = Xid d" "ClientHWAddr r = dc_hwAddress c"
    "createIpFromMacAddress (dc_hwAddress c) = Ret (YourClientIP r)" "GetDhcpMessageType (Options r) = msg_type_of_data [ty]"
    using server_reply_answers[of d ty] l assms(3) by auto
  obtain b where b: "ser (dc_hwAddress c) r = Some b" using assms(4)[OF r(4)] by blast
  obtain tags where t: "LayerDHCPv4 pkt = Some d" "GetTagsFromPacket (Data pkt) = Some tags" using assms(1) by (auto simp: carries_def)
  have "HandleServerPacket ser pkt = handle_server ser ty pkt"
    using assms(5) t l by (auto simp: HandleServerPacket_def handleDiscover_def handleRequest_def)
  also have "\<dots> = Ret (Some (tag_reply tags b))" using t r(1) b l by (simp add: handle_server_def)
  finally show ?thesis using r(2-) t(2) b by blast
qed


section \<open>A concrete network\<close>

text \<open>
  A serialiser and its decoder for which the assumptions hold: the fields of the layer are written as a list of byte strings
  (1 before a byte, 2 at the end of a string, 0 at the end) behind an Ethernet header. The decoder skips one or two tags.
\<close>

fun write_strings :: "byte list list \<Rightarrow> byte list" where
  "write_strings [] = [0, 0]"
| "write_strings (xs # xss) = concat (map (\<lambda>b. [1, b]) xs) @ [2, 0] @ write_strings xss"

fun read_strings :: "byte list \<Rightarrow> byte list \<Rightarrow> byte list list" where
  "read_strings cur (t # b # r) =
     (if t = 1 then read_strings (cur @ [b]) r else if t = 2 then cur # read_strings [] r else [])"
| "read_strings cur _ = []"

lemma read_string: "read_strings cur (concat (map (\<lambda>b. [1, b]) xs) @ r) = read_strings (cur @ xs) r"
  by (induction xs arbitrary: cur) simp_all

lemma read_write_strings: "read_strings [] (write_strings xss @ r) = xss"
  by (induction xss) (simp_all add: read_string)

definition write_word :: "uint32 \<Rightarrow> byte list" where
  "write_word x = map (\<lambda>i. of_bool (bit x i)) [0..<32]"

definition read_word :: "byte list \<Rightarrow> uint32" where
  "read_word bs = horner_sum of_bool 2 (map (\<lambda>b. b \<noteq> 0) bs)"

lemma read_write_word: "read_word (write_word x) = x"
proof -
  have "map (\<lambda>b :: byte. b \<noteq> 0) (write_word x) = map (bit x) [0..<32]" by (simp add: write_word_def)
  then have "read_word (write_word x) = take_bit 32 x" by (simp add: read_word_def horner_sum_bit_eq_take_bit)
  then show ?thesis by (simp add: take_bit_word_eq_self)
qed

fun read_options :: "byte list list \<Rightarrow> DHCPOption list" where
  "read_options ([t] # d # r) = \<lparr>opt_Type = t, opt_Data = d\<rparr> # read_options r"
| "read_options _ = []"

lemma read_options: "read_options (concat (map (\<lambda>opt. [[opt_Type opt], opt_Data opt]) opts)) = opts"
  by (induction opts) simp_all

definition write_layer :: "DHCPv4 \<Rightarrow> byte list" where
  "write_layer d = write_strings ([[Operation d], write_word (Xid d), ClientHWAddr d, YourClientIP d]
     @ concat (map (\<lambda>opt. [[opt_Type opt], opt_Data opt]) (Options d)))"

definition read_layer :: "byte list \<Rightarrow> DHCPv4 option" where
  "read_layer bs = (case read_strings [] bs of
       [op] # x # hw # ip # opts \<Rightarrow> Some \<lparr>Operation = op, Xid = read_word x, ClientHWAddr = hw, YourClientIP = ip, Options = read_options opts\<rparr>
     | _ \<Rightarrow> None)"

lemma read_write_layer: "read_layer (write_layer d @ r) = Some d"
  by (simp only: read_layer_def write_layer_def read_write_strings) (simp add: read_write_word read_options)

definition sample_ser :: dhcp_serializer where
  "sample_ser mac d = Some (replicate 12 1 @ be16 0x0800 @ write_layer d @ replicate 46 0)"

definition sample_decode :: "byte list \<Rightarrow> Packet" where
  "sample_decode f = \<lparr>Data = f, LayerEAP = None, LayerEAPOL = None,
     LayerDHCPv4 = read_layer (drop (if take 2 (drop 16 f) = be16 0x8100 then 22 else 18) f),
     LayerIGMP = None, LayerICMPv6 = False, LayerLLDP = False\<rparr>"

lemma be16_nth: "from_be16 (be16 w ! 0) (be16 w ! 1) = w"
  by (simp add: be16_def)

lemma be16_inj: "be16 v = be16 w \<Longrightarrow> v = w"
  by (metis be16_nth)

lemma sample_ser_frame:
  assumes "sample_ser mac d = Some b"
  shows "ethernet_frame b" "from_be16 (b ! 12) (b ! 13) = 0x0800" "drop 14 b = write_layer d @ replicate 46 0"
proof -
  have b: "b = replicate 6 1 @ replicate 6 1 @ be16 0x0800 @ write_layer d @ replicate 46 0"
    using assms by (simp add: sample_ser_def replicate_add[of 6 6, simplified])
  show "from_be16 (b ! 12) (b ! 13) = 0x0800" unfolding b by (rule frame_type) simp_all
  then show "ethernet_frame b" using b by (simp add: ethernet_frame_def)
  show "drop 14 b = write_layer d @ replicate 46 0" by (simp add: b)
qed

lemma push_drop:
  assumes "ethernet_frame f" "0 \<le> t" "t < 4096"
  shows "drop 16 (PushSingleTag t f p) = be16 (from_be16 (f ! 12) (f ! 13)) @ drop 14 f"
    "drop 14 (PushSingleTag t f p) = be16 (tci t p) @ be16 (from_be16 (f ! 12) (f ! 13)) @ drop 14 f"
    "from_be16 (PushSingleTag t f p ! 12) (PushSingleTag t f p ! 13) = 0x8100"
proof -
  have l: "length (take 6 f) = 6" "length (take 6 (drop 6 f)) = 6" using assms(1) by (auto simp: ethernet_frame_def)
  have "drop 16 (a @ b @ be16 u @ be16 v @ r) = r" "drop 14 (a @ b @ be16 u @ be16 v @ r) = be16 v @ r"
    if "length a = 6" "length b = 6" for a b r :: "byte list" and u v using that by simp_all
  from this[OF l] show "drop 16 (PushSingleTag t f p) = be16 (from_be16 (f ! 12) (f ! 13)) @ drop 14 f"
    "drop 14 (PushSingleTag t f p) = be16 (tci t p) @ be16 (from_be16 (f ! 12) (f ! 13)) @ drop 14 f"
    unfolding PushSingleTag_bytes[OF assms] by blast+
  show "from_be16 (PushSingleTag t f p ! 12) (PushSingleTag t f p ! 13) = 0x8100"
    unfolding PushSingleTag_bytes[OF assms] by (rule frame_type[OF l])
qed

lemma sample_decode_single:
  assumes "sample_ser mac d = Some b" "0 \<le> t" "t < 4096"
  shows "LayerDHCPv4 (sample_decode (PushSingleTag t b p)) = Some d"
proof -
  note f = sample_ser_frame[OF assms(1)]
  have d: "drop 16 (PushSingleTag t b p) = be16 0x0800 @ write_layer d @ replicate 46 0"
    using push_drop(1)[OF f(1) assms(2,3)] f(2,3) by simp
  have "drop 18 (PushSingleTag t b p) = drop 2 (drop 16 (PushSingleTag t b p))" by simp
  then have "drop 18 (PushSingleTag t b p) = write_layer d @ replicate 46 0" unfolding d by simp
  moreover have "be16 0x0800 \<noteq> be16 0x8100" by (auto dest: be16_inj)
  ultimately show ?thesis using d by (auto simp: sample_decode_def read_write_layer)
qed

lemma sample_decode_double:
  assumes "sample_ser mac d = Some b" "0 \<le> t" "t < 4096" "0 \<le> u" "u < 4096"
  shows "LayerDHCPv4 (sample_decode (PushDoubleTag t u b p)) = Some d"
proof -
  note f = sample_ser_frame[OF assms(1)]
  let ?g = "PushSingleTag u b p"
  have d: "drop 16 (PushDoubleTag t u b p) = be16 0x8100 @ drop 14 ?g"
    unfolding PushDoubleTag_def push_drop(1)[OF ethernet_frame_push[OF f(1) assms(4,5)] assms(2,3)] push_drop(3)[OF f(1) assms(4,5)] ..
  have "drop 22 (PushDoubleTag t u b p) = drop 6 (drop 16 (PushDoubleTag t u b p))" by simp
  also have "\<dots> = write_layer d @ replicate 46 0" unfolding d push_drop(2)[OF f(1) assms(4,5)] f(3) by simp
  finally show ?thesis using d by (simp add: sample_decode_def read_write_layer)
qed

lemma sample_decode_reply:
  assumes "sample_ser mac d = Some b" "t1 < 4096" "t2 < 4096"
  shows "LayerDHCPv4 (sample_decode (tag_reply (t1, t2) b)) = Some d"
  using sample_decode_single[OF assms(1)] sample_decode_double[OF assms(1)] assms(2,3)
  by (simp add: tag_reply_def word_less_def)

lemma sample_carries:
  assumes "sample_ser mac d = Some b"
  shows "carries (sample_decode (PushSingleTag 900 b 0)) d"
proof -
  note f = sample_ser_frame(1)[OF assms]
  have "GetTagsFromPacket (PushSingleTag 900 b 0) \<noteq> None"
    unfolding GetTagsFromPacket_def GetVlanTag_def
    using getDot1QLayer_push[OF f, of 900 0] PopSingleTag_push[OF f, of 900 0] by (simp split: option.split)
  then show ?thesis using sample_decode_single[OF assms, of 900 0] by (simp add: carries_def sample_decode_def)
qed


end
