(* ===== verification/OltCalls.thy ===== *)
theory OltCalls
  imports Olt DhcpServer
begin

text \<open>
  The rest of the OLT (\<open>internal/bbsim/devices/olt.go\<close>): its creation from the configuration, \<open>Enable\<close> and \<open>RestartOLT\<close>,
  look-ups by serial number and MAC address, packets towards the ONUs, alarms, port statistics, traffic schedulers and what it
  reports about itself, its ports and its ONUs.
\<close>

section \<open>Look-ups\<close>

definition OnuSnToString :: "SerialNumber \<Rightarrow> string" where
  "OnuSnToString sn = map (char_of \<circ> unat) (VendorId sn)
     @ concat (map (\<lambda>i. [char_of (unat (hex_digit (i div 16))), char_of (unat (hex_digit (i mod 16)))]) (VendorSpecific sn))"

definition Sn :: "Onu \<Rightarrow> string" where
  "Sn o1 = OnuSnToString (onu_SerialNumber o1)"

definition FindOnuBySn :: "string \<Rightarrow> PonPort list \<Rightarrow> (nat \<times> nat) option" where
  "FindOnuBySn sn = find_onu (\<lambda>o1. Sn o1 = sn)"

definition FindOnuById :: "uint32 \<Rightarrow> uint32 \<Rightarrow> PonPort list \<Rightarrow> (nat \<times> nat) option" where
  "FindOnuById intfId onuId ps =
     (case find_idx (\<lambda>p. pon_ID p = intfId \<and> list_ex (\<lambda>o1. onu_ID o1 = onuId) (Onus p)) ps of None \<Rightarrow> None
      | Some i \<Rightarrow> map_option (Pair i) (find_idx (\<lambda>o1. onu_ID o1 = onuId) (Onus (ps ! i))))"

text \<open>The port, the ONU, the UNI and the service.\<close>

definition FindServiceByMacAddress :: "byte list \<Rightarrow> PonPort list \<Rightarrow> (nat \<times> nat \<times> nat \<times> nat) option" where
  "FindServiceByMacAddress mac ps =
     (case find_onu (\<lambda>o1. onu_findServiceByMacAddress mac (UniPorts o1) \<noteq> None) ps of None \<Rightarrow> None
      | Some (i, j) \<Rightarrow> map_option (\<lambda>(u, s). (i, j, u, s)) (onu_findServiceByMacAddress mac (UniPorts (Onus (ps ! i) ! j))))"

definition HasNni :: "uint32 \<Rightarrow> OltDevice \<Rightarrow> bool" where
  "HasNni i d \<longleftrightarrow> list_ex (\<lambda>n. nni_ID n = i) (Nnis d)"

definition HasPon :: "uint32 \<Rightarrow> OltDevice \<Rightarrow> bool" where
  "HasPon i d \<longleftrightarrow> list_ex (\<lambda>p. pon_ID p = i) (Pons d)"

section \<open>Creation\<close>

definition ControlledActivationModes :: "(string, mode) gomap" where
  "ControlledActivationModes = [(''default'', Default), (''only-onu'', OnlyONU), (''only-pon'', OnlyPON), (''both'', Both)]"

text \<open>What \<open>CreateOLT\<close> reads of the configuration; the technology of \<open>oo_onu\<close> is set from the port.\<close>

record olt_options =
  oo_NniSpeed :: uint32
  oo_PonPorts :: nat
  oo_OnusPonPort :: nat
  oo_EnablePerf :: bool
  oo_ControlledActivation :: string
  oo_PonsConfig :: "PonPortsConfig option"
  oo_onu :: onu_config

text \<open>The ONUs of a port; each has a serial number of its own, \<open>ref + j\<close>.\<close>

fun create_onus :: "onu_config \<Rightarrow> nat \<Rightarrow> uint32 \<Rightarrow> nat list \<Rightarrow> tag_state \<Rightarrow> (Onu list \<times> tag_state) go" where
  "create_onus c ref p [] t = Ret ([], t)"
| "create_onus c ref p (j # js) t =
     go_bind (CreateONU c (ref + j) p (of_nat (j + 1)) t) (\<lambda>(o1, t1).
     go_bind (create_onus c ref p js t1) (\<lambda>(os, t2). Ret (o1 # os, t2)))"

definition create_pon :: "olt_options \<Rightarrow> nat \<Rightarrow> tag_state \<Rightarrow> (PonPort \<times> tag_state) go" where
  "create_pon c i t =
     (case GetPonConfigById (oo_PonsConfig c) (of_nat i) of None \<Rightarrow> Panic FatalLog
      | Some r \<Rightarrow>
          (case PonTechnologyFromString (Technology r) of None \<Rightarrow> Panic FatalLog
           | Some tech \<Rightarrow>
               if EndId (OnuRange r) - StartId (OnuRange r) + 1 < of_nat (oo_OnusPonPort c) then Panic FatalLog
               else go_bind (create_onus ((oo_onu c)\<lparr>oc_Technology := tech\<rparr>) (i * oo_OnusPonPort c) (of_nat i) [0..<oo_OnusPonPort c] t) (\<lambda>(os, t').
                 Ret ((CreatePonPort (of_nat i))\<lparr>Onus := os\<rparr>, t'))))"

fun create_pons :: "olt_options \<Rightarrow> nat list \<Rightarrow> tag_state \<Rightarrow> (PonPort list \<times> tag_state) go" where
  "create_pons c [] t = Ret ([], t)"
| "create_pons c (i # ks) t = go_bind (create_pon c i t) (\<lambda>(p, t1). go_bind (create_pons c ks t1) (\<lambda>(ps, t2). Ret (p # ps, t2)))"

definition CreateNNI :: NniPort where
  "CreateNNI = \<lparr>nni_ID = 0, nni_OperState = new_oper_state, nni_PacketCount = 0\<rparr>"

text \<open>The OLT of BBR is a mock: it has no NNI and is not initialised.\<close>

definition CreateOLT :: "olt_options \<Rightarrow> bool \<Rightarrow> OltDevice go" where
  "CreateOLT c isMock =
     go_bind (create_pons c [0..<oo_PonPorts c] \<lparr>nextCtag = [], nextStag = []\<rparr>) (\<lambda>(ps, _).
     let ids = map of_nat [0..<oo_PonPorts c];
         d = \<lparr>olt_InternalState = new_olt_state, olt_OperState = new_oper_state, olt_channel = NilChan, olt_Flows = [],
              ControlledActivation = (case map_of ControlledActivationModes (oo_ControlledActivation c) of None \<Rightarrow> Default | Some m \<Rightarrow> m),
              enablePerf = oo_EnablePerf c, NniSpeed = oo_NniSpeed c, Pons = ps, Nnis = (if isMock then [] else [CreateNNI]),
              GemPortIDs = init_entries ids [], AllocIDs = init_entries ids [],
              OltServer = False, enableContext = False, PreviouslyConnected = False, olt_sent = []\<rparr>
     in if isMock then Ret d else go_bind (olt_Event OltTxInitialize d) (\<lambda>(_, d'). Ret d'))"

section \<open>Enabling and restarting\<close>

definition each_pon :: "(pon_world \<Rightarrow> pon_world go) \<Rightarrow> OltDevice \<Rightarrow> OltDevice go" where
  "each_pon f d = go_fold (\<lambda>i. on_olt_pon i f) [0..<length (Pons d)] d"

text \<open>
  \<open>RestartOLT\<close> in three phases, between which it sleeps for seconds. The two loops over the ONUs, for a soft and for a hard reboot, are the
  same. The function that cancels the context is nil until the OLT has been enabled.
\<close>

definition restart_delete :: "OltDevice \<Rightarrow> (bool \<times> OltDevice) go" where
  "restart_delete d =
     go_bind (olt_Event OltTxDelete (d\<lparr>PreviouslyConnected := False\<rparr>)) (\<lambda>(err, d1). if err \<noteq> None then Ret (False, d1)
     else go_bind (each_pon (each_onu (onu_try OnuTxDisable)) d1) (\<lambda>d2. Ret (True, d2)))"

definition restart_stop :: "OltDevice \<Rightarrow> OltDevice go" where
  "restart_stop d =
     go_bind (chan_close (olt_channel d)) (\<lambda>c. if \<not> enableContext d then Panic NilDereference else Ret ((StopOltServer d)\<lparr>olt_channel := c\<rparr>))"

definition restart_init :: "OltDevice \<Rightarrow> (bool \<times> OltDevice) go" where
  "restart_init d = go_bind (olt_Event OltTxInitialize d) (\<lambda>(err, d'). Ret (err = None, d'))"

definition RestartOLT :: "OltDevice \<Rightarrow> (bool \<times> OltDevice) go" where
  "RestartOLT d = go_bind (restart_delete d) (\<lambda>(ok, d1). if \<not> ok then Ret (False, d1) else go_bind (restart_stop d1) restart_init)"

definition update_streams :: "stream \<Rightarrow> Onu \<Rightarrow> Onu" where
  "update_streams st o1 = o1\<lparr>UniPorts := map (uni_UpdateStream st) (UniPorts o1)\<rparr>"

definition reconcile_onu :: "stream \<Rightarrow> mode \<Rightarrow> onu_world \<Rightarrow> onu_world go" where
  "reconcile_onu st m w = go_bind (if m \<noteq> OnlyONU then ReDiscoverOnu False w else Ret w) (\<lambda>w'. Ret (on_onu (update_streams st) w'))"

definition pon_send :: "olt_message \<Rightarrow> pon_world \<Rightarrow> pon_world go" where
  "pon_send m pw = go_bind (chan_send (pw_olt pw) m) (\<lambda>c. Ret (pw\<lparr>pw_olt := c\<rparr>))"

definition reconcile_pon :: "stream \<Rightarrow> mode \<Rightarrow> pon_world \<Rightarrow> pon_world go" where
  "reconcile_pon st m pw =
     go_bind (if current (pon_InternalState (pw_pon pw)) = pon_disabled then pon_send (PonIndicationMsg UP (pon_ID (pw_pon pw))) pw else Ret pw)
       (each_onu (reconcile_onu st m))"

text \<open>\<open>Enable\<close> up to the point where it waits for its goroutines; a second call is a reboot or a reconcile.\<close>

definition Enable :: "stream \<Rightarrow> OltDevice \<Rightarrow> (bool \<times> OltDevice) go" where
  "Enable st d =
     (if current (olt_InternalState d) = OltDeleted then Ret (False, d)
      else
        go_bind (olt_send (OltIndicationMsg UP) (d\<lparr>enableContext := True\<rparr>)) (\<lambda>d1.
        go_bind (go_fold (\<lambda>n. olt_send (NniIndicationMsg UP (nni_ID n))) (Nnis d1) d1) (\<lambda>d2.
        go_bind
          (if enableContext d then each_pon (reconcile_pon st (ControlledActivation d2)) d2
           else if ControlledActivation d2 = Default \<or> ControlledActivation d2 = OnlyONU
           then go_fold (\<lambda>p. olt_send (PonIndicationMsg UP (pon_ID p))) (Pons d2) d2
           else Ret d2) (\<lambda>d3. Ret (True, d3)))))"

section \<open>Alarms and statistics\<close>

definition InterfaceIDToPortNo :: "uint32 \<Rightarrow> string \<Rightarrow> uint32" where
  "InterfaceIDToPortNo intfID intfType =
     (if intfType = ''nni'' then 0x100000 + intfID else if intfType = ''pon'' then 0x20000000 + intfID else 0)"

definition olt_SetAlarm :: "uint32 \<Rightarrow> string \<Rightarrow> string \<Rightarrow> OltDevice \<Rightarrow> (bool \<times> OltDevice) go" where
  "olt_SetAlarm interfaceId interfaceType alarmStatus d =
     (if interfaceType = ''nni'' \<and> \<not> HasNni interfaceId d \<or> interfaceType = ''pon'' \<and> \<not> HasPon interfaceId d then Ret (False, d)
      else go_bind (olt_send (AlarmIndicationMsg (LosInd (InterfaceIDToPortNo interfaceId interfaceType) alarmStatus)) d) (\<lambda>d'. Ret (True, d')))"

text \<open>\<open>r\<close> is the random increment, from 10 to 59; the time stamp and the counters that are always 0 are left out.\<close>

definition getPortStats :: "uint64 \<Rightarrow> uint64 \<Rightarrow> bool \<Rightarrow> PortStatistics \<times> uint64" where
  "getPortStats r packetCount incrementStat =
     (let n = (if incrementStat then packetCount + r else packetCount) in
      (\<lparr>ps_IntfId = 0, RxBytes = n * 64, RxPackets = n, RxUcastPackets = n * 40 div 100, RxMcastPackets = n * 30 div 100,
        RxBcastPackets = n * 30 div 100, TxBytes = n * 64, TxPackets = n, TxUcastPackets = n * 40 div 100,
        TxMcastPackets = n * 30 div 100, TxBcastPackets = n * 30 div 100\<rparr>, n))"

definition sendPortStatsIndication :: "stream \<Rightarrow> PortStatistics \<Rightarrow> uint32 \<Rightarrow> string \<Rightarrow> OltDevice \<Rightarrow> OltDevice" where
  "sendPortStatsIndication st stats portID portType d =
     (if current (olt_InternalState d) = OltEnabled
      then olt_Send st (PortStats (stats\<lparr>ps_IntfId := InterfaceIDToPortNo portID portType\<rparr>)) d else d)"

definition nni_stats :: "stream \<Rightarrow> (nat \<Rightarrow> uint64) \<Rightarrow> nat \<Rightarrow> OltDevice \<Rightarrow> OltDevice" where
  "nni_stats st rnd k d =
     (let n = Nnis d ! k; (stats, c) = getPortStats (rnd k) (nni_PacketCount n) (current (nni_OperState n) \<noteq> oper_down)
      in sendPortStatsIndication st stats (nni_ID n) ''nni'' (d\<lparr>Nnis := (Nnis d)[k := n\<lparr>nni_PacketCount := c\<rparr>]\<rparr>))"

definition pon_stats :: "stream \<Rightarrow> (nat \<Rightarrow> uint64) \<Rightarrow> nat \<Rightarrow> OltDevice \<Rightarrow> OltDevice" where
  "pon_stats st rnd k d =
     (let p = Pons d ! k;
          (stats, c) = getPortStats (rnd k) (pon_PacketCount p) (\<not> (current (pon_OperState p) = oper_down \<or> GetNumOfActiveOnus p < 1))
      in sendPortStatsIndication st stats (pon_ID p) ''pon'' (d\<lparr>Pons := (Pons d)[k := p\<lparr>pon_PacketCount := c\<rparr>]\<rparr>))"

text \<open>One round of \<open>periodicPortStats\<close>.\<close>

definition port_stats_round :: "stream \<Rightarrow> (nat \<Rightarrow> uint64) \<Rightarrow> (nat \<Rightarrow> uint64) \<Rightarrow> OltDevice \<Rightarrow> OltDevice" where
  "port_stats_round st rnd1 rnd2 d =
     fold (pon_stats st rnd2) [0..<length (Pons d)] (fold (nni_stats st rnd1) [0..<length (Nnis d)] d)"

section \<open>Packets\<close>

record OnuPacket =
  op_IntfId :: uint32
  op_OnuId :: uint32
  op_PortNo :: uint32
  op_GemportId :: uint32
  op_Pkt :: "byte list"

definition packet_to_onu :: "OnuPacketMessage \<Rightarrow> onu_world \<Rightarrow> onu_world go" where
  "packet_to_onu msg w = (if onu_current w = OnuStateEnabled then onu_send (OnuPacketOut msg) w else Ret w)"

text \<open>
  \<open>newPacket\<close> is the decoder of gopacket. An unknown port is logged and then used. The GEM port is not copied into the message,
  so it is 0 there.
\<close>

definition olt_OnuPacketOut :: "(byte list \<Rightarrow> Packet) \<Rightarrow> OnuPacket \<Rightarrow> OltDevice \<Rightarrow> (bool \<times> OltDevice) go" where
  "olt_OnuPacketOut newPacket onuPkt d =
     (case GetPonById (op_IntfId onuPkt) (Pons d) of None \<Rightarrow> Panic NilDereference
      | Some i \<Rightarrow>
          let p = Pons d ! i;
              onus = (if op_GemportId onuPkt \<noteq> multicastGemPortId
                      then (case GetOnuById (op_OnuId onuPkt) (Onus p) of None \<Rightarrow> None | Some j \<Rightarrow> Some [j])
                      else Some [0..<length (Onus p)]);
              rawpkt = newPacket (op_Pkt onuPkt)
          in case (onus, GetPktType rawpkt, GetDstMacAddressFromPacket rawpkt) of
               (Some js, Some pktType, Some pktMac) \<Rightarrow>
                 go_bind (go_fold (\<lambda>j. on_olt_onu i j (packet_to_onu \<lparr>pm_IntfId = op_IntfId onuPkt, pm_OnuId = op_OnuId onuPkt,
                     pm_PortNo = op_PortNo onuPkt, pm_Packet = rawpkt, pm_Type = pktType, pm_MacAddress = pktMac, pm_GemPortId = 0\<rparr>)) js d)
                   (\<lambda>d'. Ret (True, d'))
             | _ \<Rightarrow> Ret (False, d))"

text \<open>\<open>UplinkPacketOut\<close> with \<open>handleNniPacket\<close>. The stream is nil until the OLT has been enabled.\<close>

definition handleNniPacket :: "dhcp_serializer \<Rightarrow> stream \<Rightarrow> NniPort \<Rightarrow> Packet \<Rightarrow> OltDevice \<Rightarrow> (bool \<times> OltDevice) go" where
  "handleNniPacket ser st n pk d =
     (if \<not> IsDhcpPacket pk then Ret (True, d)
      else go_bind (HandleServerPacket ser pk) (\<lambda>reply.
        case reply of None \<Rightarrow> Ret (False, d)
        | Some pkt \<Rightarrow>
            if \<not> enableContext d then Panic NilDereference
            else let (ok, sent) = Send st (PktInd \<lparr>pi_IntfType = ''nni'', pi_IntfId = nni_ID n, pi_GemportId = 0, pi_Pkt = pkt, pi_PortNo = 0,
                   pi_OnuId = 0, pi_UniId = 0\<rparr>) (olt_sent d)
              in Ret (ok, d\<lparr>olt_sent := sent\<rparr>)))"

definition UplinkPacketOut :: "(byte list \<Rightarrow> Packet) \<Rightarrow> dhcp_serializer \<Rightarrow> stream \<Rightarrow> byte list \<Rightarrow> OltDevice \<Rightarrow> (bool \<times> OltDevice) go" where
  "UplinkPacketOut newPacket ser st pkt d =
     (case Nnis d of [] \<Rightarrow> Panic IndexOutOfRange | n # _ \<Rightarrow> handleNniPacket ser st n (newPacket pkt) d)"

section \<open>Information\<close>

datatype OnuInfo_State = OnuInfo_UNKNOWN | OnuInfo_NOT_CONFIGURED | OnuInfo_ACTIVE | OnuInfo_INACTIVE

text \<open>The three alarms of the answer are equal: they are on while the operational state is down. An unknown ONU is used unchecked.\<close>

definition GetOnuInfo :: "uint32 \<Rightarrow> uint32 \<Rightarrow> OltDevice \<Rightarrow> (OnuInfo_State \<times> bool) option go" where
  "GetOnuInfo intfId onuId d =
     (case GetPonById intfId (Pons d) of None \<Rightarrow> Ret None
      | Some i \<Rightarrow>
          (case GetOnuById onuId (Onus (Pons d ! i)) of None \<Rightarrow> Panic NilDereference
           | Some j \<Rightarrow>
               let o1 = the_onu i j d; s = current (onu_InternalState o1) in
               Ret (Some (if s = OnuStateEnabled then OnuInfo_ACTIVE else if s = OnuStateDisabled then OnuInfo_INACTIVE
                          else if s = OnuStateCreated \<or> s = OnuStateInitialized then OnuInfo_NOT_CONFIGURED else OnuInfo_UNKNOWN,
                          current (onu_OperState o1) = oper_down))))"

datatype PonIntfInfo_State = PonIntfInfo_INACTIVE | PonIntfInfo_ACTIVE_WORKING | PonIntfInfo_ACTIVE_STANDBY

definition GetPonInterfaceInfo :: "uint32 \<Rightarrow> OltDevice \<Rightarrow> (PonIntfInfo_State \<times> bool) option" where
  "GetPonInterfaceInfo intfId d =
     (case GetPonById intfId (Pons d) of None \<Rightarrow> None
      | Some i \<Rightarrow>
          let p = Pons d ! i in
          Some (case current (pon_InternalState p) of pon_enabled \<Rightarrow> PonIntfInfo_ACTIVE_WORKING | pon_disabled \<Rightarrow> PonIntfInfo_INACTIVE
                | pon_created \<Rightarrow> PonIntfInfo_ACTIVE_STANDBY, current (pon_OperState p) = oper_down))"

definition set_schedulers :: "uint32 \<Rightarrow> uint32 \<Rightarrow> TrafficSchedulers option \<Rightarrow> OltDevice \<Rightarrow> bool \<times> OltDevice" where
  "set_schedulers intfId onuId ts d =
     (if enablePerf d then (True, d)
      else case GetPonById intfId (Pons d) of None \<Rightarrow> (False, d)
      | Some i \<Rightarrow>
          (case GetOnuById onuId (Onus (Pons d ! i)) of None \<Rightarrow> (False, d)
           | Some j \<Rightarrow> (True, set_onu i j ((the_onu i j d)\<lparr>onu_TrafficSchedulers := ts\<rparr>) d)))"

definition CreateTrafficSchedulers :: "TrafficSchedulers \<Rightarrow> OltDevice \<Rightarrow> bool \<times> OltDevice" where
  "CreateTrafficSchedulers ts = set_schedulers (ts_IntfId ts) (ts_OnuId ts) (Some ts)"

definition RemoveTrafficSchedulers :: "TrafficSchedulers \<Rightarrow> OltDevice \<Rightarrow> bool \<times> OltDevice" where
  "RemoveTrafficSchedulers ts = set_schedulers (ts_IntfId ts) (ts_OnuId ts) None"

text \<open>
  The loop of \<open>GetDeviceInfo\<close> over the ports of a range. Its counter is a \<open>uint32\<close> that wraps, so it would not end for the largest
  number as the end of the range; \<open>None\<close> stands for that.
\<close>

partial_function (option) port_ids :: "uint32 \<Rightarrow> uint32 \<Rightarrow> uint32 list option" where
  [code]: "port_ids i e = (if i \<le> e then Option.bind (port_ids (i + 1) e) (\<lambda>xs. Some (i # xs)) else Some [])"

record DeviceResourceRanges =
  IntfIds :: "uint32 list"
  dr_Technology :: string
  OnuIdPool :: "uint32 \<times> uint32"
  AllocIdPool :: "uint32 \<times> uint32"
  GemportIdPool :: "uint32 \<times> uint32"

definition bounds_of :: "IdRange \<Rightarrow> uint32 \<times> uint32" where
  "bounds_of r = (StartId r, EndId r)"

definition device_range :: "PonRangeConfig \<Rightarrow> DeviceResourceRanges option" where
  "device_range r = map_option (\<lambda>ids. \<lparr>IntfIds = ids, dr_Technology = Technology r, OnuIdPool = bounds_of (OnuRange r),
     AllocIdPool = bounds_of (AllocIdRange r), GemportIdPool = bounds_of (GemportRange r)\<rparr>)
     (port_ids (StartId (PonRange r)) (EndId (PonRange r)))"

text \<open>The ranges and the flag of an earlier connection; the texts about the vendor and the model are left out.\<close>

definition GetDeviceInfo :: "PonPortsConfig \<Rightarrow> OltDevice \<Rightarrow> (DeviceResourceRanges list \<times> bool \<times> OltDevice) option" where
  "GetDeviceInfo c d = map_option (\<lambda>rs. (rs, PreviouslyConnected d, d\<lparr>PreviouslyConnected := True\<rparr>)) (those (map device_range (Ranges c)))"

section \<open>Device information\<close>

lemma unat_largest: "unat (- 1 :: uint32) = 2 ^ 32 - 1"
  by (simp add: unsigned_minus_1_eq_mask mask_eq_exp_minus_1)

lemma port_ids_returns:
  assumes "e \<noteq> -1"
  shows "port_ids i e = Some (map of_nat [unat i..<Suc (unat e)])"
proof (induction "Suc (unat e) - unat i" arbitrary: i)
  case 0
  then have "\<not> i \<le> e" by (simp add: word_le_nat_alt)
  with 0 show ?case by (subst port_ids.simps) simp
next
  case (Suc n)
  then have le: "i \<le> e" by (simp add: word_le_nat_alt)
  have "unat e \<noteq> unat (-1 :: uint32)" using assms word_unat_eq_iff[of e "-1"] by blast
  then have "unat i + unat (1 :: uint32) < 2 ^ 32" using le unsigned_less[of e, where ?'a = nat] by (simp add: word_le_nat_alt unat_largest)
  then have "unat (i + 1) = Suc (unat i)" using unat_add_lem[of i 1] by simp
  moreover from this have "port_ids (i + 1) e = Some (map of_nat [unat (i + 1)..<Suc (unat e)])" using Suc(2) by (intro Suc(1)) simp
  ultimately show ?case using le by (subst port_ids.simps) (simp add: word_le_nat_alt upt_conv_Cons del: upt_Suc)
qed

lemma port_ids_endless: "port_ids i (-1) = None"
proof -
  have "e \<noteq> -1" if "port_ids i e = Some ids" for i e ids
    by (rule port_ids.raw_induct[OF _ that]) (auto simp: bind_eq_Some_conv split: if_split_asm)
  then show ?thesis by (cases "port_ids i (-1)") auto
qed

lemma those_map_Some: "(\<forall>x \<in> set xs. f x = Some (g x)) \<Longrightarrow> those (map f xs) = Some (map g xs)"
  by (induction xs) auto

lemma count_list_distinct: "distinct xs \<Longrightarrow> count_list xs x = of_bool (x \<in> set xs)"
  by (induction xs) auto

lemma count_range_ids:
  "count_list (concat (map (\<lambda>r. map of_nat [unat (StartId (PonRange r))..<Suc (unat (EndId (PonRange r)))]) rs)) p = defined_times (unat p) rs"
  if "\<forall>r \<in> set rs. unat (EndId (PonRange r)) < n" "n < 2 ^ 32" for p :: uint32
  using that(1)
proof (induction rs)
  case (Cons r rs)
  let ?s = "unat (StartId (PonRange r))" and ?e = "unat (EndId (PonRange r))"
  have inj: "inj_on (of_nat :: nat \<Rightarrow> uint32) {?s..<Suc ?e}"
    using Cons.prems that(2) by (intro inj_onI) (auto simp: of_nat_inverse word_of_nat_eq_iff take_bit_nat_eq_self)
  have "count_list (map of_nat [?s..<Suc ?e]) p = of_bool (?s \<le> unat p \<and> unat p \<le> ?e)"
  proof (cases "?s \<le> unat p \<and> unat p \<le> ?e")
    case True
    then have "p \<in> set (map of_nat [?s..<Suc ?e])" by (auto simp del: upt_Suc intro!: image_eqI[of _ _ "unat p"])
    moreover have "distinct (map (of_nat :: nat \<Rightarrow> uint32) [?s..<Suc ?e])" using inj by (simp add: distinct_map del: upt_Suc)
    ultimately show ?thesis using True by (simp only: count_list_distinct simp_thms)
  next
    case False
    have "p \<notin> set (map of_nat [?s..<Suc ?e])"
      using False Cons.prems that(2) by (auto simp: unat_of_nat take_bit_nat_eq_self simp del: upt_Suc)
    then show ?thesis using False by (simp add: count_list_0_iff)
  qed
  then show ?case using Cons by (simp del: upt_Suc)
qed simp

text \<open>
  C9: the device information. For every configuration that the validation accepts the loops of \<open>GetDeviceInfo\<close> end, although their counters wrap: the
  answer has one entry per range, the interface ids of all entries are the ports of the configuration, each exactly once, and from then
  on the OLT reports that it was connected before. A range that ended at the largest number would keep the call running for ever.
\<close>

theorem device_info_returns:
  "(validatePonsConfig c = Ret None \<longrightarrow>
      (\<exists>rs. GetDeviceInfo c d = Some (rs, PreviouslyConnected d, d\<lparr>PreviouslyConnected := True\<rparr>) \<and> length rs = length (Ranges c)
         \<and> (\<forall>p. count_list (concat (map IntfIds rs)) p = (if p < Number c then 1 else 0))))
   \<and> ((\<exists>r \<in> set (Ranges c). EndId (PonRange r) = -1) \<longrightarrow> GetDeviceInfo c d = None)"
proof (intro conjI impI)
  assume "validatePonsConfig c = Ret None"
  then have ok: "pons_config_ok c" using validatePonsConfig_result[of c] by auto
  have n: "unat (Number c) < 2 ^ 32" using unsigned_less[of "Number c", where ?'a = nat] by simp
  have e: "unat (EndId (PonRange r)) < unat (Number c)" if "r \<in> set (Ranges c)" for r using ok that by (simp add: pons_config_ok_def range_valid_def)
  have e1: "EndId (PonRange r) \<noteq> -1" if "r \<in> set (Ranges c)" for r
    using e[OF that] n by (auto simp: unat_largest)
  let ?ids = "\<lambda>r. map of_nat [unat (StartId (PonRange r))..<Suc (unat (EndId (PonRange r)))] :: uint32 list"
  let ?g = "\<lambda>r. \<lparr>IntfIds = ?ids r, dr_Technology = Technology r, OnuIdPool = bounds_of (OnuRange r),
     AllocIdPool = bounds_of (AllocIdRange r), GemportIdPool = bounds_of (GemportRange r)\<rparr>"
  have "those (map device_range (Ranges c)) = Some (map ?g (Ranges c))"
    by (rule those_map_Some) (simp add: device_range_def port_ids_returns[OF e1] del: upt_Suc)
  then have "GetDeviceInfo c d = Some (map ?g (Ranges c), PreviouslyConnected d, d\<lparr>PreviouslyConnected := True\<rparr>)" by (simp add: GetDeviceInfo_def)
  moreover have "count_list (concat (map IntfIds (map ?g (Ranges c)))) p = (if p < Number c then 1 else 0)" for p
  proof -
    have "count_list (concat (map IntfIds (map ?g (Ranges c)))) p = defined_times (unat p) (Ranges c)"
      using count_range_ids[OF _ n, of "Ranges c" p] e by (simp add: comp_def del: upt_Suc)
    moreover have "defined_times (unat p) rs = 0" if "\<not> p < Number c" "\<forall>r \<in> set rs. unat (EndId (PonRange r)) < unat (Number c)" for rs
      using that by (induction rs) (auto simp: word_less_nat_alt)
    ultimately show ?thesis using ok e by (auto simp: pons_config_ok_def word_less_nat_alt)
  qed
  ultimately show "\<exists>rs. GetDeviceInfo c d = Some (rs, PreviouslyConnected d, d\<lparr>PreviouslyConnected := True\<rparr>) \<and> length rs = length (Ranges c)
         \<and> (\<forall>p. count_list (concat (map IntfIds rs)) p = (if p < Number c then 1 else 0))"
    by (intro exI[of _ "map ?g (Ranges c)"]) simp
next
  assume "\<exists>r \<in> set (Ranges c). EndId (PonRange r) = -1"
  then obtain r where r: "r \<in> set (Ranges c)" "EndId (PonRange r) = -1" by blast
  have "device_range r = None" unfolding device_range_def r(2) by (simp add: port_ids_endless)
  with r(1) have "\<exists>r \<in> set (Ranges c). device_range r = None" by blast
  moreover have "those (map device_range rs) = None" if "\<exists>r \<in> set rs. device_range r = None" for rs
    using that by (induction rs) (auto split: option.splits)
  ultimately show "GetDeviceInfo c d = None" by (simp add: GetDeviceInfo_def)
qed

theorem device_info_returns_witness:
  "\<exists>rs. GetDeviceInfo (getDefaultPonsConfig 2 1 1 1) sample_olt = Some (rs, True, sample_olt\<lparr>PreviouslyConnected := True\<rparr>)
     \<and> count_list (concat (map IntfIds rs)) 1 = 1 \<and> count_list (concat (map IntfIds rs)) 2 = 0"
proof -
  let ?c = "getDefaultPonsConfig 2 1 1 1"
  have "pons_config_ok ?c" by (auto simp: pons_config_ok_def getDefaultPonsConfig_def Let_def range_valid_def PonTechnologyFromString_def)
  then have "validatePonsConfig ?c = Ret None" using validatePonsConfig_result[of ?c] by auto
  moreover have "Number ?c = 2" "PreviouslyConnected sample_olt" by (simp_all add: getDefaultPonsConfig_def Let_def sample_olt_def)
  ultimately show ?thesis using device_info_returns[of ?c sample_olt] by auto
qed

end
