(* ===== verification/Api.thy ===== *)
theory Api
  imports OltCalls
begin

text \<open>
  The control API of the simulator (\<open>internal/bbsim/api\<close>): what it reports of the OLT, its resources, ONUs, UNIs and services, and the
  calls that switch ONUs and the OLT, restart the protocols of a subscriber, change multicast groups and raise alarms. The texts
  of the answers are left out. A call that starts a goroutine returns it as a job, which \<open>run_job\<close> runs.
\<close>

section \<open>Answers\<close>

datatype code = OK | InvalidArgument | NotFound | FailedPrecondition | Internal

text \<open>The status of an answer, and whether the error is nil.\<close>

type_synonym response = "code \<times> bool"

datatype igmp_action = JOIN | LEAVE | JOINV3

datatype api_job = ShutdownPon nat | ShutdownEvery | PoweronPon nat | PoweronEvery | RestartJob
  | IgmpJob igmp_action string int nat nat nat nat

section \<open>Reports\<close>

record proto_Service =
  ps_Name :: string
  ps_InternalState :: service_state
  ps_HwAddress :: "byte list"
  ps_OnuSn :: string
  ps_UniId :: uint32
  ps_UniTagMatch :: int32
  ps_CTag :: int32
  ps_STag :: int32
  ps_UsCTagPriority :: uint32
  ps_DsCTagPriority :: uint32
  ps_UsSTagPriority :: uint32
  ps_DsSTagPriority :: uint32
  ps_NeedsEapol :: bool
  ps_NeedsDhcp :: bool
  ps_NeedsIgmp :: bool
  ps_NeedsPPPoE :: bool
  ps_ConfigureMacAddress :: bool
  ps_EnableMacLearning :: bool
  ps_GemPort :: int32
  ps_EapolState :: eapol_state
  ps_DhcpState :: dhcp_state
  ps_IGMPState :: igmp_state

definition convertBBSimServiceToProtoService :: "Onu \<Rightarrow> UniPort \<Rightarrow> Service \<Rightarrow> proto_Service" where
  "convertBBSimServiceToProtoService o1 u s =
     \<lparr>ps_Name = svc_Name s, ps_InternalState = current (svc_InternalState s), ps_HwAddress = HwAddress s, ps_OnuSn = Sn o1,
      ps_UniId = uni_ID u, ps_UniTagMatch = word_of_int (UniTagMatch s), ps_CTag = word_of_int (CTag s), ps_STag = word_of_int (STag s),
      ps_UsCTagPriority = ucast (UsPonCTagPriority s), ps_DsCTagPriority = ucast (DsPonCTagPriority s),
      ps_UsSTagPriority = ucast (UsPonSTagPriority s), ps_DsSTagPriority = ucast (DsPonSTagPriority s),
      ps_NeedsEapol = NeedsEapol s, ps_NeedsDhcp = NeedsDhcp s, ps_NeedsIgmp = NeedsIgmp s, ps_NeedsPPPoE = NeedsPPPoE s,
      ps_ConfigureMacAddress = ConfigureMacAddress s, ps_EnableMacLearning = EnableMacLearning s, ps_GemPort = ucast (GemPort s),
      ps_EapolState = current (EapolState s), ps_DhcpState = current (DHCPState s), ps_IGMPState = current (IGMPState s)\<rparr>"

definition convertBBsimServicesToProtoServices :: "Onu \<Rightarrow> UniPort \<Rightarrow> proto_Service list" where
  "convertBBsimServicesToProtoServices o1 u = map (convertBBSimServiceToProtoService o1 u) (Services u)"

text \<open>The condition is evaluated for every service; \<open>strconv.Atoi\<close> fails for the empty string.\<close>

definition service_wanted :: "string \<Rightarrow> string \<Rightarrow> proto_Service \<Rightarrow> bool" where
  "service_wanted uniID onuSn s \<longleftrightarrow>
     (uniID = [] \<and> onuSn = [])
   \<or> (case parse_int uniID of None \<Rightarrow> False | Some i \<Rightarrow> ps_UniId s = word_of_int i \<and> ps_OnuSn s = onuSn)
   \<or> (uniID = [] \<and> ps_OnuSn s = onuSn)"

definition GetServices :: "string \<Rightarrow> string \<Rightarrow> OltDevice \<Rightarrow> proto_Service list" where
  "GetServices uniID onuSn d =
     concat (map (\<lambda>p. concat (map (\<lambda>o1. concat (map (\<lambda>u. filter (service_wanted uniID onuSn) (convertBBsimServicesToProtoServices o1 u))
       (UniPorts o1))) (Onus p))) (Pons d))"

datatype uni_type = ETH | POTS

record proto_UNI =
  pu_ID :: int32
  pu_OnuID :: int32
  pu_OnuSn :: string
  pu_MeID :: uint32
  pu_PortNo :: int32
  pu_OperState :: oper_state
  pu_Services :: "proto_Service list"
  pu_Type :: uni_type

definition convertBBSimUniPortToProtoUniPort :: "Onu \<Rightarrow> UniPort \<Rightarrow> proto_UNI go" where
  "convertBBSimUniPortToProtoUniPort o1 u =
     go_bind (ToUint16 (uni_MeId u)) (\<lambda>me.
     Ret \<lparr>pu_ID = ucast (uni_ID u), pu_OnuID = ucast (onu_ID o1), pu_OnuSn = Sn o1, pu_MeID = ucast me, pu_PortNo = ucast (uni_PortNo u),
          pu_OperState = current (uni_OperState u), pu_Services = convertBBsimServicesToProtoServices o1 u, pu_Type = ETH\<rparr>)"

definition convertBBSimPotsPortToProtoUniPort :: "Onu \<Rightarrow> PotsPort \<Rightarrow> proto_UNI go" where
  "convertBBSimPotsPortToProtoUniPort o1 u =
     go_bind (ToUint16 (pots_MeId u)) (\<lambda>me.
     Ret \<lparr>pu_ID = ucast (pots_ID u), pu_OnuID = ucast (onu_ID o1), pu_OnuSn = Sn o1, pu_MeID = ucast me, pu_PortNo = ucast (pots_PortNo u),
          pu_OperState = current (pots_OperState u), pu_Services = [], pu_Type = POTS\<rparr>)"

definition proto_unis :: "Onu \<Rightarrow> proto_UNI list go" where
  "proto_unis o1 =
     go_bind (go_map (convertBBSimUniPortToProtoUniPort o1) (UniPorts o1)) (\<lambda>us.
     go_bind (go_map (convertBBSimPotsPortToProtoUniPort o1) (PotsPorts o1)) (\<lambda>ps. Ret (us @ ps)))"

record proto_ONU =
  po_ID :: int32
  po_SerialNumber :: string
  po_OperState :: oper_state
  po_InternalState :: onu_state
  po_PonPortID :: int32
  po_ImageSoftwareReceivedSections :: int32
  po_ImageSoftwareExpectedSections :: int32
  po_ActiveImageEntityId :: int32
  po_CommittedImageEntityId :: int32
  po_Unis :: "proto_UNI list"

definition proto_onu :: "Onu \<Rightarrow> proto_ONU go" where
  "proto_onu o1 =
     go_bind (proto_unis o1) (\<lambda>unis.
     Ret \<lparr>po_ID = ucast (onu_ID o1), po_SerialNumber = Sn o1, po_OperState = current (onu_OperState o1),
          po_InternalState = current (onu_InternalState o1), po_PonPortID = ucast (onu_PonPortID o1),
          po_ImageSoftwareReceivedSections = ucast (ImageSoftwareReceivedSections o1),
          po_ImageSoftwareExpectedSections = ucast (ImageSoftwareExpectedSections o1),
          po_ActiveImageEntityId = ucast (ActiveImageEntityId o1), po_CommittedImageEntityId = ucast (CommittedImageEntityId o1),
          po_Unis = unis\<rparr>)"

definition GetONUs :: "OltDevice \<Rightarrow> proto_ONU list go" where
  "GetONUs d = go_map proto_onu (concat (map Onus (Pons d)))"

text \<open>The report about one ONU leaves the fields of the images at 0; \<open>None\<close> is an unknown serial number.\<close>

definition GetONU :: "string \<Rightarrow> OltDevice \<Rightarrow> proto_ONU option go" where
  "GetONU sn d =
     (case FindOnuBySn sn (Pons d) of None \<Rightarrow> Ret None
      | Some (i, j) \<Rightarrow> go_bind (proto_onu (the_onu i j d)) (\<lambda>r.
          Ret (Some (r\<lparr>po_ImageSoftwareReceivedSections := 0, po_ImageSoftwareExpectedSections := 0, po_ActiveImageEntityId := 0,
                       po_CommittedImageEntityId := 0\<rparr>))))"

definition GetUnis :: "OltDevice \<Rightarrow> proto_UNI list go" where
  "GetUnis d = go_bind (GetONUs d) (\<lambda>onus. Ret (concat (map po_Unis onus)))"

definition GetOnuUnis :: "string \<Rightarrow> OltDevice \<Rightarrow> proto_UNI list option go" where
  "GetOnuUnis sn d = go_bind (GetONU sn d) (\<lambda>r. Ret (map_option po_Unis r))"

text \<open>The stored flow of a key is used without a check that there is one.\<close>

definition GetFlows :: "string \<Rightarrow> OltDevice \<Rightarrow> Flow list option go" where
  "GetFlows sn d =
     (if sn = [] then Ret (Some (map snd (olt_Flows d)))
      else case FindOnuBySn sn (Pons d) of None \<Rightarrow> Ret None
      | Some (i, j) \<Rightarrow>
          go_bind (go_map (\<lambda>key. case map_of (olt_Flows d) key of None \<Rightarrow> Panic FailedTypeAssertion | Some flow \<Rightarrow> Ret flow)
            (Flows (the_onu i j d))) (\<lambda>fs. Ret (Some fs)))"

definition GetOnuTrafficSchedulers :: "string \<Rightarrow> OltDevice \<Rightarrow> TrafficSchedulers option option" where
  "GetOnuTrafficSchedulers sn d =
     (case FindOnuBySn sn (Pons d) of None \<Rightarrow> None | Some (i, j) \<Rightarrow> Some (onu_TrafficSchedulers (the_onu i j d)))"

record OltAllocatedResource =
  ar_PonPortId :: uint32
  ar_OnuId :: uint32
  ar_PortNo :: uint32
  ar_ResourceId :: int32
  ar_FlowId :: uint64

definition resourcesMapToresourcesProto :: "flow_table \<Rightarrow> OltAllocatedResource list" where
  "resourcesMapToresourcesProto resources =
     concat (map (\<lambda>(ponId, ponValues). concat (map (\<lambda>(onuId, onuValues). concat (map (\<lambda>(uniId, uniValues). concat (map (\<lambda>(allocId, flows).
       map (\<lambda>(flow, _). \<lparr>ar_PonPortId = ponId, ar_OnuId = onuId, ar_PortNo = uniId, ar_ResourceId = allocId, ar_FlowId = flow\<rparr>)
         flows) uniValues)) onuValues)) ponValues)) resources)"

datatype resource_type = RT_UNKNOWN | ALLOC_ID | GEM_PORT | RT_OTHER

definition GetOltAllocatedResources :: "resource_type \<Rightarrow> OltDevice \<Rightarrow> OltAllocatedResource list option" where
  "GetOltAllocatedResources t d =
     (case t of ALLOC_ID \<Rightarrow> Some (resourcesMapToresourcesProto (AllocIDs d))
      | GEM_PORT \<Rightarrow> Some (resourcesMapToresourcesProto (GemPortIDs d)) | _ \<Rightarrow> None)"

section \<open>Switching ONUs\<close>

text \<open>An operation of the ONU \<open>j\<close> of the port \<open>i\<close> with a result.\<close>

definition on_olt_onu_res :: "nat \<Rightarrow> nat \<Rightarrow> (onu_world \<Rightarrow> ('r \<times> onu_world) go) \<Rightarrow> OltDevice \<Rightarrow> ('r \<times> OltDevice) go" where
  "on_olt_onu_res i j f d =
     go_bind (f (onu_view (the_onu i j d) (pon_Tables (Pons d ! i), olt_channel d, olt_sent d))) (\<lambda>(r, w).
     Ret (r, d\<lparr>Pons := (Pons d)[i := (Pons d ! i)\<lparr>Onus := (Onus (Pons d ! i))[j := w_onu w], pon_Tables := w_pon w\<rparr>],
               olt_channel := w_olt w, olt_sent := w_sent w\<rparr>))"

definition switch_response :: "bool \<Rightarrow> response" where
  "switch_response ok = (if ok then (OK, True) else (FailedPrecondition, False))"

definition handleShutdownONU :: "nat \<Rightarrow> nat \<Rightarrow> OltDevice \<Rightarrow> (response \<times> OltDevice) go" where
  "handleShutdownONU i j d = go_bind (on_olt_onu_res i j HandleShutdownONU d) (\<lambda>(ok, d'). Ret (switch_response ok, d'))"

definition handlePoweronONU :: "nat \<Rightarrow> nat \<Rightarrow> OltDevice \<Rightarrow> (response \<times> OltDevice) go" where
  "handlePoweronONU i j d =
     go_bind (on_olt_onu_res i j (HandlePowerOnONU (current (olt_InternalState d) = OltDeleted)) d) (\<lambda>(ok, d'). Ret (switch_response ok, d'))"

definition ShutdownONU :: "string \<Rightarrow> OltDevice \<Rightarrow> (response \<times> OltDevice) go" where
  "ShutdownONU sn d = (case FindOnuBySn sn (Pons d) of None \<Rightarrow> Ret ((NotFound, False), d) | Some (i, j) \<Rightarrow> handleShutdownONU i j d)"

text \<open>An unknown port is used unchecked.\<close>

definition ShutdownONUsOnPON :: "uint32 \<Rightarrow> OltDevice \<Rightarrow> (response \<times> api_job list) go" where
  "ShutdownONUsOnPON ponPortId d =
     (case GetPonById ponPortId (Pons d) of None \<Rightarrow> Panic NilDereference | Some i \<Rightarrow> Ret ((OK, True), [ShutdownPon i]))"

definition ShutdownAllONUs :: "OltDevice \<Rightarrow> (response \<times> api_job list) go" where
  "ShutdownAllONUs d = Ret ((OK, True), [ShutdownEvery])"

definition PoweronONU :: "string \<Rightarrow> OltDevice \<Rightarrow> (response \<times> OltDevice) go" where
  "PoweronONU sn d =
     (case FindOnuBySn sn (Pons d) of None \<Rightarrow> Ret ((NotFound, False), d)
      | Some (i, j) \<Rightarrow>
          (case GetPonById (onu_PonPortID (the_onu i j d)) (Pons d) of None \<Rightarrow> Panic NilDereference
           | Some k \<Rightarrow>
               if current (pon_InternalState (Pons d ! k)) \<noteq> pon_enabled then Ret ((FailedPrecondition, False), d)
               else handlePoweronONU i j d))"

definition PoweronONUsOnPON :: "uint32 \<Rightarrow> OltDevice \<Rightarrow> (response \<times> api_job list) go" where
  "PoweronONUsOnPON ponPortId d =
     (case GetPonById ponPortId (Pons d) of None \<Rightarrow> Panic NilDereference
      | Some i \<Rightarrow> if current (pon_InternalState (Pons d ! i)) \<noteq> pon_enabled then Ret ((FailedPrecondition, False), [])
          else Ret ((OK, True), [PoweronPon i]))"

definition PoweronAllONUs :: "OltDevice \<Rightarrow> (response \<times> api_job list) go" where
  "PoweronAllONUs d = Ret ((OK, True), [PoweronEvery])"

text \<open>\<open>r\<close> is the random number from 1 to 10.\<close>

definition InvalidateMds :: "uint8 \<Rightarrow> string \<Rightarrow> OltDevice \<Rightarrow> response \<times> OltDevice" where
  "InvalidateMds r sn d =
     (case FindOnuBySn sn (Pons d) of None \<Rightarrow> ((NotFound, False), d)
      | Some (i, j) \<Rightarrow> ((OK, True), set_onu i j (InvalidateMibDataSync r (the_onu i j d)) d))"

section \<open>Subscribers\<close>

text \<open>One service of a loop that restarts a protocol; the state is whether no restart failed.\<close>

definition restart_service ::
  "(Service \<Rightarrow> bool) \<Rightarrow> (Service \<Rightarrow> ('e option \<times> Service) go) \<Rightarrow> Service \<Rightarrow> bool \<Rightarrow> (Service \<times> bool) go" where
  "restart_service wanted event s ok =
     (if wanted s then go_bind (event s) (\<lambda>(err, s'). Ret (s', ok \<and> err = None)) else Ret (s, ok))"

definition restart_uni ::
  "string \<Rightarrow> (Service \<Rightarrow> bool) \<Rightarrow> (Service \<Rightarrow> ('e option \<times> Service) go) \<Rightarrow> UniPort \<Rightarrow> bool \<Rightarrow> (UniPort \<times> bool) go" where
  "restart_uni uniID wanted event u ok =
     (if (case parse_int uniID of None \<Rightarrow> False | Some n \<Rightarrow> uni_ID u \<noteq> word_of_int n) \<or> \<not> uni_up u then Ret (u, ok)
      else go_bind (go_each (restart_service wanted event) (Services u) ok) (\<lambda>(ss, ok'). Ret (u\<lparr>Services := ss\<rparr>, ok')))"

text \<open>An empty or malformed id stands for all UNIs; the error of the call is nil even where a restart failed.\<close>

definition restart_protocol ::
  "(Service \<Rightarrow> bool) \<Rightarrow> (Service \<Rightarrow> ('e option \<times> Service) go) \<Rightarrow> string \<Rightarrow> string \<Rightarrow> OltDevice \<Rightarrow> (response \<times> OltDevice) go" where
  "restart_protocol wanted event sn uniID d =
     (case FindOnuBySn sn (Pons d) of None \<Rightarrow> Ret ((NotFound, False), d)
      | Some (i, j) \<Rightarrow>
          go_bind (go_each (restart_uni uniID wanted event) (UniPorts (the_onu i j d)) True) (\<lambda>(us, ok).
          Ret ((if ok then OK else FailedPrecondition, True), set_onu i j ((the_onu i j d)\<lparr>UniPorts := us\<rparr>) d)))"

definition RestartEapol :: "string \<Rightarrow> string \<Rightarrow> OltDevice \<Rightarrow> (response \<times> OltDevice) go" where
  "RestartEapol = restart_protocol (\<lambda>s. NeedsEapol s \<and> initialized s) (eapol_Event EventStartAuth)"

text \<open>Here the service may be one that is not initialised.\<close>

definition RestartDhcp :: "string \<Rightarrow> string \<Rightarrow> OltDevice \<Rightarrow> (response \<times> OltDevice) go" where
  "RestartDhcp = restart_protocol NeedsDhcp (dhcp_Event EventStartDhcp)"

definition igmp_service :: "igmp_action \<Rightarrow> string \<Rightarrow> int \<Rightarrow> Service \<Rightarrow> Service" where
  "igmp_service act grp vlan s =
     (if NeedsIgmp s \<and> initialized s
      then (case act of LEAVE \<Rightarrow> RemoveGroupAddress grp s | _ \<Rightarrow> AddGroupAddress grp (if vlan \<noteq> 0 then vlan else CTag s) s) else s)"

text \<open>The id of the UNI is only compared with the number of UNIs, so a negative one is used as an index.\<close>

definition ChangeIgmpState ::
  "igmp_action \<Rightarrow> string \<Rightarrow> int32 \<Rightarrow> string \<Rightarrow> int32 \<Rightarrow> OltDevice \<Rightarrow> (response \<times> api_job list \<times> OltDevice) go" where
  "ChangeIgmpState act grp vlan sn uniID d =
     (case FindOnuBySn sn (Pons d) of None \<Rightarrow> Ret ((NotFound, False), [], d)
      | Some (i, j) \<Rightarrow>
          let o1 = the_onu i j d; k = nat (sint uniID) in
          if sint uniID \<ge> int (length (UniPorts o1)) then Ret ((InvalidArgument, False), [], d)
          else if sint vlan > 0xFFF \<or> sint vlan < 0 then Ret ((InvalidArgument, False), [], d)
          else if sint uniID < 0 then Panic IndexOutOfRange
          else let u = UniPorts o1 ! k in
            if \<not> uni_up u then Ret ((OK, False), [], d)
            else Ret ((OK, True),
              map (\<lambda>m. IgmpJob act grp (if vlan \<noteq> 0 then sint vlan else CTag (Services u ! m)) i j k m)
                (filter (\<lambda>m. NeedsIgmp (Services u ! m) \<and> initialized (Services u ! m)) [0..<length (Services u)]),
              set_onu i j (o1\<lparr>UniPorts := (UniPorts o1)[k := u\<lparr>Services := map (igmp_service act grp (sint vlan)) (Services u)\<rparr>]\<rparr>) d))"

section \<open>Switching the OLT, alarms\<close>

definition olt_switch :: "olt_event \<Rightarrow> OltDevice \<Rightarrow> (response \<times> OltDevice) go" where
  "olt_switch e d = go_bind (olt_Event e d) (\<lambda>(err, d'). Ret (switch_response (err = None), d'))"

definition PoweronOlt :: "OltDevice \<Rightarrow> (response \<times> OltDevice) go" where
  "PoweronOlt = olt_switch OltTxInitialize"

definition ShutdownOlt :: "OltDevice \<Rightarrow> (response \<times> OltDevice) go" where
  "ShutdownOlt = olt_switch OltTxDisable"

definition RebootOlt :: "OltDevice \<Rightarrow> (response \<times> api_job list) go" where
  "RebootOlt d = Ret ((OK, True), [RestartJob])"

definition StopgRPCServer :: "OltDevice \<Rightarrow> response \<times> OltDevice" where
  "StopgRPCServer d = ((OK, True), StopOltServer d)"

definition StartgRPCServer :: "OltDevice \<Rightarrow> bool \<times> OltDevice" where
  "StartgRPCServer d = (if OltServer d then (False, d) else (True, d\<lparr>OltServer := True\<rparr>))"

text \<open>The alarm calls return no answer where they fail.\<close>

definition SetOnuAlarmIndication :: "string \<Rightarrow> string \<Rightarrow> string \<Rightarrow> OltDevice \<Rightarrow> (bool \<times> OltDevice) go" where
  "SetOnuAlarmIndication sn alarmType status d =
     (case FindOnuBySn sn (Pons d) of None \<Rightarrow> Ret (False, d) | Some (i, j) \<Rightarrow> on_olt_onu_res i j (onu_SetAlarm alarmType status) d)"

definition SetOltAlarmIndication :: "uint32 \<Rightarrow> string \<Rightarrow> string \<Rightarrow> OltDevice \<Rightarrow> (bool \<times> OltDevice) go" where
  "SetOltAlarmIndication = olt_SetAlarm"

section \<open>Goroutines\<close>

definition onu_shutdown :: "onu_world \<Rightarrow> onu_world go" where
  "onu_shutdown w = go_bind (HandleShutdownONU w) (\<lambda>(_, w'). Ret w')"

definition onu_poweron :: "bool \<Rightarrow> onu_world \<Rightarrow> onu_world go" where
  "onu_poweron oltDeleted w = go_bind (HandlePowerOnONU oltDeleted w) (\<lambda>(_, w'). Ret w')"

definition poweron_pon :: "bool \<Rightarrow> pon_world \<Rightarrow> pon_world go" where
  "poweron_pon oltDeleted pw = (if current (pon_InternalState (pw_pon pw)) = pon_enabled then each_onu (onu_poweron oltDeleted) pw else Ret pw)"

definition send_igmp_job ::
  "igmp_serializer \<Rightarrow> igmp_action \<Rightarrow> string \<Rightarrow> int \<Rightarrow> Onu \<Rightarrow> UniPort \<Rightarrow> Service \<Rightarrow> Indication list \<Rightarrow> Indication list go" where
  "send_igmp_job ser act grp ctag o1 u s sent =
     with_stream s (\<lambda>st.
       let c = igmp_call_of \<lparr>pl_onuId = onu_ID o1, pl_ponPortId = onu_PonPortID o1, pl_portNo = uni_PortNo u, pl_uniId = uni_ID u, pl_oltId = 0\<rparr> s
       in Ret (snd (case act of JOIN \<Rightarrow> SendIGMPMembershipReportV2 ser st c ctag grp sent
                    | LEAVE \<Rightarrow> SendIGMPLeaveGroupV2 ser st c ctag grp sent
                    | JOINV3 \<Rightarrow> SendIGMPMembershipReportV3 ser st c ctag grp sent)))"

definition run_job :: "igmp_serializer \<Rightarrow> api_job \<Rightarrow> OltDevice \<Rightarrow> OltDevice go" where
  "run_job ser job d =
     (let del = (current (olt_InternalState d) = OltDeleted) in
      case job of
        ShutdownPon i \<Rightarrow> on_olt_pon i (each_onu onu_shutdown) d
      | ShutdownEvery \<Rightarrow> each_pon (each_onu onu_shutdown) d
      | PoweronPon i \<Rightarrow> on_olt_pon i (each_onu (onu_poweron del)) d
      | PoweronEvery \<Rightarrow> each_pon (poweron_pon del) d
      | RestartJob \<Rightarrow> go_bind (RestartOLT d) (\<lambda>(_, d'). Ret d')
      | IgmpJob act grp ctag i j k m \<Rightarrow>
          go_bind (send_igmp_job ser act grp ctag (the_onu i j d) (UniPorts (the_onu i j d) ! k) (Services (UniPorts (the_onu i j d) ! k) ! m) (olt_sent d))
            (\<lambda>sent. Ret (d\<lparr>olt_sent := sent\<rparr>)))"

end
