(* ===== verification/OltReach.thy ===== *)
theory OltReach
  imports Api
begin

text \<open>
  The states a whole OLT can reach: from \<open>CreateOLT\<close>, by the calls of VOLTHA and of the control API, the messages of the OLT, the phases
  of a restart, the goroutines of the API, and the operations of \<open>OnuReach\<close> on its ONUs, with the loops and timers of their UNIs and services, in any
  order. Its invariant \<open>olt_ok\<close> holds in all of them.
\<close>

section \<open>Invariant\<close>

definition olt_ok :: "OltDevice \<Rightarrow> bool" where
  "olt_ok d \<longleftrightarrow> transitions (olt_InternalState d) = transitions new_olt_state
     \<and> (\<forall>p \<in> set (Pons d). pon_ok p) \<and> (\<forall>i < length (Pons d). pon_ID (Pons d ! i) = of_nat i)
     \<and> table_safe (GemPortIDs d) \<and> table_safe (AllocIDs d)
     \<and> (current (olt_InternalState d) \<in> {OltEnabled, OltDisabled, OltDeleted} \<longrightarrow> enableContext d)"

lemma olt_ok_upd [simp]:
  "olt_ok (d\<lparr>olt_channel := c\<rparr>) \<longleftrightarrow> olt_ok d" "olt_ok (d\<lparr>olt_sent := s\<rparr>) \<longleftrightarrow> olt_ok d" "olt_ok (d\<lparr>olt_Flows := f\<rparr>) \<longleftrightarrow> olt_ok d"
  "olt_ok (d\<lparr>Nnis := n\<rparr>) \<longleftrightarrow> olt_ok d" "olt_ok (d\<lparr>OltServer := b\<rparr>) \<longleftrightarrow> olt_ok d" "olt_ok (d\<lparr>PreviouslyConnected := b\<rparr>) \<longleftrightarrow> olt_ok d"
  "olt_ok (d\<lparr>olt_OperState := m\<rparr>) \<longleftrightarrow> olt_ok d"
  by (simp_all add: olt_ok_def)

lemma olt_ok_tables:
  "olt_ok d \<Longrightarrow> table_safe g \<Longrightarrow> olt_ok (d\<lparr>GemPortIDs := g\<rparr>)" "olt_ok d \<Longrightarrow> table_safe g \<Longrightarrow> olt_ok (d\<lparr>AllocIDs := g\<rparr>)"
  "olt_ok d \<Longrightarrow> olt_ok (d\<lparr>enableContext := True\<rparr>)"
  by (simp_all add: olt_ok_def)

lemma olt_ok_pon:
  assumes "olt_ok d" "i < length (Pons d)" "pon_ok p" "pon_ID p = pon_ID (Pons d ! i)"
  shows "olt_ok (d\<lparr>Pons := (Pons d)[i := p]\<rparr>)"
  using assms set_update_subset_insert[of "Pons d" i p] unfolding olt_ok_def by (auto simp: nth_list_update)

lemma pon_ok_onu:
  assumes "pon_ok p" "onu_ok o1" "tables_ok t"
  shows "pon_ok (p\<lparr>Onus := (Onus p)[j := o1], pon_Tables := t\<rparr>)"
  using assms set_update_subset_insert[of "Onus p" j o1] unfolding pon_ok_def by auto

lemma olt_okD:
  assumes "olt_ok d" "i < length (Pons d)"
  shows "pon_ok (Pons d ! i)" "tables_ok (pon_Tables (Pons d ! i))" "j < length (Onus (Pons d ! i)) \<Longrightarrow> onu_ok (the_onu i j d)"
proof -
  show p: "pon_ok (Pons d ! i)" using assms nth_mem[OF assms(2)] by (simp add: olt_ok_def)
  then show "tables_ok (pon_Tables (Pons d ! i))" "j < length (Onus (Pons d ! i)) \<Longrightarrow> onu_ok (the_onu i j d)" by (simp_all add: pon_ok_def the_onu_def)
qed

lemma set_onu_keeps:
  assumes "olt_ok d" "i < length (Pons d)" "onu_ok o1"
  shows "olt_ok (set_onu i j o1 d)"
proof -
  have "pon_ok ((Pons d ! i)\<lparr>Onus := (Onus (Pons d ! i))[j := o1]\<rparr>)"
    using pon_ok_onu[OF olt_okD(1)[OF assms(1,2)] assms(3) olt_okD(2)[OF assms(1,2)], of j] by (simp add: pon_ok_def)
  then show ?thesis unfolding set_onu_def by (intro olt_ok_pon[OF assms(1,2)]) simp_all
qed

section \<open>Loops\<close>

lemma ensures_stuck [simp]: "ensures P (Panic x)" "ensures P Blocked"
  by (simp_all add: ensures_def)

text \<open>An operation that keeps the invariant of its ONU, and one that keeps a port and its number.\<close>

definition onu_keeps :: "(onu_world \<Rightarrow> onu_world go) \<Rightarrow> bool" where
  "onu_keeps f \<longleftrightarrow> (\<forall>w. world_ok w \<longrightarrow> ensures world_ok (f w))"

definition pon_keeps :: "(pon_world \<Rightarrow> pon_world go) \<Rightarrow> bool" where
  "pon_keeps f \<longleftrightarrow> (\<forall>pw. pon_ok (pw_pon pw) \<longrightarrow> ensures (\<lambda>pw'. pon_ok (pw_pon pw') \<and> pon_ID (pw_pon pw') = pon_ID (pw_pon pw)) (f pw))"

definition olt_keeps :: "(OltDevice \<Rightarrow> OltDevice go) \<Rightarrow> bool" where
  "olt_keeps f \<longleftrightarrow> (\<forall>d. olt_ok d \<longrightarrow> ensures olt_ok (f d))"

lemma on_olt_onu_res_keeps:
  assumes "\<And>w. world_ok w \<Longrightarrow> ensures (\<lambda>r. world_ok (snd r)) (f w)" "olt_ok d" "i < length (Pons d)" "j < length (Onus (Pons d ! i))"
  shows "ensures (\<lambda>r. olt_ok (snd r)) (on_olt_onu_res i j f d)"
proof -
  let ?v = "onu_view (the_onu i j d) (pon_Tables (Pons d ! i), olt_channel d, olt_sent d)"
  have "world_ok ?v" using olt_okD(2)[OF assms(2,3)] olt_okD(3)[OF assms(2-4)] by simp
  from assms(1)[OF this] show ?thesis unfolding on_olt_onu_res_def
  proof (rule ensures_bind)
    fix r assume "world_ok (snd r)"
    then have "pon_ok ((Pons d ! i)\<lparr>Onus := (Onus (Pons d ! i))[j := w_onu (snd r)], pon_Tables := w_pon (snd r)\<rparr>)"
      using pon_ok_onu[OF olt_okD(1)[OF assms(2,3)]] by (simp add: world_ok_def)
    then show "ensures (\<lambda>r. olt_ok (snd r)) (case r of (r, w) \<Rightarrow> Ret (r, d\<lparr>Pons := (Pons d)[i := (Pons d ! i)\<lparr>Onus := (Onus (Pons d ! i))[j := w_onu w], pon_Tables := w_pon w\<rparr>],
        olt_channel := w_olt w, olt_sent := w_sent w\<rparr>))"
      using olt_ok_pon[OF assms(2,3)] by (simp add: split_beta)
  qed
qed

lemma on_olt_onu_keeps:
  assumes "onu_keeps f" "olt_ok d" "i < length (Pons d)" "j < length (Onus (Pons d ! i))"
  shows "ensures olt_ok (on_olt_onu i j f d)"
proof -
  have "ensures (\<lambda>r. olt_ok (snd r)) (on_olt_onu_res i j (\<lambda>w. go_bind (f w) (\<lambda>w'. Ret ((), w'))) d)"
    by (rule on_olt_onu_res_keeps[OF _ assms(2-4)], rule ensures_bind[where Q = world_ok]) (use assms(1) in \<open>auto simp: onu_keeps_def\<close>)
  then show ?thesis by (auto simp: on_olt_onu_res_def on_olt_onu_def ensures_def go_simps)
qed

lemma each_onu_keeps:
  assumes "onu_keeps f"
  shows "pon_keeps (each_onu f)"
  unfolding pon_keeps_def
proof (intro allI impI)
  fix pw :: pon_world assume ok: "pon_ok (pw_pon pw)"
  have "(\<forall>x \<in> set onus. onu_ok x) \<and> tables_ok (fst sh')"
    if "go_each (on_view f) os sh = Ret (onus, sh')" "tables_ok (fst sh)" "\<forall>x \<in> set os. onu_ok x" for os sh onus sh'
    using that
  proof (induction os arbitrary: sh onus)
    case (Cons x os)
    obtain w' onus' where w': "f (onu_view x sh) = Ret w'" "go_each (on_view f) os (w_pon w', w_olt w', w_sent w') = Ret (onus', sh')" "onus = w_onu w' # onus'"
      using Cons.prems(1) by (auto simp: on_view_def[of f x sh] go_simps)
    have "world_ok (onu_view x sh)" using Cons.prems(2,3) by simp
    then have "world_ok w'" using assms w'(1) unfolding onu_keeps_def ensures_def by blast
    with Cons.IH[OF w'(2)] Cons.prems(3) w'(3) show ?case by (simp add: world_ok_def)
  qed simp
  from this[of "Onus (pw_pon pw)" "pon_shared pw"] ok
  show "ensures (\<lambda>pw'. pon_ok (pw_pon pw') \<and> pon_ID (pw_pon pw') = pon_ID (pw_pon pw)) (each_onu f pw)"
    by (auto simp: each_onu_def ensures_def go_simps pon_ok_def pon_shared_def)
qed

lemma on_olt_pon_keeps:
  assumes "pon_keeps f" "olt_ok d" "i < length (Pons d)"
  shows "ensures (\<lambda>d'. olt_ok d' \<and> length (Pons d') = length (Pons d)) (on_olt_pon i f d)"
proof -
  let ?pw = "\<lparr>pw_pon = Pons d ! i, pw_olt = olt_channel d, pw_sent = olt_sent d\<rparr>"
  have "ensures (\<lambda>pw'. pon_ok (pw_pon pw') \<and> pon_ID (pw_pon pw') = pon_ID (Pons d ! i)) (f ?pw)"
    using assms(1)[unfolded pon_keeps_def, rule_format, of ?pw] olt_okD(1)[OF assms(2,3)] by simp
  then show ?thesis unfolding on_olt_pon_def by (rule ensures_bind) (use olt_ok_pon[OF assms(2,3)] in simp)
qed

lemma each_pon_keeps:
  assumes "pon_keeps f"
  shows "olt_keeps (each_pon f)"
  unfolding olt_keeps_def
proof (intro allI impI)
  fix d assume ok: "olt_ok d"
  have "olt_ok d' \<and> length (Pons d') = n" if "go_fold (\<lambda>i. on_olt_pon i f) ks d = Ret d'" "olt_ok d" "length (Pons d) = n" "\<forall>k \<in> set ks. k < n" for ks d d' n
    using that
  proof (induction ks arbitrary: d)
    case (Cons k ks)
    then obtain d1 where "on_olt_pon k f d = Ret d1" "go_fold (\<lambda>i. on_olt_pon i f) ks d1 = Ret d'" by (auto simp: go_simps)
    with Cons.IH[of d1] Cons.prems on_olt_pon_keeps[OF assms Cons.prems(2), of k] show ?case by (auto simp: ensures_def)
  qed simp
  then show "ensures olt_ok (each_pon f d)" using ok by (auto simp: each_pon_def ensures_def)
qed

section \<open>Calls of VOLTHA\<close>

lemma olt_send_keeps: "olt_keeps (olt_send m)"
  by (auto simp: olt_keeps_def olt_send_def ensures_def go_simps)

lemma olt_fold_keeps: "(\<And>x. olt_keeps (f x)) \<Longrightarrow> olt_keeps (go_fold f xs)"
proof (induction xs)
  case (Cons x xs)
  then show ?case by (auto simp: olt_keeps_def intro!: ensures_bind[where Q = olt_ok])
qed (simp add: olt_keeps_def)

lemma olt_keepsD: "olt_keeps f \<Longrightarrow> olt_ok d \<Longrightarrow> ensures olt_ok (f d)"
  by (simp add: olt_keeps_def)

lemma send_to_onu_keeps:
  assumes "olt_ok d" "i < length (Pons d)" "j < length (Onus (Pons d ! i))"
  shows "ensures olt_ok (send_to_onu i j m d)"
proof -
  have "onu_ok (the_onu i j d)" by (rule olt_okD(3)[OF assms])
  then have "onu_ok ((the_onu i j d)\<lparr>onu_Channel := c\<rparr>)" if "chan_send (onu_Channel (the_onu i j d)) m = Ret c" for c
    using that by (auto simp: onu_ok_def go_simps)
  then show ?thesis using set_onu_keeps[OF assms(1,2)] by (auto simp: send_to_onu_def ensures_def go_simps)
qed

lemma in_range_onu:
  assumes "GetPonById p (Pons d) = Some i" "GetOnuById o1 (Onus (Pons d ! i)) = Some j"
  shows "i < length (Pons d)" "j < length (Onus (Pons d ! i))"
  using pon_by_id.lookup_in_range[OF assms(1)] onu_by_id.lookup_in_range[OF assms(2)] by auto

lemma onu_try_keeps: "onu_keeps (onu_try e)"
  unfolding onu_keeps_def onu_try_def split_beta by (intro allI impI, rule ensures_bind[OF power_steps_keep(1)]) simp_all

lemma ActivateOnu_keeps:
  assumes "olt_ok d"
  shows "ensures (\<lambda>r. olt_ok (snd r)) (ActivateOnu intfId onuId sn d)"
proof (cases "GetPonById intfId (Pons d)")
  case (Some i)
  have lt: "i < length (Pons d)" by (rule pon_by_id.lookup_in_range[OF Some])
  have tables: "table_safe (GemPortIDs d)" "table_safe (AllocIDs d)" using assms by (auto simp: olt_ok_def)
  have keeps: "onu_keeps (\<lambda>w. onu_try OnuTxEnable (on_onu (\<lambda>o1. o1\<lparr>onu_ID := onuId\<rparr>) w))"
    using onu_try_keeps[of OnuTxEnable] by (auto simp: onu_keeps_def world_ok_def onu_ok_def)
  have run: "ensures olt_ok (on_olt_onu i j (\<lambda>w. onu_try OnuTxEnable (on_onu (\<lambda>o1. o1\<lparr>onu_ID := onuId\<rparr>) w)) (d\<lparr>AllocIDs := a, GemPortIDs := g\<rparr>))"
    if "table_safe a" "table_safe g" "j < length (Onus (Pons d ! i))" for a g j
    using that lt olt_ok_tables(1)[OF olt_ok_tables(2)[OF assms that(1)] that(2)] by (intro on_olt_onu_keeps[OF keeps]) simp_all
  have entries: "ensures table_safe (activate_entry intfId onuId (AllocIDs d))" "ensures table_safe (activate_entry intfId onuId (GemPortIDs d))"
    using entries_safe(2)[OF tables(1)] entries_safe(2)[OF tables(2)] by (auto simp: ensures_def)
  show ?thesis unfolding ActivateOnu_def Some option.case
  proof (rule ensures_bind[OF entries(1)], rule ensures_bind[OF entries(2)])
    fix a g assume safe: "table_safe a" "table_safe g"
    show "ensures (\<lambda>r. olt_ok (snd r)) (case GetOnuBySn sn (Onus (Pons d ! i)) of None \<Rightarrow> Panic NilDereference
      | Some j \<Rightarrow> go_bind (on_olt_onu i j (\<lambda>w. onu_try OnuTxEnable (on_onu (\<lambda>o1. o1\<lparr>onu_ID := onuId\<rparr>) w)) (d\<lparr>AllocIDs := a, GemPortIDs := g\<rparr>)) (\<lambda>d'. Ret (True, d')))"
    proof (cases "GetOnuBySn sn (Onus (Pons d ! i))")
      case (Some j)
      show ?thesis unfolding Some option.case
        by (rule ensures_bind[OF run[OF safe onu_by_sn.lookup_in_range[OF Some]]]) simp
    qed simp
  qed
qed (simp add: ActivateOnu_def assms)

lemma DeleteOnu_keeps:
  assumes "olt_ok d"
  shows "ensures (\<lambda>r. olt_ok (snd (snd r))) (DeleteOnu intfId onuId d)"
proof -
  have "ensures olt_ok (on_olt_onu i j (onu_try OnuTxDisable) d)"
    if "GetPonById intfId (Pons d) = Some i" "GetOnuById onuId (Onus (Pons d ! i)) = Some j" for i j
    using on_olt_onu_keeps[OF onu_try_keeps assms in_range_onu[OF that]] .
  then show ?thesis using assms by (auto simp: DeleteOnu_def split: option.splits intro!: ensures_bind[where Q = olt_ok])
qed

definition flow_to_onu :: "Flow \<Rightarrow> nat \<Rightarrow> nat \<Rightarrow> OltDevice \<Rightarrow> (bool \<times> OltDevice) go" where
  "flow_to_onu flow i j d2 =
     go_bind (add_flow_resources flow (GemPortIDs d2, AllocIDs d2)) (\<lambda>(res, gems, allocs).
       let d3 = d2\<lparr>GemPortIDs := gems, AllocIDs := allocs\<rparr> in
       if res \<noteq> Stored then Ret (False, d3) else go_bind (send_to_onu i j (FlowAddMsg flow) d3) (\<lambda>d4. Ret (True, d4)))"

lemma flow_to_onu_keeps:
  assumes "olt_ok d" "i < length (Pons d)" "j < length (Onus (Pons d ! i))"
  shows "ensures (\<lambda>r. olt_ok (snd r)) (flow_to_onu flow i j d)"
  unfolding flow_to_onu_def
proof (rule ensures_bind[where Q = "\<lambda>r. table_safe (fst (snd r)) \<and> table_safe (snd (snd r))"])
  show "ensures (\<lambda>r. table_safe (fst (snd r)) \<and> table_safe (snd (snd r))) (add_flow_resources flow (GemPortIDs d, AllocIDs d))"
    using add_safe[of "(GemPortIDs d, AllocIDs d)" flow] assms(1) by (auto simp: ensures_def olt_ok_def)
  fix r :: "flow_result \<times> flow_table \<times> flow_table" assume "table_safe (fst (snd r)) \<and> table_safe (snd (snd r))"
  then have "olt_ok (d\<lparr>GemPortIDs := fst (snd r), AllocIDs := snd (snd r)\<rparr>)" using assms(1) by (simp add: olt_ok_tables)
  from this send_to_onu_keeps[OF this] assms(2,3) show "ensures (\<lambda>r. olt_ok (snd r)) (case r of (res, gems, allocs) \<Rightarrow>
      let d3 = d\<lparr>GemPortIDs := gems, AllocIDs := allocs\<rparr> in if res \<noteq> Stored then Ret (False, d3)
      else go_bind (send_to_onu i j (FlowAddMsg flow) d3) (\<lambda>d4. Ret (True, d4)))"
    by (auto simp: split_beta Let_def intro!: ensures_bind[where Q = olt_ok])
qed

lemma FlowAdd_keeps:
  assumes "olt_ok d"
  shows "ensures (\<lambda>r. olt_ok (snd r)) (FlowAdd flow d)"
proof -
  define d1 where "d1 = (if enablePerf d then d else d\<lparr>olt_Flows := AList.update (FlowId flow) flow (olt_Flows d)\<rparr>)"
  have d1: "olt_ok d1" using assms by (simp add: d1_def)
  have "ensures (\<lambda>r. olt_ok (snd r)) (flow_to_onu flow i j (if enablePerf d then d1 else set_onu i j ((the_onu i j d1)\<lparr>Flows := fs\<rparr>) d1))"
    if "GetPonById p (Pons d1) = Some i" "GetOnuById o1 (Onus (Pons d1 ! i)) = Some j" for p o1 i j fs
  proof -
    note lt = in_range_onu[OF that]
    have "onu_ok ((the_onu i j d1)\<lparr>Flows := fs\<rparr>)" using olt_okD(3)[OF d1 lt] by (simp add: onu_ok_def)
    from set_onu_keeps[OF d1 lt(1) this, of j] d1 lt show ?thesis by (intro flow_to_onu_keeps) (simp_all add: set_onu_def)
  qed
  then show ?thesis using d1
    unfolding FlowAdd_def Let_def[where s = "if enablePerf d then d else _"] d1_def[symmetric] flow_to_onu_def[symmetric]
    by (auto simp: Let_def split: option.splits)
qed

lemma DeleteFlow_ok: "onu_ok o1 \<Longrightarrow> onu_ok (DeleteFlow key o1)"
  by (auto simp: DeleteFlow_def onu_ok_def)

lemma forget_flow_keeps:
  assumes "olt_ok d" "forget_flow key stored d = Some d'"
  shows "olt_ok d'"
proof (cases "AccessIntfId stored = -1")
  case False
  then obtain i j where ij: "GetPonById (ucast (AccessIntfId stored)) (Pons d) = Some i" "GetOnuById (ucast (fl_OnuId stored)) (Onus (Pons d ! i)) = Some j"
    "d' = (set_onu i j (DeleteFlow key (the_onu i j d)) d)\<lparr>olt_Flows := AList.delete key (olt_Flows d)\<rparr>"
    using assms(2) by (auto simp: forget_flow_def split: option.splits)
  note lt = in_range_onu[OF ij(1,2)]
  show ?thesis using set_onu_keeps[OF assms(1) lt(1) DeleteFlow_ok[OF olt_okD(3)[OF assms(1) lt]]] by (simp add: ij(3))
qed (use assms in \<open>auto simp: forget_flow_def\<close>)

lemma notify_removed_keeps: "olt_ok d \<Longrightarrow> ensures (\<lambda>r. olt_ok (snd r)) (notify_removed flow d)"
  by (auto simp: notify_removed_def GetOnuByFlowId_def split: option.splits dest!: find_onu_SomeD
      intro!: ensures_bind[OF send_to_onu_keeps])

lemma FlowRemove_keeps:
  assumes "olt_ok d"
  shows "ensures (\<lambda>r. olt_ok (snd r)) (FlowRemove flow d)"
proof -
  let ?d1 = "d\<lparr>GemPortIDs := freeFlowResources flow (GemPortIDs d), AllocIDs := freeFlowResources flow (AllocIDs d)\<rparr>"
  have "olt_ok ?d1" using assms by (intro olt_ok_tables remove_safe) (simp_all add: olt_ok_def)
  then show ?thesis using notify_removed_keeps forget_flow_keeps
    by (auto simp: FlowRemove_def remove_flow_resources_def Let_def split: option.splits)
qed

lemma OmciMsgOut_keeps:
  assumes "olt_ok d"
  shows "ensures (\<lambda>r. olt_ok (snd r)) (OmciMsgOut env intfId onuId pkt d)"
proof -
  have "ensures olt_ok (send_to_onu i j m d)" if "GetPonById intfId (Pons d) = Some i" "GetOnuById onuId (Onus (Pons d ! i)) = Some j" for i j m
    using send_to_onu_keeps[OF assms in_range_onu[OF that]] .
  moreover have "ensures (\<lambda>_. True) x" for x :: "(omci_error + OMCI \<times> byte list) go" by (simp add: ensures_def)
  ultimately show ?thesis using assms
    by (auto simp: OmciMsgOut_def split: option.splits sum.splits intro!: ensures_bind[where Q = "\<lambda>_. True"] ensures_bind[where Q = olt_ok])
qed

lemma olt_keeps_bind: "olt_keeps f \<Longrightarrow> olt_keeps g \<Longrightarrow> olt_ok d \<Longrightarrow> ensures olt_ok (go_bind (f d) g)"
  by (auto simp: olt_keeps_def intro: ensures_bind)

lemma switch_keeps: "olt_keeps DisableOlt" "olt_keeps ReenableOlt"
proof -
  have "olt_keeps (go_fold (\<lambda>p. olt_send (PonIndicationMsg s (pon_ID p))) ps)" for s and ps :: "PonPort list"
    by (rule olt_fold_keeps) (rule olt_send_keeps)
  then show "olt_keeps DisableOlt" "olt_keeps ReenableOlt"
    unfolding olt_keeps_def DisableOlt_def ReenableOlt_def using olt_send_keeps
    by (auto intro!: ensures_bind[where Q = olt_ok] simp: olt_keeps_def)
qed

lemma on_olt_onu_length:
  "ensures (\<lambda>d'. length (Pons d') = length (Pons d) \<and> length (Onus (Pons d' ! i)) = length (Onus (Pons d ! i))) (on_olt_onu i j f d)"
  by (cases "i < length (Pons d)") (auto simp: on_olt_onu_def ensures_def go_simps list_update_beyond)

text \<open>A loop over ONUs of one port.\<close>

lemma onus_fold_keeps:
  assumes "\<And>j. onu_keeps (f j)" "olt_ok d" "i < length (Pons d)" "\<forall>j \<in> set js. j < length (Onus (Pons d ! i))"
  shows "ensures olt_ok (go_fold (\<lambda>j. on_olt_onu i j (f j)) js d)"
  using assms(2-4)
proof (induction js arbitrary: d)
  case (Cons j js)
  have "ensures (\<lambda>d'. olt_ok d' \<and> length (Pons d') = length (Pons d) \<and> length (Onus (Pons d' ! i)) = length (Onus (Pons d ! i))) (on_olt_onu i j (f j) d)"
    using on_olt_onu_keeps[OF assms(1) Cons.prems(1,2), of j] on_olt_onu_length[of d i j "f j"] Cons.prems(3) by (simp add: ensures_def)
  then show ?case using Cons.IH Cons.prems(2,3) by (auto intro: ensures_bind)
qed simp

lemma SwitchPonIf_keeps: "olt_ok d \<Longrightarrow> ensures olt_ok (SwitchPonIf st s ponID d)"
  unfolding SwitchPonIf_def
  by (rule ensures_bind[OF olt_keepsD[OF olt_send_keeps]])
     (auto simp: onu_keeps_def split: option.splits dest: pon_by_id.lookup_in_range intro!: onus_fold_keeps)

section \<open>Machines\<close>

lemma fire_transitions [simp]: "transitions (snd (fsm_fire e f)) = transitions f"
  by (simp add: fsm_fire_def SetState_def split: option.splits)

text \<open>What holds after an event of a machine whose only callback is on entry.\<close>

lemma fsm_Event_ensures:
  assumes "P w" "\<And>d. map_of (transitions (get w)) (e, current (get w)) = Some d \<Longrightarrow>
     ensures P (f \<lparr>ev_Event = e, ev_Src = current (get w), ev_Dst = d\<rparr> (put (SetState d (get w)) w))"
  shows "ensures (\<lambda>r. P (snd r)) (fsm_Event get put (enter_callbacks f) e w)"
  using assms by (auto simp: fsm_Event_def Let_def split: option.splits intro!: ensures_bind[where Q = P])

lemma onu_steps_keep: "onu_keeps init_and_discover" "onu_keeps reenable_onu" "onu_keeps pon_disable_onu"
proof -
  show init: "onu_keeps init_and_discover" unfolding onu_keeps_def init_and_discover_def split_beta
    using onu_try_keeps[of OnuTxDiscover] by (auto simp: onu_keeps_def intro!: ensures_bind[OF power_steps_keep(2)])
  show "onu_keeps reenable_onu" "onu_keeps pon_disable_onu"
    using init onu_try_keeps by (auto simp: onu_keeps_def reenable_onu_def pon_disable_onu_def)
qed

lemma pon_keepsD: "pon_keeps f \<Longrightarrow> pon_ok (pw_pon pw) \<Longrightarrow> pon_ID (pw_pon pw) = k \<Longrightarrow> ensures (\<lambda>pw'. pon_ok (pw_pon pw') \<and> pon_ID (pw_pon pw') = k) (f pw)"
  by (auto simp: pon_keeps_def)

lemma pon_Event_keeps:
  assumes "pon_ok (pw_pon pw)"
  shows "ensures (\<lambda>r. pon_ok (pw_pon (snd r)) \<and> pon_ID (pw_pon (snd r)) = pon_ID (pw_pon pw)) (pon_Event m e pw)"
  unfolding pon_Event_def
proof (rule fsm_Event_ensures)
  show "pon_ok (pw_pon pw) \<and> pon_ID (pw_pon pw) = pon_ID (pw_pon pw)" using assms by simp
  fix d
  let ?pw = "put_pon_state (SetState d ((pon_InternalState \<circ> pw_pon) pw)) pw"
  have "pon_ok (pw_pon ?pw)" "pon_ID (pw_pon ?pw) = pon_ID (pw_pon pw)"
    using assms by (simp_all add: put_pon_state_def on_pon_port_def pon_ok_def SetState_def)
  then show "ensures (\<lambda>pw'. pon_ok (pw_pon pw') \<and> pon_ID (pw_pon pw') = pon_ID (pw_pon pw))
      (enter_pon m \<lparr>ev_Event = e, ev_Src = current ((pon_InternalState \<circ> pw_pon) pw), ev_Dst = d\<rparr> ?pw)"
    using pon_keepsD[OF each_onu_keeps] onu_steps_keep onu_try_keeps
    by (auto simp: enter_pon_def enter_pon_enabled_def split: pon_state.splits)
qed

lemma pon_indication_keeps: "pon_keeps (pon_indication st m s)"
  unfolding pon_keeps_def
proof (intro allI impI)
  fix pw :: pon_world assume ok: "pon_ok (pw_pon pw)"
  have "ensures (\<lambda>r. pon_ok (pw_pon (snd r)) \<and> pon_ID (pw_pon (snd r)) = pon_ID (pw_pon pw)) (pon_oper_Event st e pw)" for e
    unfolding pon_oper_Event_def
    by (rule fsm_Event_ensures) (use ok in \<open>simp_all add: put_pon_oper_def on_pon_port_def pon_ok_def SetState_def\<close>)
  then show "ensures (\<lambda>pw'. pon_ok (pw_pon pw') \<and> pon_ID (pw_pon pw') = pon_ID (pw_pon pw)) (pon_indication st m s pw)"
    unfolding pon_indication_def using pon_Event_keeps by (fastforce intro!: ensures_bind simp: split_beta)
qed

lemma InitOlt_keeps:
  assumes "transitions (olt_InternalState d) = transitions new_olt_state" "\<forall>p \<in> set (Pons d). pon_ok p" "\<forall>i < length (Pons d). pon_ID (Pons d ! i) = of_nat i"
    "table_safe (GemPortIDs d)" "table_safe (AllocIDs d)" "current (olt_InternalState d) = OltInitialized"
  shows "ensures olt_ok (InitOlt d)"
  using assms by (auto simp: InitOlt_def olt_ok_def init_safe Let_def split: list.splits)

lemma olt_Event_keeps:
  assumes "olt_ok d" "e \<in> {OltTxEnable} \<longrightarrow> enableContext d"
  shows "ensures (\<lambda>r. olt_ok (snd r)) (olt_Event e d)"
  unfolding olt_Event_def
proof (rule fsm_Event_ensures[where P = olt_ok, OF assms(1)])
  fix s assume s: "map_of (transitions (olt_InternalState d)) (e, current (olt_InternalState d)) = Some s"
  let ?d = "put_olt_state (SetState s (olt_InternalState d)) d"
  have n: "map_of (transitions new_olt_state) (e, current (olt_InternalState d)) = Some s" using s assms(1) by (simp add: olt_ok_def)
  then have ctx: "s \<in> {OltEnabled, OltDisabled, OltDeleted} \<Longrightarrow> enableContext d"
    using assms by (cases e) (auto simp: olt_next olt_ok_def split: if_split_asm)
  have *: "transitions (olt_InternalState ?d) = transitions new_olt_state" "\<forall>p \<in> set (Pons ?d). pon_ok p" "\<forall>i < length (Pons ?d). pon_ID (Pons ?d ! i) = of_nat i"
    "table_safe (GemPortIDs ?d)" "table_safe (AllocIDs ?d)" "current (olt_InternalState ?d) = s" "enableContext ?d = enableContext d"
    using assms(1) by (auto simp: put_olt_state_def olt_ok_def)
  have "olt_ok ?d" if "s \<noteq> OltInitialized" using * ctx that by (auto simp: olt_ok_def)
  moreover have "olt_ok (clearAllResources ?d)" if "s = OltDeleted"
    using * ctx that by (auto simp: olt_ok_def clearAllResources_def pon_ok_def removeAllOnuIds_def removeAllGemPorts_def removeAllAllocIds_def tables_ok_def)
  ultimately show "ensures olt_ok (enter_olt \<lparr>ev_Event = e, ev_Src = current (olt_InternalState d), ev_Dst = s\<rparr> ?d)"
    using InitOlt_keeps[OF *(1-5)] *(6) by (auto simp: enter_olt_def split: olt_state.splits)
qed

lemma handle_olt_message_keeps:
  assumes "olt_ok d" "enableContext d"
  shows "ensures olt_ok (handle_olt_message st msg d)"
proof (cases msg)
  case (OltIndicationMsg s)
  then show ?thesis using assms
    by (auto simp: handle_olt_message_def sendOltIndication_def olt_Send_def split_beta intro!: ensures_bind[OF olt_Event_keeps])
next
  case (PonIndicationMsg s p)
  then show ?thesis using on_olt_pon_keeps[OF pon_indication_keeps assms(1)]
    by (auto simp: handle_olt_message_def ensures_def split: option.splits dest: pon_by_id.lookup_in_range)
qed (use assms in \<open>auto simp: handle_olt_message_def olt_Send_def sendNniIndication_def Let_def split: option.splits\<close>)

section \<open>Enabling, restarting, packets\<close>

lemma restart_delete_keeps: "olt_ok d \<Longrightarrow> ensures (\<lambda>r. olt_ok (snd r)) (restart_delete d)"
  unfolding restart_delete_def split_beta
  by (rule ensures_bind[OF olt_Event_keeps])
     (auto intro!: ensures_bind[OF olt_keepsD[OF each_pon_keeps[OF each_onu_keeps[OF onu_try_keeps]]]])

lemma restart_stop_keeps: "olt_ok d \<Longrightarrow> ensures olt_ok (restart_stop d)"
  by (auto simp: restart_stop_def StopOltServer_def ensures_def go_simps split: if_split_asm)

lemma restart_init_keeps: "olt_ok d \<Longrightarrow> ensures (\<lambda>r. olt_ok (snd r)) (restart_init d)"
  unfolding restart_init_def split_beta by (rule ensures_bind[OF olt_Event_keeps]) simp_all

lemma RestartOLT_keeps: "olt_ok d \<Longrightarrow> ensures (\<lambda>r. olt_ok (snd r)) (RestartOLT d)"
  unfolding RestartOLT_def split_beta
  by (rule ensures_bind[OF restart_delete_keeps]) (auto intro!: ensures_bind[OF restart_stop_keeps] restart_init_keeps)

lemma UpdateStream_ok: "service_ok s \<Longrightarrow> service_ok (UpdateStream st s)" "svc_InternalState (UpdateStream st s) = svc_InternalState s"
  by (auto simp: UpdateStream_def service_ok_def)

lemma update_streams_ok: "onu_ok o1 \<Longrightarrow> onu_ok (update_streams st o1)"
  using UpdateStream_ok unfolding update_streams_def onu_ok_def uni_ok_def uni_up_def uni_UpdateStream_def by auto

lemma reconcile_keeps: "onu_keeps (reconcile_onu st m)" "pon_keeps (reconcile_pon st m)"
proof -
  show o1: "onu_keeps (reconcile_onu st m)"
    unfolding onu_keeps_def reconcile_onu_def using update_streams_ok ReDiscoverOnu_keeps
    by (auto simp: world_ok_def on_onu_def intro!: ensures_bind[where Q = world_ok])
  have "pon_keeps (pon_send x)" for x by (auto simp: pon_keeps_def pon_send_def ensures_def go_simps)
  then show "pon_keeps (reconcile_pon st m)"
    unfolding pon_keeps_def reconcile_pon_def using each_onu_keeps[OF o1]
    by (auto intro!: ensures_bind[where Q = "\<lambda>pw'. pon_ok (pw_pon pw') \<and> pon_ID (pw_pon pw') = pon_ID (pw_pon _)"] simp: pon_keeps_def)
qed

lemma Enable_keeps:
  assumes "olt_ok d"
  shows "ensures (\<lambda>r. olt_ok (snd r)) (Enable st d)"
proof -
  have "olt_ok (d\<lparr>enableContext := True\<rparr>)" using assms by (rule olt_ok_tables)
  then show ?thesis using assms unfolding Enable_def
    by (auto intro!: ensures_bind[where Q = olt_ok] olt_keepsD[OF olt_send_keeps] olt_keepsD[OF olt_fold_keeps[OF olt_send_keeps]]
        olt_keepsD[OF each_pon_keeps[OF reconcile_keeps(2)]])
qed

lemma olt_SetAlarm_keeps: "olt_ok d \<Longrightarrow> ensures (\<lambda>r. olt_ok (snd r)) (olt_SetAlarm i t s d)"
  by (auto simp: olt_SetAlarm_def intro!: ensures_bind[OF olt_keepsD[OF olt_send_keeps]])

lemma port_stats_keeps: "olt_ok d \<Longrightarrow> olt_ok (port_stats_round st rnd1 rnd2 d)"
proof -
  have send: "olt_ok (sendPortStatsIndication st x i t d) = olt_ok d" "Pons (sendPortStatsIndication st x i t d) = Pons d" for x i t d
    by (simp_all add: sendPortStatsIndication_def olt_Send_def)
  have nni: "olt_ok (nni_stats st rnd1 k d) = olt_ok d" "Pons (nni_stats st rnd1 k d) = Pons d" for k d
    by (simp_all add: nni_stats_def Let_def split_beta send)
  have pon: "olt_ok (pon_stats st rnd2 k d) \<and> length (Pons (pon_stats st rnd2 k d)) = length (Pons d)" if "olt_ok d" "k < length (Pons d)" for k d
    using that olt_ok_pon[OF that, of "(Pons d ! k)\<lparr>pon_PacketCount := c\<rparr>" for c] olt_okD(1)[OF that]
    by (simp add: pon_stats_def Let_def split_beta send pon_ok_def)
  have "olt_ok (fold (nni_stats st rnd1) ks d) = olt_ok d \<and> Pons (fold (nni_stats st rnd1) ks d) = Pons d" for ks d
    by (induction ks arbitrary: d) (simp_all add: nni)
  moreover have "olt_ok (fold (pon_stats st rnd2) ks d)" if "olt_ok d" "\<forall>k \<in> set ks. k < length (Pons d)" for ks d
    using that by (induction ks arbitrary: d) (use pon in auto)
  ultimately show "olt_ok d \<Longrightarrow> ?thesis" by (simp add: port_stats_round_def)
qed

lemma packet_to_onu_keeps: "onu_keeps (packet_to_onu msg)"
  by (auto simp: onu_keeps_def packet_to_onu_def power_steps_keep)

lemma olt_OnuPacketOut_keeps: "olt_ok d \<Longrightarrow> ensures (\<lambda>r. olt_ok (snd r)) (olt_OnuPacketOut newPacket p d)"
  unfolding olt_OnuPacketOut_def
  by (auto simp: Let_def split: option.splits if_splits dest: in_range_onu pon_by_id.lookup_in_range
      simp del: go_fold.simps intro!: ensures_bind[OF onus_fold_keeps[OF packet_to_onu_keeps]])

lemma UplinkPacketOut_keeps: "olt_ok d \<Longrightarrow> ensures (\<lambda>r. olt_ok (snd r)) (UplinkPacketOut newPacket ser st pkt d)"
  by (auto simp: UplinkPacketOut_def handleNniPacket_def ensures_def go_simps Let_def split_beta split: list.splits option.splits if_split_asm)

lemma set_schedulers_keeps:
  assumes "olt_ok d"
  shows "olt_ok (snd (set_schedulers intfId onuId ts d))"
proof -
  have "olt_ok (set_onu i j ((the_onu i j d)\<lparr>onu_TrafficSchedulers := ts\<rparr>) d)"
    if "GetPonById intfId (Pons d) = Some i" "GetOnuById onuId (Onus (Pons d ! i)) = Some j" for i j
  proof -
    note lt = in_range_onu[OF that]
    have "onu_ok ((the_onu i j d)\<lparr>onu_TrafficSchedulers := ts\<rparr>)" using olt_okD(3)[OF assms lt] by (simp add: onu_ok_def)
    then show ?thesis by (rule set_onu_keeps[OF assms lt(1)])
  qed
  then show ?thesis using assms by (auto simp: set_schedulers_def split: option.splits)
qed

section \<open>The control API\<close>

text \<open>An event of a service that keeps its invariant and its state.\<close>

definition event_keeps :: "(Service \<Rightarrow> ('e option \<times> Service) go) \<Rightarrow> bool" where
  "event_keeps event \<longleftrightarrow> (\<forall>s r s'. service_ok s \<longrightarrow> event s = Ret (r, s') \<longrightarrow> service_ok s' \<and> svc_InternalState s' = svc_InternalState s)"

lemma protocol_events_keep: "event_keeps (eapol_Event e)" "event_keeps (dhcp_Event e')"
proof -
  show "event_keeps (eapol_Event e)" unfolding event_keeps_def using eapol_Event_total[of _ e] by fastforce
  show "event_keeps (dhcp_Event e')" unfolding event_keeps_def using dhcp_Event_total[of _ e'] by fastforce
qed

lemma restart_uni_ok:
  assumes "event_keeps event" "uni_ok u" "restart_uni uniID wanted event u ok = Ret (u', ok')"
  shows "uni_ok u'"
proof (cases "u' = u")
  case False
  then obtain ss where ss: "go_each (restart_service wanted event) (Services u) ok = Ret (ss, ok')" "u' = u\<lparr>Services := ss\<rparr>"
    using assms(3) by (auto simp: restart_uni_def go_simps split: if_split_asm)
  have all: "list_all2 (\<lambda>s s'. service_ok s \<longrightarrow> service_ok s' \<and> svc_InternalState s' = svc_InternalState s) (Services u) ss \<and> True"
    by (rule go_each_all2[where I = "\<lambda>_. True", OF _ ss(1)])
       (use assms(1) in \<open>auto simp: restart_service_def event_keeps_def go_simps split: if_split_asm\<close>)
  have "service_ok s' \<and> (initialized s' \<longleftrightarrow> uni_up u)" if mem: "s' \<in> set ss" for s'
  proof -
    obtain k where k: "k < length ss" "s' = ss ! k" using mem by (auto simp: in_set_conv_nth)
    have len: "length (Services u) = length ss" using all list_all2_lengthD by blast
    have "service_ok (Services u ! k) \<and> (initialized (Services u ! k) \<longleftrightarrow> uni_up u)" using assms(2) k(1) len by (simp add: uni_ok_def)
    then show ?thesis using list_all2_nthD2[OF conjunct1[OF all] k(1)] k(2) by auto
  qed
  then show ?thesis using assms(2) by (simp add: uni_ok_def uni_up_def ss(2))
qed (use assms in simp)

lemma restart_protocol_keeps:
  assumes "event_keeps event" "olt_ok d"
  shows "ensures (\<lambda>r. olt_ok (snd r)) (restart_protocol wanted event sn uniID d)"
proof (cases "FindOnuBySn sn (Pons d)")
  case (Some ij)
  then obtain i j where ij: "FindOnuBySn sn (Pons d) = Some (i, j)" "i < length (Pons d)" "j < length (Onus (Pons d ! i))"
    by (cases ij) (auto simp: FindOnuBySn_def dest: find_onu_SomeD)
  have o1: "onu_ok (the_onu i j d)" by (rule olt_okD(3)[OF assms(2) ij(2,3)])
  have "onu_ok ((the_onu i j d)\<lparr>UniPorts := us\<rparr>)"
    if "go_each (restart_uni uniID wanted event) (UniPorts (the_onu i j d)) True = Ret (us, ok)" for us ok
  proof -
    have "list_all2 (\<lambda>u u'. uni_ok u \<longrightarrow> uni_ok u') (UniPorts (the_onu i j d)) us \<and> True"
      by (rule go_each_all2[where I = "\<lambda>_. True", OF _ that]) (use restart_uni_ok[OF assms(1)] in auto)
    then have "list_all2 (\<lambda>u u'. uni_ok u \<longrightarrow> uni_ok u') (UniPorts (the_onu i j d)) us" by simp
    from list_all2_lengthD[OF this] list_all2_nthD2[OF this] onu_okD(3)[OF o1] have "\<forall>u \<in> set us. uni_ok u"
      unfolding all_set_conv_all_nth by simp
    then show ?thesis using o1 by (simp add: onu_ok_def)
  qed
  then show ?thesis using ij set_onu_keeps[OF assms(2) ij(2)]
    by (auto simp: restart_protocol_def ensures_def go_simps)
qed (simp add: restart_protocol_def assms)

lemma igmp_service_ok: "service_ok s \<Longrightarrow> service_ok (igmp_service a g v s)" "svc_InternalState (igmp_service a g v s) = svc_InternalState s"
  by (auto simp: igmp_service_def AddGroupAddress_def RemoveGroupAddress_def split: igmp_action.splits option.splits)

lemma ChangeIgmpState_keeps:
  assumes "olt_ok d"
  shows "ensures (\<lambda>r. olt_ok (snd (snd r))) (ChangeIgmpState act g vlan sn uniID d)"
proof -
  have "olt_ok (set_onu i j ((the_onu i j d)\<lparr>UniPorts := (UniPorts (the_onu i j d))[k := (UniPorts (the_onu i j d) ! k)
      \<lparr>Services := map (igmp_service act g (sint vlan)) (Services (UniPorts (the_onu i j d) ! k))\<rparr>]\<rparr>) d)"
    if "FindOnuBySn sn (Pons d) = Some (i, j)" "k < length (UniPorts (the_onu i j d))" for i j k
  proof -
    have ij: "i < length (Pons d)" "j < length (Onus (Pons d ! i))" using find_onu_SomeD that(1) unfolding FindOnuBySn_def by blast+
    have o1: "onu_ok (the_onu i j d)" by (rule olt_okD(3)[OF assms ij])
    let ?u = "(UniPorts (the_onu i j d) ! k)\<lparr>Services := map (igmp_service act g (sint vlan)) (Services (UniPorts (the_onu i j d) ! k))\<rparr>"
    have "uni_ok (UniPorts (the_onu i j d) ! k)" using onu_okD(3)[OF o1] nth_mem[OF that(2)] by blast
    then have "uni_ok ?u" using igmp_service_ok by (simp add: uni_ok_def uni_up_def)
    then have "\<forall>u \<in> set ((UniPorts (the_onu i j d))[k := ?u]). uni_ok u"
      using onu_okD(3)[OF o1] set_update_subset_insert[of "UniPorts (the_onu i j d)" k ?u] by auto
    then have "onu_ok ((the_onu i j d)\<lparr>UniPorts := (UniPorts (the_onu i j d))[k := ?u]\<rparr>)" using o1 by (simp add: onu_ok_def)
    then show ?thesis by (rule set_onu_keeps[OF assms ij(1)])
  qed
  then show ?thesis using assms by (auto simp: ChangeIgmpState_def Let_def split: option.splits)
qed

lemma FindOnuBySn_range: "FindOnuBySn sn (Pons d) = Some (i, j) \<Longrightarrow> i < length (Pons d) \<and> j < length (Onus (Pons d ! i))"
  unfolding FindOnuBySn_def using find_onu_SomeD by blast

lemma api_onu_keeps:
  assumes "olt_ok d"
  shows "ensures (\<lambda>r. olt_ok (snd r)) (ShutdownONU sn d)" "ensures (\<lambda>r. olt_ok (snd r)) (PoweronONU sn d)"
    "ensures (\<lambda>r. olt_ok (snd r)) (SetOnuAlarmIndication sn t s d)" "olt_ok (snd (InvalidateMds r sn d))"
proof -
  have res: "ensures (\<lambda>r. olt_ok (snd r)) (on_olt_onu_res i j f d)"
    if "FindOnuBySn sn (Pons d) = Some (i, j)" "\<And>w. world_ok w \<Longrightarrow> ensures (\<lambda>r. world_ok (snd r)) (f w)" for i j and f :: "onu_world \<Rightarrow> (bool \<times> onu_world) go"
    using FindOnuBySn_range[OF that(1)] by (intro on_olt_onu_res_keeps[where f = f, OF _ assms]) (simp_all add: that(2))
  show "ensures (\<lambda>r. olt_ok (snd r)) (ShutdownONU sn d)" "ensures (\<lambda>r. olt_ok (snd r)) (SetOnuAlarmIndication sn t s d)"
    using assms res[OF _ HandleShutdownONU_keeps] res[OF _ onu_SetAlarm_keeps]
    by (auto simp: ShutdownONU_def SetOnuAlarmIndication_def handleShutdownONU_def split: option.splits intro!: ensures_bind[where Q = "\<lambda>r. olt_ok (snd r)"])
  show "ensures (\<lambda>r. olt_ok (snd r)) (PoweronONU sn d)"
    using assms res[OF _ HandlePowerOnONU_keeps]
    by (auto simp: PoweronONU_def handlePoweronONU_def split: option.splits intro!: ensures_bind[where Q = "\<lambda>r. olt_ok (snd r)"])
  show "olt_ok (snd (InvalidateMds r sn d))"
    using assms set_onu_keeps[OF assms] olt_okD(3)[OF assms]
    by (auto simp: InvalidateMds_def InvalidateMibDataSync_def Let_def onu_ok_def split: option.splits dest!: FindOnuBySn_range)
qed

lemma power_loops_keep: "onu_keeps onu_shutdown" "onu_keeps (onu_poweron del)" "pon_keeps (poweron_pon del)"
proof -
  show "onu_keeps onu_shutdown" and on: "onu_keeps (onu_poweron del)"
    by (auto simp: onu_keeps_def onu_shutdown_def onu_poweron_def split_beta intro!: ensures_bind[OF HandleShutdownONU_keeps] ensures_bind[OF HandlePowerOnONU_keeps])
  show "pon_keeps (poweron_pon del)" using each_onu_keeps[OF on] by (auto simp: pon_keeps_def poweron_pon_def)
qed

definition job_in_range :: "api_job \<Rightarrow> OltDevice \<Rightarrow> bool" where
  "job_in_range job d = (case job of ShutdownPon i \<Rightarrow> i < length (Pons d) | PoweronPon i \<Rightarrow> i < length (Pons d) | _ \<Rightarrow> True)"

lemma run_job_keeps:
  assumes "olt_ok d" "job_in_range job d"
  shows "ensures olt_ok (run_job ser job d)"
proof -
  have "ensures olt_ok (on_olt_pon i f d)" if "pon_keeps f" "i < length (Pons d)" for i f
    using on_olt_pon_keeps[OF that(1) assms(1) that(2)] by (auto simp: ensures_def)
  moreover have "ensures olt_ok (go_bind (RestartOLT d) (\<lambda>(_, d'). Ret d'))"
    by (rule ensures_bind[OF RestartOLT_keeps[OF assms(1)]]) (simp add: split_beta)
  moreover have "ensures olt_ok (go_bind m (\<lambda>sent. Ret (d\<lparr>olt_sent := sent\<rparr>)))" for m
    using assms(1) by (cases m) (simp_all add: go_simps)
  ultimately show ?thesis using assms each_onu_keeps[OF power_loops_keep(1)] each_onu_keeps[OF power_loops_keep(2)]
    by (cases job) (simp_all add: run_job_def job_in_range_def Let_def olt_keepsD[OF each_pon_keeps] power_loops_keep)
qed

section \<open>Reachable states\<close>

text \<open>
  The operations on an OLT: those of its ONUs, a step of its loop, the calls of VOLTHA, the phases of a restart, the statistics, the
  calls of the control API and their goroutines.
\<close>

datatype olt_op = OnuOp nat nat onu_op | OltStep
  | CallActivateOnu uint32 uint32 "byte list" | CallDeleteOnu uint32 uint32 | CallFlowAdd Flow | CallFlowRemove Flow | CallOmciMsgOut uint32 uint32 "byte list"
  | CallDisableOlt | CallReenableOlt | CallDisablePonIf uint32 | CallEnablePonIf uint32 | CallEnable
  | CallOnuPacketOut OnuPacket | CallUplinkPacketOut "byte list" | CallSchedulers uint32 uint32 "TrafficSchedulers option" | CallGetDeviceInfo PonPortsConfig
  | RestartDelete | RestartStop | RestartInit | Statistics "nat \<Rightarrow> uint64" "nat \<Rightarrow> uint64"
  | ApiShutdownONU string | ApiPoweronONU string | ApiInvalidateMds uint8 string | ApiRestartEapol string string | ApiRestartDhcp string string
  | ApiChangeIgmpState igmp_action string int32 string int32 | ApiPoweronOlt | ApiShutdownOlt | ApiStopgRPCServer | ApiStartgRPCServer
  | ApiSetOnuAlarm string string string | ApiSetOltAlarm uint32 string string | Job api_job

record olt_env =
  env_omci :: omci_env
  env_newPacket :: "byte list \<Rightarrow> Packet"
  env_dhcp :: dhcp_serializer
  env_igmp :: igmp_serializer

definition state_of :: "('r \<times> 's) go \<Rightarrow> 's go" where
  "state_of m = go_bind m (\<lambda>(_, s). Ret s)"

definition olt_step :: "stream \<Rightarrow> OltDevice \<Rightarrow> OltDevice go" where
  "olt_step st d =
     (if \<not> enableContext d then Ret d
      else go_bind (chan_recv (olt_channel d)) (\<lambda>(m, c). case m of None \<Rightarrow> Ret d | Some msg \<Rightarrow> handle_olt_message st msg (d\<lparr>olt_channel := c\<rparr>)))"

definition olt_exec :: "olt_env \<Rightarrow> olt_op \<Rightarrow> OltDevice \<Rightarrow> OltDevice go" where
  "olt_exec env op d =
     (let st = oe_stream (env_omci env) in
      case op of
        OnuOp i j o1 \<Rightarrow> if i < length (Pons d) \<and> j < length (Onus (Pons d ! i)) then on_olt_onu i j (onu_exec (env_omci env) (\<lambda>_. False) o1) d else Ret d
      | OltStep \<Rightarrow> olt_step st d
      | CallActivateOnu p i sn \<Rightarrow> state_of (ActivateOnu p i sn d)
      | CallDeleteOnu p i \<Rightarrow> state_of (state_of (DeleteOnu p i d))
      | CallFlowAdd f \<Rightarrow> state_of (FlowAdd f d)
      | CallFlowRemove f \<Rightarrow> state_of (FlowRemove f d)
      | CallOmciMsgOut p i b \<Rightarrow> state_of (OmciMsgOut (env_omci env) p i b d)
      | CallDisableOlt \<Rightarrow> DisableOlt d
      | CallReenableOlt \<Rightarrow> ReenableOlt d
      | CallDisablePonIf p \<Rightarrow> DisablePonIf st p d
      | CallEnablePonIf p \<Rightarrow> EnablePonIf st p d
      | CallEnable \<Rightarrow> state_of (Enable st d)
      | CallOnuPacketOut p \<Rightarrow> state_of (olt_OnuPacketOut (env_newPacket env) p d)
      | CallUplinkPacketOut b \<Rightarrow> state_of (UplinkPacketOut (env_newPacket env) (env_dhcp env) st b d)
      | CallSchedulers p i ts \<Rightarrow> Ret (snd (set_schedulers p i ts d))
      | CallGetDeviceInfo c \<Rightarrow> (case GetDeviceInfo c d of None \<Rightarrow> Blocked | Some r \<Rightarrow> Ret (snd (snd r)))
      | RestartDelete \<Rightarrow> state_of (restart_delete d)
      | RestartStop \<Rightarrow> if current (olt_InternalState d) = OltDeleted then restart_stop d else Ret d
      | RestartInit \<Rightarrow> state_of (restart_init d)
      | Statistics r1 r2 \<Rightarrow> Ret (port_stats_round st r1 r2 d)
      | ApiShutdownONU sn \<Rightarrow> state_of (ShutdownONU sn d)
      | ApiPoweronONU sn \<Rightarrow> state_of (PoweronONU sn d)
      | ApiInvalidateMds r sn \<Rightarrow> Ret (snd (InvalidateMds r sn d))
      | ApiRestartEapol sn u \<Rightarrow> state_of (RestartEapol sn u d)
      | ApiRestartDhcp sn u \<Rightarrow> state_of (RestartDhcp sn u d)
      | ApiChangeIgmpState a g v sn u \<Rightarrow> state_of (state_of (ChangeIgmpState a g v sn u d))
      | ApiPoweronOlt \<Rightarrow> state_of (PoweronOlt d)
      | ApiShutdownOlt \<Rightarrow> state_of (ShutdownOlt d)
      | ApiStopgRPCServer \<Rightarrow> Ret (snd (StopgRPCServer d))
      | ApiStartgRPCServer \<Rightarrow> Ret (snd (StartgRPCServer d))
      | ApiSetOnuAlarm sn t s \<Rightarrow> state_of (SetOnuAlarmIndication sn t s d)
      | ApiSetOltAlarm i t s \<Rightarrow> state_of (SetOltAlarmIndication i t s d)
      | Job j \<Rightarrow> if job_in_range j d then run_job (env_igmp env) j d else Ret d)"

inductive olt_reachable :: "olt_env \<Rightarrow> OltDevice \<Rightarrow> bool" for env where
  created: "CreateOLT c isMock = Ret d \<Longrightarrow> olt_reachable env d"
| step: "olt_reachable env d \<Longrightarrow> olt_exec env op d = Ret d' \<Longrightarrow> olt_reachable env d'"

lemma state_of_ensures: "ensures (\<lambda>r. P (snd r)) m \<Longrightarrow> ensures P (state_of m)"
  by (cases m) (auto simp: state_of_def ensures_def go_simps)

lemma state_of_ensures2: "ensures (\<lambda>r. P (snd (snd r))) m \<Longrightarrow> ensures P (state_of (state_of m))"
  by (intro state_of_ensures) simp

lemma olt_step_keeps: "olt_ok d \<Longrightarrow> ensures olt_ok (olt_step st d)"
  unfolding olt_step_def split_beta
  by (auto split: option.splits intro!: ensures_bind[where Q = "\<lambda>_. True"] handle_olt_message_keeps) (simp add: ensures_def)

lemma olt_switch_keeps: "olt_ok d \<Longrightarrow> e \<noteq> OltTxEnable \<Longrightarrow> ensures (\<lambda>r. olt_ok (snd r)) (olt_switch e d)"
  unfolding olt_switch_def split_beta by (rule ensures_bind[OF olt_Event_keeps]) auto

lemma olt_exec_keeps:
  assumes "olt_ok d"
  shows "ensures olt_ok (olt_exec env op d)"
proof -
  have onu: "onu_keeps (onu_exec e c o1)" for e c o1 using onu_exec_keeps by (simp add: onu_keeps_def)
  have info: "olt_ok (snd (snd r))" if "GetDeviceInfo c d = Some r" for c r using that assms by (auto simp: GetDeviceInfo_def)
  have start: "olt_ok (snd (StartgRPCServer d))" "olt_ok (snd (StopgRPCServer d))"
    using assms by (simp_all add: StartgRPCServer_def StopgRPCServer_def StopOltServer_def)
  note calls = ActivateOnu_keeps[OF assms] FlowAdd_keeps[OF assms] FlowRemove_keeps[OF assms] OmciMsgOut_keeps[OF assms] Enable_keeps[OF assms]
    olt_OnuPacketOut_keeps[OF assms] UplinkPacketOut_keeps[OF assms] restart_delete_keeps[OF assms] restart_init_keeps[OF assms]
    api_onu_keeps[OF assms] restart_protocol_keeps[OF protocol_events_keep(1) assms] restart_protocol_keeps[OF protocol_events_keep(2) assms]
    olt_switch_keeps[OF assms] olt_SetAlarm_keeps[OF assms]
  show ?thesis
    using assms onu info start on_olt_onu_keeps[OF onu assms] olt_step_keeps[OF assms] switch_keeps SwitchPonIf_keeps[OF assms]
      set_schedulers_keeps[OF assms] restart_stop_keeps[OF assms] port_stats_keeps[OF assms] run_job_keeps[OF assms] api_onu_keeps(4)[OF assms]
      state_of_ensures2[OF DeleteOnu_keeps[OF assms]] state_of_ensures2[OF ChangeIgmpState_keeps[OF assms]]
    by (cases op) (simp_all add: olt_exec_def Let_def calls state_of_ensures olt_keepsD DisablePonIf_def EnablePonIf_def RestartEapol_def RestartDhcp_def
      PoweronOlt_def ShutdownOlt_def SetOltAlarmIndication_def split: option.splits)
qed

section \<open>Creation\<close>

lemma create_onus_ok: "create_onus c ref p js t = Ret (os, t') \<Longrightarrow> \<forall>o1 \<in> set os. onu_ok o1"
  by (induction c ref p js t arbitrary: os t' rule: create_onus.induct) (auto simp: go_simps dest: CreateONU_ok)

lemma create_pon_ok: "create_pon c i t = Ret (p, t') \<Longrightarrow> pon_ok p \<and> pon_ID p = of_nat i"
  by (auto simp: create_pon_def go_simps pon_ok_def CreatePonPort_def tables_ok_def empty_tables_def dest: create_onus_ok split: option.splits if_splits)

lemma create_pons_ok: "create_pons c ks t = Ret (ps, t') \<Longrightarrow> (\<forall>p \<in> set ps. pon_ok p) \<and> map pon_ID ps = map of_nat ks"
  by (induction c ks t arbitrary: ps t' rule: create_pons.induct) (fastforce simp: go_simps dest: create_pon_ok)+

lemma CreateOLT_ok: "ensures olt_ok (CreateOLT c isMock)"
proof -
  have "olt_ok d" if "create_pons c [0..<oo_PonPorts c] t = Ret (ps, t')" "olt_InternalState d = new_olt_state" "Pons d = ps"
    "GemPortIDs d = init_entries ids []" "AllocIDs d = init_entries ids []" for d ps t t' ids
  proof -
    have "length ps = oo_PonPorts c" "\<forall>i < length ps. pon_ID (ps ! i) = of_nat i"
      using create_pons_ok[OF that(1)] map_eq_imp_length_eq nth_map by (metis length_map length_upt diff_zero, metis add_0 length_map length_upt nth_map nth_upt diff_zero)
    then show ?thesis using create_pons_ok[OF that(1)] that(2-)
      by (simp add: olt_ok_def init_safe) (simp add: new_olt_state_def NewFSM_def)
  qed
  then show ?thesis unfolding CreateOLT_def Let_def split_beta
    by (intro ensures_bind[where Q = "\<lambda>r. \<exists>t. create_pons c [0..<oo_PonPorts c] \<lparr>nextCtag = [], nextStag = []\<rparr> = Ret (fst r, t)"])
      (auto simp: ensures_def[of _ "create_pons _ _ _"] intro!: ensures_bind[OF olt_Event_keeps])
qed

lemma olt_reachable_ok: "olt_reachable env d \<Longrightarrow> olt_ok d"
proof (induction rule: olt_reachable.induct)
  case (created c isMock d)
  then show ?case using CreateOLT_ok by (auto simp: ensures_def)
next
  case (step d op d')
  then show ?case using olt_exec_keeps by (auto simp: ensures_def)
qed

text \<open>
  C7: the states of an OLT. In every state that an OLT can reach from its creation, by any sequence of calls of VOLTHA and of the control API,
  messages of its loop, phases of a restart, goroutines of the API and operations of its ONUs, their UNIs and their services that return:
  PON port \<open>i\<close> of the list has the id \<open>i\<close>; the tables of every port are maps; of every ONU, the channel is nil exactly until it is first
  powered on and open while it is powered, the services of a UNI are initialised exactly while the UNI is up, and the two channels of a service are open
  while it is initialised and nil otherwise; the resource tables are maps in
  which no GEM port and no alloc-id of a PON belongs to two ONUs; the OLT's machine has its own transitions; and once the OLT has been
  enabled it has a context, so the cancel function that a restart calls is not nil.
\<close>

theorem olt_reachable_invariant:
  assumes "olt_reachable env d"
  shows "(\<forall>i < length (Pons d). pon_ID (Pons d ! i) = of_nat i \<and> tables_ok (pon_Tables (Pons d ! i)))
     \<and> (\<forall>p \<in> set (Pons d). \<forall>o1 \<in> set (Onus p).
          (onu_Channel o1 = NilChan \<longleftrightarrow> current (onu_InternalState o1) = OnuStateCreated)
        \<and> (powered (current (onu_InternalState o1)) \<longrightarrow> (\<exists>q. onu_Channel o1 = Chan (Some 2048) q False))
        \<and> (\<forall>u \<in> set (UniPorts o1). \<forall>s \<in> set (Services u). (initialized s \<longleftrightarrow> uni_up u)
             \<and> (if initialized s then chan_open (svc_Channel s) \<and> chan_open (PacketCh s) else svc_Channel s = NilChan \<and> PacketCh s = NilChan)))
     \<and> flow_table_ok (GemPortIDs d) \<and> exclusive (GemPortIDs d) \<and> flow_table_ok (AllocIDs d) \<and> exclusive (AllocIDs d)
     \<and> transitions (olt_InternalState d) = transitions new_olt_state
     \<and> (current (olt_InternalState d) \<in> {OltEnabled, OltDisabled, OltDeleted} \<longrightarrow> enableContext d)"
proof -
  note ok = olt_reachable_ok[OF assms]
  have "(onu_Channel o1 = NilChan \<longleftrightarrow> current (onu_InternalState o1) = OnuStateCreated)
      \<and> (powered (current (onu_InternalState o1)) \<longrightarrow> (\<exists>q. onu_Channel o1 = Chan (Some 2048) q False))
      \<and> (\<forall>u \<in> set (UniPorts o1). \<forall>s \<in> set (Services u). (initialized s \<longleftrightarrow> uni_up u)
           \<and> (if initialized s then chan_open (svc_Channel s) \<and> chan_open (PacketCh s) else svc_Channel s = NilChan \<and> PacketCh s = NilChan))"
    if "p \<in> set (Pons d)" "o1 \<in> set (Onus p)" for p o1
  proof -
    have o1: "onu_ok o1" using ok that by (auto simp: olt_ok_def pon_ok_def)
    have "\<forall>u \<in> set (UniPorts o1). \<forall>s \<in> set (Services u). (initialized s \<longleftrightarrow> uni_up u)
        \<and> (if initialized s then chan_open (svc_Channel s) \<and> chan_open (PacketCh s) else svc_Channel s = NilChan \<and> PacketCh s = NilChan)"
      using o1 by (fastforce simp: onu_ok_def uni_ok_def service_ok_def open_unbuffered_iff)
    then show ?thesis using o1 by (cases "current (onu_InternalState o1)") (auto simp: onu_ok_def powered_def)
  qed
  then show ?thesis using ok olt_okD(2)[OF ok] by (simp add: olt_ok_def table_safe_def)
qed

definition sample_olt_env :: olt_env where
  "sample_olt_env = \<lparr>env_omci = sample_env, env_newPacket = (\<lambda>_. igmp_query), env_dhcp = (\<lambda>_ _. None), env_igmp = (\<lambda>_ _ _. None)\<rparr>"

definition sample_olt_options :: olt_options where
  "sample_olt_options = \<lparr>oo_NniSpeed = 10000, oo_PonPorts = 1, oo_OnusPonPort = 1, oo_EnablePerf = False, oo_ControlledActivation = ''default'',
     oo_PonsConfig = Some (getDefaultPonsConfig 1 1 4 1), oo_onu = sample_onu_config\<rparr>"

lemma sample_olt_created:
  "\<exists>d. CreateOLT sample_olt_options False = Ret d \<and> length (Pons d) = 1 \<and> length (Onus (Pons d ! 0)) = 1 \<and> length (Nnis d) = 1
     \<and> current (olt_InternalState d) = OltInitialized \<and> \<not> enableContext d \<and> olt_channel d = make_chan None \<and> ControlledActivation d = Default"
proof -
  have "\<exists>o1 t. CreateONU (sample_onu_config\<lparr>oc_Technology := XGSPON\<rparr>) 0 0 1 \<lparr>nextCtag = [], nextStag = []\<rparr> = Ret (o1, t)"
    using sample_onu_created by (auto simp: CreateONU_def go_simps sample_onu_config_def)
  then obtain o1 t where o1: "CreateONU (sample_onu_config\<lparr>oc_Technology := XGSPON\<rparr>) 0 0 1 \<lparr>nextCtag = [], nextStag = []\<rparr> = Ret (o1, t)" by blast
  have "create_pons sample_olt_options [0..<1] \<lparr>nextCtag = [], nextStag = []\<rparr> = Ret ([(CreatePonPort 0)\<lparr>Onus := [o1]\<rparr>], t)"
    using o1 by (simp add: create_pon_def sample_olt_options_def getDefaultPonsConfig_def GetPonConfigById_def in_range_def
      PonTechnologyFromString_def upt_rec Let_def)
  then have pons: "create_pons sample_olt_options [0..<oo_PonPorts sample_olt_options] \<lparr>nextCtag = [], nextStag = []\<rparr> = Ret ([(CreatePonPort 0)\<lparr>Onus := [o1]\<rparr>], t)"
    by (simp add: sample_olt_options_def)
  have "current new_olt_state = OltCreated" by (simp add: new_olt_state_def NewFSM_def)
  then show ?thesis unfolding CreateOLT_def pons
    by (simp add: sample_olt_options_def olt_Event_def fsm_Event_def Let_def olt_next enter_olt_def InitOlt_def put_olt_state_def
      CreateNNI_def ControlledActivationModes_def)
qed

theorem olt_reachable_invariant_witness:
  "\<exists>d. olt_reachable sample_olt_env d \<and> length (Pons d) = 1 \<and> length (Onus (Pons d ! 0)) = 1 \<and> pon_ID (Pons d ! 0) = 0
     \<and> current (olt_InternalState d) = OltEnabled \<and> enableContext d"
proof -
  obtain d where d: "CreateOLT sample_olt_options False = Ret d" "length (Pons d) = 1" "length (Onus (Pons d ! 0)) = 1" "length (Nnis d) = 1"
    "current (olt_InternalState d) = OltInitialized" "\<not> enableContext d" "olt_channel d = make_chan None" "ControlledActivation d = Default"
    using sample_olt_created by blast
  obtain p n where pn: "Pons d = [p]" "Nnis d = [n]" using d(2,4) by (auto simp: length_Suc_conv)
  have r: "olt_reachable sample_olt_env d" by (rule olt_reachable.created[OF d(1)])
  let ?d1 = "d\<lparr>enableContext := True, olt_channel := Chan None [OltIndicationMsg UP, NniIndicationMsg UP (nni_ID n), PonIndicationMsg UP (pon_ID p)] False\<rparr>"
  have "olt_exec sample_olt_env CallEnable d = Ret ?d1"
    using d(5-8) pn by (simp add: olt_exec_def Let_def state_of_def Enable_def olt_send_def make_chan_def)
  then have r1: "olt_reachable sample_olt_env ?d1" by (rule olt_reachable.step[OF r])
  have tr: "transitions (olt_InternalState d) = transitions new_olt_state" using olt_reachable_ok[OF r] by (simp add: olt_ok_def)
  obtain d2 where d2: "olt_exec sample_olt_env OltStep ?d1 = Ret d2" "Pons d2 = Pons d" "current (olt_InternalState d2) = OltEnabled"
    using d(5) tr by (simp add: olt_exec_def Let_def olt_step_def handle_olt_message_def olt_Event_def fsm_Event_def olt_next enter_olt_def
      put_olt_state_def sendOltIndication_def olt_Send_def)
  have r2: "olt_reachable sample_olt_env d2" by (rule olt_reachable.step[OF r1 d2(1)])
  from olt_reachable_invariant[OF r2] r2 d(2,3) d2(2,3) show ?thesis by (intro exI[of _ d2]) auto
qed

end
