(* ===== verification/ApiUse.thy ===== *)
theory ApiUse
  imports OltReach
begin

text \<open>
  What the control interface (\<open>internal/bbsim/api\<close>) promises in the reachable states of an OLT: the report of the allocated
  resources, switching an ONU off and on again, and switching the OLT.
\<close>

section \<open>The report of resources\<close>

text \<open>A loop over a map in which every entry adds elements that tell their key.\<close>

lemma loop_over_map:
  assumes "maps_ok P m" "\<And>k v. P v \<Longrightarrow> distinct (h k v) \<and> set (h k v) = S k v" "\<And>k v x. x \<in> S k v \<Longrightarrow> key x = k"
  shows "distinct (concat (map (\<lambda>(k, v). h k v) m)) \<and> set (concat (map (\<lambda>(k, v). h k v) m)) = {x. \<exists>k v. map_of m k = Some v \<and> x \<in> S k v}"
proof -
  have "gomap_ok m" and P: "(k, v) \<in> set m \<Longrightarrow> P v" for k v using assms(1) by (auto simp: maps_ok_def gomap_ok_def)
  from this(1) have "distinct (concat (map (\<lambda>(k, v). h k v) m))" using P
  proof (induction m)
    case (Cons e m)
    obtain k v where e: "e = (k, v)" by force
    have set: "distinct (h k' v')" "set (h k' v') = S k' v'" if "(k', v') \<in> set (e # m)" for k' v'
      using assms(2)[of v' k'] Cons.prems(2)[OF that] by auto
    have disj: "S k v \<inter> S k' v' = {}" if "(k', v') \<in> set m" for k' v'
    proof -
      have "k' \<noteq> k" using that Cons.prems(1) e by (auto simp: gomap_ok_def image_iff)
      then show ?thesis using assms(3) by blast
    qed
    have "distinct (concat (map (\<lambda>(k, v). h k v) m))" by (rule Cons.IH) (use Cons.prems in \<open>auto simp: gomap_ok_def\<close>)
    moreover have "set (h k v) \<inter> set (concat (map (\<lambda>(k, v). h k v) m)) = {}"
    proof -
      have "set (h k v) \<inter> set (h k' v') = {}" if "(k', v') \<in> set m" for k' v' using set(2)[of k v] set(2)[of k' v'] disj[OF that] that e by simp
      then show ?thesis by auto
    qed
    ultimately show ?case using set(1)[of k v] by (simp add: e)
  qed simp
  moreover have "set (concat (map (\<lambda>(k, v). h k v) m)) = {x. \<exists>k v. map_of m k = Some v \<and> x \<in> S k v}"
  proof (rule set_eqI)
    fix x
    have m: "map_of m k = Some v \<longleftrightarrow> (k, v) \<in> set m" for k v using \<open>gomap_ok m\<close> by (simp add: gomap_ok_def)
    have h: "(k, v) \<in> set m \<and> x \<in> set (h k v) \<longleftrightarrow> (k, v) \<in> set m \<and> x \<in> S k v" for k v using assms(2) P by blast
    have "x \<in> set (concat (map (\<lambda>(k, v). h k v) m)) \<longleftrightarrow> (\<exists>k v. (k, v) \<in> set m \<and> x \<in> set (h k v))" by force
    then show "x \<in> set (concat (map (\<lambda>(k, v). h k v) m)) \<longleftrightarrow> x \<in> {x. \<exists>k v. map_of m k = Some v \<and> x \<in> S k v}"
      unfolding m mem_Collect_eq h .
  qed
  ultimately show ?thesis by blast
qed

definition resource :: "uint32 \<Rightarrow> uint32 \<Rightarrow> uint32 \<Rightarrow> int32 \<Rightarrow> uint64 \<Rightarrow> OltAllocatedResource" where
  "resource p onu u r f = \<lparr>ar_PonPortId = p, ar_OnuId = onu, ar_PortNo = u, ar_ResourceId = r, ar_FlowId = f\<rparr>"

lemma sub_map_ex: "(\<exists>k v. map_of m k = Some v \<and> Q k v) \<longleftrightarrow> (\<exists>k. Q k (sub_map m k))" if "\<And>k. \<not> Q k []"
proof -
  have "(\<exists>v. map_of m k = Some v \<and> Q k v) \<longleftrightarrow> Q k (sub_map m k)" for k using that by (cases "map_of m k") (auto simp: sub_map_def)
  then show ?thesis by blast
qed

lemma sub_map_Nil [simp]: "sub_map [] k = []"
  by (simp add: sub_map_def)

lemma resource_sel [simp]:
  "ar_PonPortId (resource p onu u r f) = p" "ar_OnuId (resource p onu u r f) = onu" "ar_PortNo (resource p onu u r f) = u"
  "ar_ResourceId (resource p onu u r f) = r" "ar_FlowId (resource p onu u r f) = f"
  by (simp_all add: resource_def)

lemma report_flows:
  "gomap_ok fs \<Longrightarrow> distinct (map (\<lambda>(f, _). resource p onu u r f) fs)
     \<and> set (map (\<lambda>(f, _). resource p onu u r f) fs) = {x. \<exists>f. map_of fs f \<noteq> None \<and> x = resource p onu u r f}"
proof -
  assume ok: "gomap_ok fs"
  have "inj (resource p onu u r)" by (intro injI) (simp add: resource_def)
  moreover have "map (\<lambda>(f, _). resource p onu u r f) fs = map (resource p onu u r) (map fst fs)" by (simp add: split_beta comp_def)
  moreover have "map_of fs f \<noteq> None \<longleftrightarrow> f \<in> set (map fst fs)" for f by (simp add: map_of_eq_None_iff)
  ultimately show ?thesis using ok by (auto simp only: gomap_ok_def distinct_map set_map) (auto intro: inj_on_subset)
qed

lemma report_uni:
  assumes "uni_resources_ok m"
  shows "distinct (concat (map (\<lambda>(r, fs). map (\<lambda>(f, _). resource p onu u r f) fs) m))
     \<and> set (concat (map (\<lambda>(r, fs). map (\<lambda>(f, _). resource p onu u r f) fs) m)) = {x. \<exists>r f. map_of (sub_map m r) f \<noteq> None \<and> x = resource p onu u r f}"
proof -
  have "distinct (concat (map (\<lambda>(r, fs). map (\<lambda>(f, _). resource p onu u r f) fs) m))
     \<and> set (concat (map (\<lambda>(r, fs). map (\<lambda>(f, _). resource p onu u r f) fs) m))
       = {x. \<exists>r v. map_of m r = Some v \<and> x \<in> {x. \<exists>f. map_of v f \<noteq> None \<and> x = resource p onu u r f}}"
    by (rule loop_over_map[where P = "\<lambda>fs. gomap_ok fs \<and> fs \<noteq> []" and key = ar_ResourceId, OF assms[unfolded uni_resources_ok_def]])
      (use report_flows in \<open>blast, auto\<close>)
  then show ?thesis by (subst (asm) sub_map_ex) auto
qed

lemma report_onu:
  assumes "maps_ok uni_resources_ok m"
  shows "distinct (concat (map (\<lambda>(u, rs). concat (map (\<lambda>(r, fs). map (\<lambda>(f, _). resource p onu u r f) fs) rs)) m))
     \<and> set (concat (map (\<lambda>(u, rs). concat (map (\<lambda>(r, fs). map (\<lambda>(f, _). resource p onu u r f) fs) rs)) m))
       = {x. \<exists>u r f. map_of (sub_map (sub_map m u) r) f \<noteq> None \<and> x = resource p onu u r f}"
proof -
  have "distinct (concat (map (\<lambda>(u, rs). concat (map (\<lambda>(r, fs). map (\<lambda>(f, _). resource p onu u r f) fs) rs)) m))
     \<and> set (concat (map (\<lambda>(u, rs). concat (map (\<lambda>(r, fs). map (\<lambda>(f, _). resource p onu u r f) fs) rs)) m))
       = {x. \<exists>u v. map_of m u = Some v \<and> x \<in> {x. \<exists>r f. map_of (sub_map v r) f \<noteq> None \<and> x = resource p onu u r f}}"
    by (rule loop_over_map[where key = ar_PortNo, OF assms report_uni]) auto
  then show ?thesis by (subst (asm) sub_map_ex) auto
qed

lemma report_pon:
  assumes "maps_ok (maps_ok uni_resources_ok) m"
  shows "distinct (concat (map (\<lambda>(onu, us). concat (map (\<lambda>(u, rs). concat (map (\<lambda>(r, fs). map (\<lambda>(f, _). resource p onu u r f) fs) rs)) us)) m))
     \<and> set (concat (map (\<lambda>(onu, us). concat (map (\<lambda>(u, rs). concat (map (\<lambda>(r, fs). map (\<lambda>(f, _). resource p onu u r f) fs) rs)) us)) m))
       = {x. \<exists>onu u r f. map_of (sub_map (sub_map (sub_map m onu) u) r) f \<noteq> None \<and> x = resource p onu u r f}"
proof -
  have "distinct (concat (map (\<lambda>(onu, us). concat (map (\<lambda>(u, rs). concat (map (\<lambda>(r, fs). map (\<lambda>(f, _). resource p onu u r f) fs) rs)) us)) m))
     \<and> set (concat (map (\<lambda>(onu, us). concat (map (\<lambda>(u, rs). concat (map (\<lambda>(r, fs). map (\<lambda>(f, _). resource p onu u r f) fs) rs)) us)) m))
       = {x. \<exists>onu v. map_of m onu = Some v \<and> x \<in> {x. \<exists>u r f. map_of (sub_map (sub_map v u) r) f \<noteq> None \<and> x = resource p onu u r f}}"
    by (rule loop_over_map[where key = ar_OnuId, OF assms report_onu]) auto
  then show ?thesis by (subst (asm) sub_map_ex) auto
qed

lemma resources_report:
  assumes "flow_table_ok m"
  shows "distinct (resourcesMapToresourcesProto m) \<and> set (resourcesMapToresourcesProto m) = (\<lambda>(p, onu, u, r, f). resource p onu u r f) ` uses m"
proof -
  have "distinct (resourcesMapToresourcesProto m)
     \<and> set (resourcesMapToresourcesProto m)
       = {x. \<exists>p v. map_of m p = Some v \<and> x \<in> {x. \<exists>onu u r f. map_of (sub_map (sub_map (sub_map v onu) u) r) f \<noteq> None \<and> x = resource p onu u r f}}"
    unfolding resourcesMapToresourcesProto_def resource_def[symmetric]
    by (rule loop_over_map[where key = ar_PonPortId, OF assms[unfolded flow_table_ok_def] report_pon]) auto
  then have "distinct (resourcesMapToresourcesProto m) \<and> set (resourcesMapToresourcesProto m)
      = {x. \<exists>p onu u r f. map_of (sub_map (sub_map (sub_map (sub_map m p) onu) u) r) f \<noteq> None \<and> x = resource p onu u r f}"
    by (subst (asm) sub_map_ex) auto
  moreover have "(\<lambda>(p, onu, u, r, f). resource p onu u r f) ` uses m
      = {x. \<exists>p onu u r f. map_of (sub_map (sub_map (sub_map (sub_map m p) onu) u) r) f \<noteq> None \<and> x = resource p onu u r f}"
    unfolding uses_def by (rule set_eqI) (simp only: image_iff mem_Collect_eq split_paired_Ex Bex_def prod.case)
  ultimately show ?thesis by simp
qed

text \<open>
  C22: the report of the allocated resources. In every state that an OLT can reach, the report of GEM ports and that of alloc-ids list
  exactly the uses that the flows have stored, each once, and two entries for one resource of one PON name the same ONU; a request for
  another type of resource is refused.
\<close>

theorem allocated_resources_reported:
  assumes "olt_reachable env d"
  shows "\<exists>gs as. GetOltAllocatedResources GEM_PORT d = Some gs \<and> GetOltAllocatedResources ALLOC_ID d = Some as
     \<and> distinct gs \<and> set gs = (\<lambda>(p, onu, u, r, f). resource p onu u r f) ` uses (GemPortIDs d)
     \<and> distinct as \<and> set as = (\<lambda>(p, onu, u, r, f). resource p onu u r f) ` uses (AllocIDs d)
     \<and> (\<forall>rs \<in> {set gs, set as}. \<forall>x \<in> rs. \<forall>y \<in> rs. ar_PonPortId x = ar_PonPortId y \<and> ar_ResourceId x = ar_ResourceId y \<longrightarrow> ar_OnuId x = ar_OnuId y)
     \<and> GetOltAllocatedResources RT_UNKNOWN d = None \<and> GetOltAllocatedResources RT_OTHER d = None"
proof -
  have safe: "table_safe (GemPortIDs d)" "table_safe (AllocIDs d)" using olt_reachable_ok[OF assms] by (simp_all add: olt_ok_def)
  have one: "ar_OnuId x = ar_OnuId y" if "exclusive m" "x \<in> (\<lambda>(p, onu, u, r, f). resource p onu u r f) ` uses m"
    "y \<in> (\<lambda>(p, onu, u, r, f). resource p onu u r f) ` uses m" "ar_PonPortId x = ar_PonPortId y" "ar_ResourceId x = ar_ResourceId y" for m x y
    using that unfolding exclusive_def by auto blast
  let ?g = "resourcesMapToresourcesProto (GemPortIDs d)" and ?a = "resourcesMapToresourcesProto (AllocIDs d)"
  note g = resources_report[OF safe(1)[unfolded table_safe_def, THEN conjunct1]] and a = resources_report[OF safe(2)[unfolded table_safe_def, THEN conjunct1]]
  have excl: "\<forall>x \<in> rs. \<forall>y \<in> rs. ar_PonPortId x = ar_PonPortId y \<and> ar_ResourceId x = ar_ResourceId y \<longrightarrow> ar_OnuId x = ar_OnuId y"
    if rs: "rs = set ?g \<or> rs = set ?a" for rs
  proof -
    obtain m where m: "exclusive m" "rs = (\<lambda>(p, onu, u, r, f). resource p onu u r f) ` uses m"
      using rs g a safe[unfolded table_safe_def] by blast
    show ?thesis unfolding m(2) by (intro ballI impI) (elim conjE, rule one[OF m(1)])
  qed
  show ?thesis
  proof (intro exI conjI)
    show "GetOltAllocatedResources GEM_PORT d = Some ?g" "GetOltAllocatedResources ALLOC_ID d = Some ?a"
      "GetOltAllocatedResources RT_UNKNOWN d = None" "GetOltAllocatedResources RT_OTHER d = None" by (simp_all add: GetOltAllocatedResources_def)
    show "\<forall>rs \<in> {set ?g, set ?a}. \<forall>x \<in> rs. \<forall>y \<in> rs. ar_PonPortId x = ar_PonPortId y \<and> ar_ResourceId x = ar_ResourceId y \<longrightarrow> ar_OnuId x = ar_OnuId y"
      by (rule ballI, rule excl) (simp only: insert_iff empty_iff simp_thms)
  qed (rule g[THEN conjunct1] g[THEN conjunct2] a[THEN conjunct1] a[THEN conjunct2])+
qed

theorem allocated_resources_reported_witness:
  "\<exists>d gs. olt_reachable sample_olt_env d \<and> length (Pons d) = 1 \<and> GetOltAllocatedResources GEM_PORT d = Some gs \<and> distinct gs"
proof -
  obtain d where d: "CreateOLT sample_olt_options False = Ret d" "length (Pons d) = 1" using sample_olt_created by blast
  have r: "olt_reachable sample_olt_env d" by (rule olt_reachable.created[OF d(1)])
  obtain gs where "GetOltAllocatedResources GEM_PORT d = Some gs" "distinct gs" using allocated_resources_reported[OF r] by (elim exE conjE)
  with r d(2) show ?thesis by (intro exI conjI)
qed

section \<open>Switching the OLT\<close>

text \<open>
  C34: switching the OLT over the control interface. In every reachable state: \<open>ShutdownOlt\<close> succeeds exactly when the OLT is enabled, and after
  that \<open>PoweronOlt\<close> is refused, as it is for every OLT that is initialised, enabled or disabled; nothing changes then. In a deleted OLT, as it is
  while it restarts, \<open>PoweronOlt\<close> stops the process as long as the server runs, and initialises the OLT once the server has been stopped.
\<close>

theorem olt_power_by_api:
  assumes "olt_reachable env d"
  shows "(if current (olt_InternalState d) = OltEnabled
      then \<exists>d1. ShutdownOlt d = Ret ((OK, True), d1) \<and> current (olt_InternalState d1) = OltDisabled \<and> PoweronOlt d1 = Ret ((FailedPrecondition, False), d1)
      else ShutdownOlt d = Ret ((FailedPrecondition, False), d))
     \<and> (current (olt_InternalState d) \<in> {OltInitialized, OltEnabled, OltDisabled} \<longrightarrow> PoweronOlt d = Ret ((FailedPrecondition, False), d))
     \<and> (current (olt_InternalState d) = OltDeleted \<longrightarrow>
          (if OltServer d then PoweronOlt d = Panic FatalLog
           else Nnis d \<noteq> [] \<longrightarrow> (\<exists>d1. PoweronOlt d = Ret ((OK, True), d1) \<and> current (olt_InternalState d1) = OltInitialized \<and> OltServer d1)))"
proof -
  have "transitions (olt_InternalState d) = transitions new_olt_state" using olt_reachable_ok[OF assms] by (simp add: olt_ok_def)
  then show ?thesis
    by (cases "Nnis d") (auto simp: ShutdownOlt_def PoweronOlt_def olt_switch_def switch_response_def olt_Event_def fsm_Event_def olt_next enter_olt_def
      InitOlt_def put_olt_state_def Let_def)
qed

theorem olt_power_by_api_witness:
  "\<exists>d. olt_reachable sample_olt_env d \<and> current (olt_InternalState d) = OltInitialized
     \<and> ShutdownOlt d = Ret ((FailedPrecondition, False), d) \<and> PoweronOlt d = Ret ((FailedPrecondition, False), d)"
proof -
  obtain d where d: "CreateOLT sample_olt_options False = Ret d" "current (olt_InternalState d) = OltInitialized" using sample_olt_created by blast
  have r: "olt_reachable sample_olt_env d" by (rule olt_reachable.created[OF d(1)])
  from olt_power_by_api[OF r] r d(2) show ?thesis by auto
qed

section \<open>Switching an ONU\<close>

lemma find_onu_kept:
  assumes "find_onu here ps = Some (i, j)" "here o1"
  shows "find_onu here (ps[i := (ps ! i)\<lparr>Onus := (Onus (ps ! i))[j := o1], pon_Tables := t\<rparr>]) = Some (i, j)"
proof -
  let ?p = "(ps ! i)\<lparr>Onus := (Onus (ps ! i))[j := o1], pon_Tables := t\<rparr>"
  have ij: "i < length ps" "j < length (Onus (ps ! i))" using find_onu_SomeD[OF assms(1)] by auto
  have f: "find_idx (\<lambda>p. list_ex here (Onus p)) ps = Some i" "find_idx here (Onus (ps ! i)) = Some j"
    using assms(1) by (auto simp: find_onu_def split: option.splits)
  have "list_ex here (Onus ?p)" using ij assms(2) by (auto simp: list_ex_length)
  then have "find_idx (\<lambda>p. list_ex here (Onus p)) (ps[i := ?p]) = Some i" using f(1) ij by (auto simp: find_idx_Some)
  moreover have "find_idx here (Onus (ps[i := ?p] ! i)) = Some j" using f(2) ij assms(2) by (auto simp: find_idx_Some)
  ultimately show ?thesis by (simp add: find_onu_def)
qed

lemma GetPonById_kept:
  assumes "GetPonById k ps = Some i" "pon_ID p = pon_ID (ps ! i)"
  shows "GetPonById k (ps[i := p]) = Some i"
  using assms by (auto simp: GetPonById_def find_idx_Some)

text \<open>The OLT after an operation of one ONU.\<close>

definition with_onu :: "nat \<Rightarrow> nat \<Rightarrow> Onu \<Rightarrow> PonTables \<Rightarrow> olt_message chan \<Rightarrow> OltDevice \<Rightarrow> OltDevice" where
  "with_onu i j o1 t c d = d\<lparr>Pons := (Pons d)[i := (Pons d ! i)\<lparr>Onus := (Onus (Pons d ! i))[j := o1], pon_Tables := t\<rparr>], olt_channel := c\<rparr>"

lemma with_onu_sel:
  assumes "i < length (Pons d)" "j < length (Onus (Pons d ! i))"
  shows "the_onu i j (with_onu i j o1 t c d) = o1" "pon_Tables (Pons (with_onu i j o1 t c d) ! i) = t" "olt_channel (with_onu i j o1 t c d) = c"
    "pon_InternalState (Pons (with_onu i j o1 t c d) ! i) = pon_InternalState (Pons d ! i)" "olt_InternalState (with_onu i j o1 t c d) = olt_InternalState d"
    "i < length (Pons (with_onu i j o1 t c d))" "j < length (Onus (Pons (with_onu i j o1 t c d) ! i))" "olt_sent (with_onu i j o1 t c d) = olt_sent d"
  using assms by (simp_all add: with_onu_def the_onu_def)

lemma FindOnuBySn_kept:
  assumes "FindOnuBySn sn (Pons d) = Some (i, j)" "Sn o1 = Sn (the_onu i j d)"
  shows "FindOnuBySn sn (Pons (with_onu i j o1 t c d)) = Some (i, j)"
  using assms find_onu_SomeD[OF assms(1)[unfolded FindOnuBySn_def]] by (auto simp: with_onu_def FindOnuBySn_def the_onu_def intro!: find_onu_kept)

lemma ShutdownONU_running:
  assumes "olt_ok d" "FindOnuBySn sn (Pons d) = Some (i, j)" "current (onu_InternalState (the_onu i j d)) \<in> disable_sources"
    and "chan_room (onu_Channel (the_onu i j d)) (ports_up (the_onu i j d) + 2)" "chan_room (olt_channel d) (Suc (Suc n))"
  obtains o2 c where "ShutdownONU sn d = Ret ((OK, True), with_onu i j o2 (cleaned_tables (the_onu i j d) (pon_Tables (Pons d ! i))) c d)" "onu_ok o2"
    and "onu_ID o2 = onu_ID (the_onu i j d)" "onu_SerialNumber o2 = onu_SerialNumber (the_onu i j d)" "onu_PonPortID o2 = onu_PonPortID (the_onu i j d)"
    and "current (onu_InternalState o2) = OnuStateDisabled" "chan_room c n"
    and "chan_msgs c = chan_msgs (olt_channel d) @ [dying_gasp (the_onu i j d), los_alarm ''on'' (the_onu i j d)]"
proof -
  let ?o = "the_onu i j d" and ?t = "pon_Tables (Pons d ! i)"
  let ?v = "onu_view ?o (?t, olt_channel d, olt_sent d)"
  have t: "tables_ok ?t" and o1: "onu_ok ?o" using olt_okD(2,3)[OF assms(1)] FindOnuBySn_range[OF assms(2)] by auto
  have v: "world_ok ?v" "onu_current ?v \<in> disable_sources" "chan_room (onu_Channel (w_onu ?v)) (Suc (Suc (ports_up (w_onu ?v))))" "chan_room (w_olt ?v) (Suc (Suc n))"
    using t o1 assms(3-5) by (simp_all add: world_ok_def onu_view_def onu_current_def)
  obtain us ps q c where off: "HandleShutdownONU ?v = Ret (True, ?v\<lparr>w_onu := disabled_onu ?o us ps (Chan (Some 2048) q (FlowIds ?o = [])),
        w_pon := cleaned_tables ?o ?t, w_olt := c\<rparr>)"
    and us: "\<forall>u \<in> set us. uni_ok u \<and> \<not> uni_up u" "\<forall>p \<in> set ps. pots_ok p \<and> \<not> pots_up p"
    and c: "chan_room c n" "chan_msgs c = chan_msgs (olt_channel d) @ [dying_gasp ?o, los_alarm ''on'' ?o]"
    using shutdown_running[OF v] by (auto simp: onu_view_def)
  let ?o2 = "disabled_onu ?o us ps (Chan (Some 2048) q (FlowIds ?o = []))"
  have "ShutdownONU sn d = Ret ((OK, True), with_onu i j ?o2 (cleaned_tables ?o ?t) c d)"
    using assms(2) off by (simp add: ShutdownONU_def handleShutdownONU_def on_olt_onu_res_def switch_response_def with_onu_def onu_view_def)
  then show thesis
    by (rule that) (use disabled_onu_ok[OF o1] us c in \<open>auto simp: disabled_onu_def\<close>)
qed

lemma PoweronONU_disabled:
  assumes "i < length (Pons d)" "onu_ok (the_onu i j d)" "tables_ok (pon_Tables (Pons d ! i))" "FindOnuBySn sn (Pons d) = Some (i, j)"
    and "GetPonById (onu_PonPortID (the_onu i j d)) (Pons d) = Some i" "current (onu_InternalState (the_onu i j d)) = OnuStateDisabled"
    and "map_of (AllocatedOnuIds (pon_Tables (Pons d ! i))) (onu_ID (the_onu i j d)) = None" "chan_room (olt_channel d) (Suc n)"
    and "current (pon_InternalState (Pons d ! i)) = pon_enabled" "current (olt_InternalState d) \<noteq> OltDeleted"
  shows "\<exists>c. PoweronONU sn d = Ret ((OK, True), with_onu i j (restarted_onu (the_onu i j d))
        (storeOnuId (onu_ID (the_onu i j d)) (onu_SerialNumber (the_onu i j d)) (pon_Tables (Pons d ! i))) c d)
     \<and> chan_msgs c = chan_msgs (olt_channel d) @ [los_alarm ''off'' (the_onu i j d)]"
proof -
  let ?o = "the_onu i j d" and ?t = "pon_Tables (Pons d ! i)"
  let ?v = "onu_view ?o (?t, olt_channel d, olt_sent d)"
  have v: "world_ok ?v" "onu_current ?v = OnuStateDisabled" "map_of (AllocatedOnuIds (w_pon ?v)) (onu_ID (w_onu ?v)) = None" "chan_room (w_olt ?v) (Suc n)"
    using assms by (simp_all add: world_ok_def onu_view_def onu_current_def)
  obtain c where "HandlePowerOnONU False ?v = Ret (True, ?v\<lparr>w_onu := restarted_onu ?o, w_pon := storeOnuId (onu_ID ?o) (onu_SerialNumber ?o) ?t, w_olt := c\<rparr>)"
    "chan_msgs c = chan_msgs (olt_channel d) @ [los_alarm ''off'' ?o]"
    using power_on_disabled[OF v] by (auto simp: onu_view_def)
  then show ?thesis using assms(4,5,9,10)
    by (intro exI[of _ c]) (simp add: PoweronONU_def handlePoweronONU_def on_olt_onu_res_def switch_response_def with_onu_def onu_view_def)
qed

text \<open>
  C23: switching an ONU off and on over the control interface. Let an OLT satisfy the invariant of its reachable states, and let one of its ONUs be in a state
  that allows it to be disabled, with room in its channel for its alarms and in the channel of the OLT for three messages, on an enabled port, and let the OLT
  not be deleted. Then \<open>ShutdownONU\<close> of its serial number succeeds and leaves the ONU disabled, found under the same number, without GEM ports, alloc-ids and
  ONU id on its PON; \<open>PoweronONU\<close> then succeeds and leaves it enabled, with its ONU id; and the OLT gets a dying gasp and the loss of signal being raised and
  cleared, in this order.
\<close>

theorem onu_power_by_api:
  assumes "olt_ok d" "FindOnuBySn sn (Pons d) = Some (i, j)" "GetPonById (onu_PonPortID (the_onu i j d)) (Pons d) = Some i"
    and "current (onu_InternalState (the_onu i j d)) \<in> disable_sources" "chan_room (onu_Channel (the_onu i j d)) (ports_up (the_onu i j d) + 2)"
    and "chan_room (olt_channel d) 3" "current (pon_InternalState (Pons d ! i)) = pon_enabled" "current (olt_InternalState d) \<noteq> OltDeleted"
  shows "\<exists>d1 d2. ShutdownONU sn d = Ret ((OK, True), d1) \<and> FindOnuBySn sn (Pons d1) = Some (i, j)
     \<and> current (onu_InternalState (the_onu i j d1)) = OnuStateDisabled
     \<and> map_of (AllocatedOnuIds (pon_Tables (Pons d1 ! i))) (onu_ID (the_onu i j d)) = None
     \<and> (\<forall>g s. map_of (AllocatedGemPorts (pon_Tables (Pons d1 ! i))) g = Some s \<longrightarrow> \<not> same_ref s (onu_SerialNumber (the_onu i j d)))
     \<and> (\<forall>k v. map_of (AllocatedAllocIds (pon_Tables (Pons d1 ! i))) k = Some v \<longrightarrow> \<not> same_ref (OnuSn v) (onu_SerialNumber (the_onu i j d)))
     \<and> PoweronONU sn d1 = Ret ((OK, True), d2) \<and> current (onu_InternalState (the_onu i j d2)) = OnuStateEnabled
     \<and> map_of (AllocatedOnuIds (pon_Tables (Pons d2 ! i))) (onu_ID (the_onu i j d)) = Some (onu_SerialNumber (the_onu i j d))
     \<and> chan_msgs (olt_channel d2) = chan_msgs (olt_channel d) @ [dying_gasp (the_onu i j d), los_alarm ''on'' (the_onu i j d), los_alarm ''off'' (the_onu i j d)]"
proof -
  let ?o = "the_onu i j d" and ?t = "pon_Tables (Pons d ! i)"
  have lt: "i < length (Pons d)" "j < length (Onus (Pons d ! i))" and t: "tables_ok ?t"
    using FindOnuBySn_range[OF assms(2)] olt_okD(2)[OF assms(1)] by auto
  obtain o2 c where off: "ShutdownONU sn d = Ret ((OK, True), with_onu i j o2 (cleaned_tables ?o ?t) c d)"
    and o2: "onu_ok o2" "onu_ID o2 = onu_ID ?o" "onu_SerialNumber o2 = onu_SerialNumber ?o" "onu_PonPortID o2 = onu_PonPortID ?o"
      "current (onu_InternalState o2) = OnuStateDisabled"
    and c: "chan_room c (Suc 0)" "chan_msgs c = chan_msgs (olt_channel d) @ [dying_gasp ?o, los_alarm ''on'' ?o]"
    using ShutdownONU_running[OF assms(1,2,4,5), of "Suc 0"] assms(6) by (auto simp: numeral_3_eq_3)
  let ?d1 = "with_onu i j o2 (cleaned_tables ?o ?t) c d"
  note d1 = with_onu_sel[OF lt, of o2 "cleaned_tables ?o ?t" c]
  have find1: "FindOnuBySn sn (Pons ?d1) = Some (i, j)" by (rule FindOnuBySn_kept[OF assms(2)]) (simp add: Sn_def o2)
  have "GetPonById (onu_PonPortID (the_onu i j ?d1)) (Pons ?d1) = Some i"
    using GetPonById_kept[OF assms(3)] by (simp add: d1 o2) (simp add: with_onu_def)
  then obtain c' where on: "PoweronONU sn ?d1 = Ret ((OK, True), with_onu i j (restarted_onu o2) (storeOnuId (onu_ID ?o) (onu_SerialNumber ?o) (cleaned_tables ?o ?t)) c' ?d1)"
    "chan_msgs c' = chan_msgs c @ [los_alarm ''off'' o2]"
    using PoweronONU_disabled[of i ?d1 j sn 0] lt t c(1) find1 o2 assms(7,8) by (auto simp: d1 cleaned_tables_maps(3)[OF t])
  define d2 where "d2 = with_onu i j (restarted_onu o2) (storeOnuId (onu_ID ?o) (onu_SerialNumber ?o) (cleaned_tables ?o ?t)) c' ?d1"
  note d2 = with_onu_sel(1-3)[OF d1(6,7), of "restarted_onu o2" "storeOnuId (onu_ID ?o) (onu_SerialNumber ?o) (cleaned_tables ?o ?t)" c', folded d2_def]
  have "current (onu_InternalState (restarted_onu o2)) = OnuStateEnabled" "los_alarm ''off'' o2 = los_alarm ''off'' ?o"
    by (simp_all add: restarted_onu_def los_alarm_def o2)
  then show ?thesis
    using off find1 on(1)[folded d2_def] o2 c(2) on(2) by (intro exI[of _ ?d1] exI[of _ d2])
      (auto simp: d1 d2 cleaned_tables_maps[OF t] storeOnuId_def go_maps split: option.splits if_splits)
qed

theorem onu_power_by_api_witness:
  "\<exists>d1 d2. ShutdownONU (Sn sample_onu) sample_olt = Ret ((OK, True), d1) \<and> current (onu_InternalState (the_onu 0 0 d1)) = OnuStateDisabled
     \<and> PoweronONU (Sn sample_onu) d1 = Ret ((OK, True), d2) \<and> current (onu_InternalState (the_onu 0 0 d2)) = OnuStateEnabled"
proof -
  have o1: "the_onu 0 0 sample_olt = sample_onu" by (simp add: the_onu_def sample_olt_def sample_pon_def CreatePonPort_def)
  have ok: "onu_ok sample_onu" using sample_world_ok(1) by (simp add: world_ok_def sample_world_def)
  have "table_safe [(0, [(1, [])])]"
    by (simp add: table_safe_def flow_table_ok_def maps_ok_def uni_resources_ok_def gomap_ok_def exclusive_def uses_def sub_map_def)
  then have "olt_ok sample_olt"
    using ok by (simp add: olt_ok_def sample_olt_def sample_pon_def CreatePonPort_def pon_ok_def tables_ok_def empty_tables_def)
  moreover have "FindOnuBySn (Sn sample_onu) (Pons sample_olt) = Some (0, 0)"
    by (simp add: FindOnuBySn_def find_onu_def sample_olt_def sample_pon_def CreatePonPort_def)
  moreover have "GetPonById (onu_PonPortID (the_onu 0 0 sample_olt)) (Pons sample_olt) = Some 0"
    unfolding o1 by (simp add: GetPonById_def sample_olt_def sample_pon_def CreatePonPort_def sample_onu_def)
  moreover have "current (onu_InternalState (the_onu 0 0 sample_olt)) \<in> disable_sources"
    "chan_room (onu_Channel (the_onu 0 0 sample_olt)) (ports_up (the_onu 0 0 sample_olt) + 2)" "chan_room (olt_channel sample_olt) 3"
    using sample_world_ok(3) unfolding o1
    by (simp_all add: sample_world_def disable_sources_def chan_room_def sample_olt_def make_chan_def) (simp_all add: sample_onu_def make_chan_def)
  moreover have "current (pon_InternalState (Pons sample_olt ! 0)) = pon_enabled" "current (olt_InternalState sample_olt) \<noteq> OltDeleted"
    by (simp_all add: sample_olt_def sample_pon_def)
  ultimately show ?thesis by (elim onu_power_by_api[THEN exE]) blast+
qed

end
