(* ===== verification/Spec2Isabelle.thy ===== *)
theory Spec2Isabelle
  imports ApiUse
begin

text \<open>
  Verification of BBSim, a simulator of a broadband access network: an OLT with PON ports, the ONUs on
  each of them with their UNI and POTS ports, and the subscriber services behind those, which authenticate (EAPOL), get
  an address (DHCP) and join groups (IGMP). VOLTHA drives the simulator over gRPC; a second gRPC interface controls and inspects it.
  Paths are under \<open>src/\<close>.

  \<^bold>\<open>How the parts interact.\<close> The OLT turns calls of VOLTHA into messages on the channel of an ONU. The
  loop of the ONU handles them one at a time: OMCI requests, flows, packets and alarms. A flow for
  a UNI starts the protocol machines of its services; a packet goes through the UNI to a service.
  Every device answers by indications on the stream of VOLTHA. All ONUs of a PON share its resource tables.

  \<^bold>\<open>How Go is modelled.\<close> \<open>GoPrelude\<close> has the outcome of a Go computation, \<open>Ret\<close>, \<open>Panic\<close> or
  \<open>Blocked\<close> (waiting for ever), its composition \<open>go_bind\<close>, channels with capacity and closing, maps as association lists
  and loops over slices. Machine integers are words of their width. An operation that can fail
  with an error returns a boolean or an option beside the new state. Loggers, locks and delays are left out. A goroutine
  is an operation of its own, which runs when its turn comes. State is passed explicitly: the struct of a
  device is a record, and \<open>onu_world\<close> adds to an ONU what it reaches by pointers.

  \<^bold>\<open>Parameters.\<close> Code that is not in the repository, or whose bytes do not matter, is an argument: the OMCI serialiser and decoder
  of omci-lib-go, the checksum, MD5, the packet decoder of gopacket, the DHCP and IGMP serialisers, the stream, and the client of BBR. What
  is used of them is a hypothesis of the theorem, such as that a response can be serialised or that a frame decodes to the layer that was
  serialised into it; \<open>DhcpServer\<close> has a concrete serialiser and decoder for which its hypotheses hold.

  \<^bold>\<open>Theories.\<close>
  \<^item> \<open>GoPrelude\<close>: the language, with the simplification rules \<open>go_simps\<close> and \<open>go_maps\<close>.
  \<^item> \<open>Fsm\<close> (\<open>vendor/github.com/looplab/fsm\<close>): state machines and their callbacks; the locale \<open>fsm_field\<close> is a
    machine inside a larger state, interpreted for the ONU and for the four machines of a service.
  \<^item> \<open>Types\<close> (\<open>internal/bbsim/types\<close>): messages, flows, indications and the stream.
  \<^item> \<open>Options\<close> (\<open>internal/common/options.go\<close>): PON ranges, services; validation is exact.
  \<^item> \<open>PonResources\<close> (\<open>internal/bbsim/devices/pon.go\<close>): the tables of a PON, with locales for what a table promises.
  \<^item> \<open>Packets\<close> (\<open>internal/bbsim/packetHandlers\<close>, gopacket): VLAN tags on bytes; pushing and popping are inverse.
  \<^item> \<open>Eapol\<close>, \<open>Dhcp\<close>, \<open>Igmp\<close> (\<open>internal/bbsim/responders\<close>): the protocol clients; what they accept, and that their exchanges complete.
  \<^item> \<open>DhcpServer\<close> (\<open>responders/dhcp/dhcp_server.go\<close>): the server on the NNI; the frames of client and server complete the exchange of a lease.
  \<^item> \<open>Service\<close> (\<open>services.go\<close>), \<open>Ports\<close> (\<open>uni_port.go\<close>, \<open>pots_port.go\<close>): the services and ports of an ONU with their loops and
    timers, reachable states and how they can panic, unique tags; the locale \<open>oper_port\<close> is what the two kinds of port share.
  \<^item> \<open>OmciCodec\<close>, \<open>OmciMsgs\<close>, \<open>MibDatabase\<close> (\<open>internal/common/omci\<close>): receiving and answering OMCI, the MIB and its upload.
  \<^item> \<open>Alarms\<close> (\<open>internal/bbsim/alarmsim\<close>): ONU alarms; the indication of a request reports what was asked for.
  \<^item> \<open>Onu\<close>, \<open>OnuLife\<close>: the ONU, its invariant \<open>world_ok\<close>, disabling, power cycling and counters.
  \<^item> \<open>OnuOmci\<close>, \<open>OmciSafety\<close> (\<open>handleOmciRequest\<close>): every request; exactly when the handler panics, what it changes, and the events it does not publish.
  \<^item> \<open>OnuFlows\<close>, \<open>OnuReach\<close> (\<open>ProcessOnuMessages\<close>): flows, packets, the loop, the goroutines of the UNIs and services (\<open>OpUniPackets\<close>,
    \<open>OpService\<close>), and the invariant in all reachable states.
  \<^item> \<open>FlowTables\<close> (\<open>olt.go\<close>): the resources the OLT learns from flows, as a refinement of a set; no resource is shared between ONUs.
  \<^item> \<open>Pon\<close> (\<open>pon.go\<close>): the PON port, its machines and its loops over the ONUs; a port that goes down and comes up.
  \<^item> \<open>Olt\<close> (\<open>olt.go\<close>): the calls of VOLTHA, the machine and the message loop; flows added and removed, and restarting.
  \<^item> \<open>OltCalls\<close> (\<open>olt.go\<close>, \<open>nni.go\<close>, \<open>helpers.go\<close>): creation from the configuration, \<open>Enable\<close>, \<open>RestartOLT\<close>, packets in both directions,
    alarms, statistics, traffic schedulers and reports; the report of the resource ranges ends and is complete.
  \<^item> \<open>Api\<close> (\<open>internal/bbsim/api\<close>): the calls of the control interface. A call that starts a goroutine returns it as a job.
  \<^item> \<open>OltReach\<close>: every state of a whole OLT that these calls, the loops, the jobs and the operations of its ONUs, UNIs and services can reach, in any order, and its
    invariant.
  \<^item> \<open>ApiUse\<close>: the report of resources is exact in every reachable state; an ONU switched off and on comes back; when the OLT can be switched.
  \<^item> This theory: an OMCI request from VOLTHA through the OLT and the ONU into the tables of the PON.

  \<^bold>\<open>Bounds.\<close> No definition uses fuel: the loops of the program run over slices and maps, and the endless loops are
  modelled by their body, composed by reachability or over a list of operations. The one loop with a counter that may not end, over the
  ports of a range in \<open>GetDeviceInfo\<close>, is the partial function \<open>port_ids\<close>, and it is proved when it returns. Theorems that need room in a
  channel say how much; 2048 is the capacity in the code.

  \<^bold>\<open>Not modelled.\<close>
  \<^item> Of the OLT, the gRPC server itself (whether it runs is a flag), the calls that only answer that they are not implemented, and \<open>Reboot\<close>,
    which starts \<open>RestartOLT\<close> in a goroutine. \<open>Enable\<close> is modelled up to where it waits; its goroutines are operations of \<open>OltReach\<close>.
  \<^item> Of the control interface, \<open>Version\<close>, \<open>GetOlt\<close>, \<open>SetLogLevel\<close>, \<open>RestartgRPCServer\<close> and the texts of the answers.
  \<^item> The BBR side of the ONU (\<open>handleOmciResponse\<close>, \<open>StartOmci\<close>, the packets BBR receives) and \<open>internal/bbr\<close>: a separate program that
    drives the simulator as a client, whose progress depends on the timing of the two.
  \<^item> The DMI server, the legacy REST interface and SADIS: they render configuration and state in other formats.
  \<^item> The command-line clients, reading of files and flags, servers, Kafka and logging: input and output.
  \<^item> The generated protocol code under \<open>api\<close>.
  \<^item> Data races: each operation runs to its end before the next one.
\<close>

section \<open>From VOLTHA to the tables of a PON\<close>

text \<open>The ONU \<open>j\<close> of the port \<open>i\<close>, with what it shares.\<close>

definition olt_view :: "nat \<Rightarrow> nat \<Rightarrow> OltDevice \<Rightarrow> onu_world" where
  "olt_view i j d = onu_view (the_onu i j d) (pon_Tables (Pons d ! i), olt_channel d, olt_sent d)"

text \<open>
  C6: a GEM port from end to end. Let VOLTHA send the OLT an OMCI message that decodes to a request to create a GEM port other than
  4069, for an ONU that is not disabled, whose channel is open and empty and which answers every request. Then the call
  returns, the next step of the ONU's loop handles it, and afterwards the port is this ONU's if it was free, with
  the MIB data sync incremented; if it had an owner, the owner and the data sync are as before.
\<close>

theorem omci_create_end_to_end:
  assumes "GetPonById intfId (Pons d) = Some i" "GetOnuById onuId (Onus (Pons d ! i)) = Some j"
    and "current (onu_InternalState (the_onu i j d)) \<noteq> OnuStateDisabled" "onu_Channel (the_onu i j d) = Chan (Some 2048) [] False"
    and "OmciResponseRate (the_onu i j d) \<ge> 10" "\<not> oe_publish env" "\<And>t e r. oe_ser env t e r \<noteq> None"
    and "ParseOpenOltOmciPacket (\<lambda>b. map_option (\<lambda>m. (m, b)) (oe_decode env b)) pkt = Ret (Inr (m, b))"
    and "Request m = CreateRequest (Some me)" "EntityClass me = GemPortNetworkCtpClassID" "EntityInstance me \<noteq> 4069"
  shows "\<exists>d1 w. OmciMsgOut env intfId onuId pkt d = Ret (True, d1) \<and> ProcessOnuMessages_step env client (olt_view i j d1) = Ret (Some ([], w))
     \<and> (case map_of (AllocatedGemPorts (pon_Tables (Pons d ! i))) (EntityInstance me) of
          None \<Rightarrow> map_of (AllocatedGemPorts (w_pon w)) (EntityInstance me) = Some (onu_SerialNumber (the_onu i j d))
            \<and> MibDataSync (w_onu w) = MibDataSync (the_onu i j d) + 1
        | Some owner \<Rightarrow> map_of (AllocatedGemPorts (w_pon w)) (EntityInstance me) = Some owner
            \<and> MibDataSync (w_onu w) = MibDataSync (the_onu i j d))"
proof -
  note lt = pon_by_id.lookup_in_range[OF assms(1)] onu_by_id.lookup_in_range[OF assms(2)]
  let ?o = "the_onu i j d"
  let ?d1 = "set_onu i j (?o\<lparr>onu_Channel := Chan (Some 2048) [OmciMessage m b] False\<rparr>) d"
  have out: "OmciMsgOut env intfId onuId pkt d = Ret (True, ?d1)"
    using assms(1-4,8) by (simp add: OmciMsgOut_def send_to_onu_def)
  let ?w0 = "onu_view ?o (pon_Tables (Pons d ! i), olt_channel d, olt_sent d)"
  have view: "on_onu (\<lambda>o1. o1\<lparr>onu_Channel := Chan (Some 2048) [] False\<rparr>) (olt_view i j ?d1) = ?w0"
    "onu_Channel (w_onu (olt_view i j ?d1)) = Chan (Some 2048) [OmciMessage m b] False"
    using lt assms(4) by (simp_all add: olt_view_def onu_view_def on_onu_def set_onu_def the_onu_def)
  have ok: "CreateCreateResponse (oe_ser env) m (Some me) r \<noteq> None" for r using assms(7) by (simp add: CreateCreateResponse_def)
  let ?w1 = "on_onu count_omci ?w0" and ?sn = "onu_SerialNumber ?o" and ?g = "EntityInstance me"
  have step: "ProcessOnuMessages_step env client (olt_view i j ?d1) = Ret (Some ([], snd (sendOmciIndication (oe_stream env) p w)))"
    if "omci_create (oe_ser env) m (Some me) ?w1 = (Reply (Some p) [], w)" for p w
    using handle_unlimited[of ?w0 env m b] assms(5,6,9) that
    by (simp add: ProcessOnuMessages_step_def view handle_onu_message_def omci_branch_def)
  have w1: "AllocatedGemPorts (w_pon ?w1) = AllocatedGemPorts (pon_Tables (Pons d ! i))" "MibDataSync (w_onu ?w1) = MibDataSync ?o"
    "onu_SerialNumber (w_onu ?w1) = ?sn" by (simp_all add: count_omci_def)
  show ?thesis
  proof (cases "map_of (AllocatedGemPorts (pon_Tables (Pons d ! i))) ?g")
    case None
    obtain p where p: "CreateCreateResponse (oe_ser env) m (Some me) Success = Some p" using ok by blast
    have "omci_create (oe_ser env) m (Some me) ?w1 = (Reply (Some p) [], bump_mds (on_pon (storeGemPort ?g ?sn) ?w1))"
      using None p assms(10,11) w1 by (simp add: omci_create_def reply_mds_def isGemPortAllocated_def)
    from step[OF this] out None show ?thesis
      by (auto simp: count_omci_def bump_mds_def storeGemPort_def map_of_AList_update intro!: exI[of _ ?d1])
  next
    case (Some owner)
    obtain p where p: "CreateCreateResponse (oe_ser env) m (Some me) ProcessingError = Some p" using ok by blast
    have "omci_create (oe_ser env) m (Some me) ?w1 = (Reply (Some p) [], ?w1)"
      using Some p assms(10,11) w1 by (simp add: omci_create_def isGemPortAllocated_def)
    from step[OF this] out Some show ?thesis by (auto simp: count_omci_def intro!: exI[of _ ?d1])
  qed
qed

definition create_me :: me_base where
  "create_me = \<lparr>EntityClass = GemPortNetworkCtpClassID, EntityInstance = 1024\<rparr>"

text \<open>A decoder that knows one request, and a message of 48 zero bytes but for the device identifier.\<close>

definition create_env :: omci_env where
  "create_env = sample_env\<lparr>oe_decode := (\<lambda>_. Some (sample_request (CreateRequest (Some create_me))))\<rparr>"

definition create_packet :: "byte list" where
  "create_packet = HexEncode ((replicate 48 0)[3 := BaselineIdent])"

theorem omci_create_end_to_end_witness:
  "\<exists>d1 w. OmciMsgOut create_env 0 1 create_packet sample_olt = Ret (True, d1)
     \<and> ProcessOnuMessages_step create_env (\<lambda>_. False) (olt_view 0 0 d1) = Ret (Some ([], w))
     \<and> map_of (AllocatedGemPorts (w_pon w)) 1024 = Some (onu_SerialNumber (the_onu 0 0 sample_olt))"
proof -
  have o1: "the_onu 0 0 sample_olt = sample_onu" "pon_Tables (Pons sample_olt ! 0) = empty_tables"
    by (simp_all add: the_onu_def sample_olt_def sample_pon_def CreatePonPort_def)
  have find: "GetPonById 0 (Pons sample_olt) = Some 0" "GetOnuById 1 (Onus (Pons sample_olt ! 0)) = Some 0"
    by (simp_all add: GetPonById_def GetOnuById_def sample_olt_def sample_pon_def CreatePonPort_def sample_onu_def)
  have onu: "current (onu_InternalState (the_onu 0 0 sample_olt)) \<noteq> OnuStateDisabled" "onu_Channel (the_onu 0 0 sample_olt) = Chan (Some 2048) [] False"
    "OmciResponseRate (the_onu 0 0 sample_olt) \<ge> 10" by (simp_all add: o1 sample_onu_def make_chan_def)
  have env: "\<not> oe_publish create_env" "\<And>t e r. oe_ser create_env t e r \<noteq> None" by (simp_all add: create_env_def sample_env_def)
  obtain b where parse: "ParseOpenOltOmciPacket (\<lambda>b. map_option (\<lambda>m. (m, b)) (oe_decode create_env b)) create_packet
      = Ret (Inr (sample_request (CreateRequest (Some create_me)), b))"
    by (simp add: ParseOpenOltOmciPacket_def create_packet_def HexDecode_HexEncode check_omci_def create_env_def)
  have req: "Request (sample_request (CreateRequest (Some create_me))) = CreateRequest (Some create_me)"
    "EntityClass create_me = GemPortNetworkCtpClassID" "EntityInstance create_me \<noteq> 4069" by (simp_all add: sample_request_def create_me_def)
  from omci_create_end_to_end[OF find onu env parse req, of "\<lambda>_. False"] show ?thesis
    by (auto simp: o1 empty_tables_def create_me_def)
qed

end
